(* ===== verification/Prelude.thy ===== *)
theory Prelude
  imports
    "HOL-Library.Word"
    "HOL-Library.Sublist"
    "HOL-Library.Char_ord"
    "HOL-Library.List_Lexorder"
begin

text \<open>
  Shared vocabulary of the development: Go's strings and byte slices, the functions of
  package \<^verbatim>\<open>strings\<close> that the sources call, and \<^verbatim>\<open>uint64\<close> arithmetic, with
  the lemmas that the component theories share.

  A Go \<^verbatim>\<open>string\<close> is a sequence of bytes, which is what Isabelle's \<open>string\<close> (a list of
  8-bit \<open>char\<close>) is. A \<^verbatim>\<open>[]byte\<close> is a list of \<open>8 word\<close>.
\<close>

named_theorems go_defs \<open>definitions of the modelled Go functions\<close>
named_theorems mount_inv \<open>preservation of the mount invariants\<close>

type_synonym byte = "8 word"
type_synonym bytes = "byte list"
type_synonym u64 = "64 word"

section \<open>Strings and byte slices\<close>

text \<open>The conversions \<^verbatim>\<open>[]byte(s)\<close> and \<^verbatim>\<open>string(b)\<close>.\<close>

definition bytes_of_string :: "string \<Rightarrow> bytes" where
  "bytes_of_string s = map (\<lambda>c. of_nat (of_char c)) s"

definition string_of_bytes :: "bytes \<Rightarrow> string" where
  "string_of_bytes b = map (\<lambda>w. char_of (unat w)) b"

lemma char_of_unat_byte [simp]: "char_of (unat (of_nat (of_char c) :: byte)) = c"
proof -
  have "unat (of_nat (of_char c) :: byte) = of_char c"
    using nat_of_char_less_256 [of c] by (simp only: unat_of_nat) simp
  then show ?thesis by simp
qed

lemma string_of_bytes_of_string [simp]: "string_of_bytes (bytes_of_string s) = s"
  by (simp add: string_of_bytes_def bytes_of_string_def comp_def del: of_nat_of_char)

lemma bytes_of_string_of_bytes [simp]: "bytes_of_string (string_of_bytes b) = b"
proof -
  have "of_nat (of_char (char_of (unat w) :: char)) = w" for w :: byte
    using unsigned_less [of w, where ?'a = nat]
    by (simp add: of_char_of del: of_nat_of_char)
  then show ?thesis
    by (simp add: string_of_bytes_def bytes_of_string_def comp_def del: of_nat_of_char)
qed

lemma length_bytes_of_string [simp]: "length (bytes_of_string s) = length s"
  by (simp add: bytes_of_string_def)

lemma length_string_of_bytes [simp]: "length (string_of_bytes b) = length b"
  by (simp add: string_of_bytes_def)

subsection \<open>Package \<^verbatim>\<open>strings\<close>\<close>

text \<open>
  \<^verbatim>\<open>strings.Split(s, sep)\<close> for a one-byte separator: the empty string has one empty
  segment. \<open>join_on\<close> is its inverse, \<^verbatim>\<open>strings.Join\<close>.
\<close>

fun split_on :: "'a \<Rightarrow> 'a list \<Rightarrow> 'a list list" where
  "split_on d [] = [[]]"
| "split_on d (c # cs) =
     (if c = d then [] # split_on d cs
      else case split_on d cs of
             [] \<Rightarrow> [[c]]
           | s # ss \<Rightarrow> (c # s) # ss)"

fun join_on :: "'a \<Rightarrow> 'a list list \<Rightarrow> 'a list" where
  "join_on d [] = []"
| "join_on d [s] = s"
| "join_on d (s # t # ss) = s @ d # join_on d (t # ss)"

lemma split_on_ne [simp]: "split_on d s \<noteq> []"
  by (induction s) (auto split: list.splits)

lemma split_on_no_sep: "d \<notin> set s \<Longrightarrow> split_on d s = [s]"
  by (induction s) auto

lemma split_on_append_sep: "d \<notin> set s \<Longrightarrow> split_on d (s @ d # t) = s # split_on d t"
  by (induction s) auto

lemma split_on_segments: "seg \<in> set (split_on d s) \<Longrightarrow> d \<notin> set seg"
proof (induction s arbitrary: seg)
  case Nil
  then show ?case by simp
next
  case (Cons c s)
  then show ?case
    by (cases "split_on d s") (auto split: if_splits)
qed

lemma split_on_subset: "seg \<in> set (split_on d s) \<Longrightarrow> set seg \<subseteq> set s"
proof (induction s arbitrary: seg)
  case Nil
  then show ?case by simp
next
  case (Cons c s)
  then show ?case
    by (cases "split_on d s") (force split: if_splits)+
qed

lemma join_split [simp]: "join_on d (split_on d s) = s"
proof (induction s)
  case Nil
  then show ?case by simp
next
  case (Cons c s)
  obtain t ts where "split_on d s = t # ts"
    by (cases "split_on d s") auto
  with Cons show ?case by (cases ts) auto
qed

lemma split_join: "ss \<noteq> [] \<Longrightarrow> \<forall>seg\<in>set ss. d \<notin> set seg \<Longrightarrow> split_on d (join_on d ss) = ss"
  by (induction d ss rule: join_on.induct) (auto simp: split_on_no_sep split_on_append_sep)

text \<open>
  \<^verbatim>\<open>strings.CutPrefix\<close>, \<^verbatim>\<open>strings.TrimPrefix\<close>, \<^verbatim>\<open>strings.TrimRight\<close> for a one-byte
  cutset, \<^verbatim>\<open>strings.IndexByte\<close> and \<^verbatim>\<open>strings.LastIndexByte\<close> (Go's \<open>-1\<close> is \<open>None\<close>).
  \<^verbatim>\<open>strings.HasPrefix\<close> and \<^verbatim>\<open>strings.HasSuffix\<close> are the library's \<open>prefix\<close> and \<open>suffix\<close>.
\<close>

definition cut_prefix :: "'a list \<Rightarrow> 'a list \<Rightarrow> 'a list option" where
  "cut_prefix p s = (if prefix p s then Some (drop (length p) s) else None)"

definition trim_prefix :: "'a list \<Rightarrow> 'a list \<Rightarrow> 'a list" where
  "trim_prefix p s = (if prefix p s then drop (length p) s else s)"

definition trim_right :: "'a \<Rightarrow> 'a list \<Rightarrow> 'a list" where
  "trim_right d s = rev (dropWhile (\<lambda>c. c = d) (rev s))"

fun index_byte :: "'a \<Rightarrow> 'a list \<Rightarrow> nat option" where
  "index_byte d [] = None"
| "index_byte d (c # cs) = (if c = d then Some 0 else map_option Suc (index_byte d cs))"

fun last_index_byte :: "'a \<Rightarrow> 'a list \<Rightarrow> nat option" where
  "last_index_byte d [] = None"
| "last_index_byte d (c # cs) =
     (case last_index_byte d cs of
        Some i \<Rightarrow> Some (Suc i)
      | None \<Rightarrow> if c = d then Some 0 else None)"

lemma prefix_singleton: "prefix [c] xs \<longleftrightarrow> xs \<noteq> [] \<and> hd xs = c"
  by (cases xs) auto

lemma suffix_singleton: "suffix [c] xs \<longleftrightarrow> xs \<noteq> [] \<and> last xs = c"
  by (cases xs rule: rev_cases) (auto simp: suffix_def)

lemma cut_prefix_Some_iff: "cut_prefix p s = Some r \<longleftrightarrow> s = p @ r"
  by (auto simp: cut_prefix_def prefix_def)

lemma index_byte_None_iff [simp]: "index_byte d s = None \<longleftrightarrow> d \<notin> set s"
  by (induction s) auto

lemma last_index_byte_None_iff [simp]: "last_index_byte d s = None \<longleftrightarrow> d \<notin> set s"
  by (induction s) (auto split: option.splits)

lemma last_index_byte_app:
  "d \<notin> set t \<Longrightarrow> last_index_byte d (s @ d # t) = Some (length s)"
  by (induction s) (auto split: option.splits)

lemma index_byte_app: "d \<notin> set s \<Longrightarrow> index_byte d (s @ d # t) = Some (length s)"
  by (induction s) auto

lemma trim_right_decomp:
  obtains n where "s = trim_right d s @ replicate n d"
proof -
  let ?t = "takeWhile (\<lambda>c. c = d) (rev s)"
  have "rev s = ?t @ dropWhile (\<lambda>c. c = d) (rev s)" by simp
  then have "s = trim_right d s @ rev ?t"
    unfolding trim_right_def by (metis rev_append rev_rev_ident)
  moreover have "rev ?t = replicate (length ?t) d"
    by (intro replicate_eqI) (auto dest: set_takeWhileD)
  ultimately show thesis using that by metis
qed

lemma trim_right_subset: "set (trim_right d s) \<subseteq> set s"
  by (auto simp: trim_right_def dest: set_dropWhileD)

lemma trim_right_last: "trim_right d s \<noteq> [] \<Longrightarrow> last (trim_right d s) \<noteq> d"
  unfolding trim_right_def
  by (metis (mono_tags, lifting) hd_dropWhile last_rev rev_is_Nil_conv)

section \<open>Unsigned 64-bit arithmetic\<close>

text \<open>\<^verbatim>\<open>uint64(len(s))\<close>, and the saturating operations of \<^verbatim>\<open>mountfs\<close>.\<close>

definition golen :: "'a list \<Rightarrow> u64" where
  "golen xs = of_nat (length xs)"

text \<open>
  \<^verbatim>\<open>satAdd\<close> and \<^verbatim>\<open>satMul\<close> of \<^verbatim>\<open>mountfs/host.go\<close>, \<^verbatim>\<open>satSub\<close> of
  \<^verbatim>\<open>mountfs/overlay_state.go\<close>: the sum wraps first and the wrapped sum is compared.
\<close>

definition satAdd :: "u64 \<Rightarrow> u64 \<Rightarrow> u64" where
  "satAdd a b = (if a \<le> a + b then a + b else - 1)"

definition satSub :: "u64 \<Rightarrow> u64 \<Rightarrow> u64" where
  "satSub a b = (if a < b then 0 else a - b)"

definition satMul :: "u64 \<Rightarrow> u64 \<Rightarrow> u64" where
  "satMul a b = (if a \<noteq> 0 \<and> (- 1) div a < b then - 1 else a * b)"

lemma unat_max_u64 [simp]: "unat (- 1 :: u64) = 2 ^ 64 - 1"
  by (simp add: unsigned_minus_1_eq_mask mask_eq_exp_minus_1)

lemma unat_satAdd: "unat (satAdd a b) = min (unat a + unat b) (2 ^ 64 - 1)"
proof (cases "unat a + unat b < 2 ^ 64")
  case True
  then have "unat (a + b) = unat a + unat b"
    by (simp add: unat_word_ariths)
  with True show ?thesis
    by (simp add: satAdd_def word_le_nat_alt)
next
  case False
  have a: "unat a < 2 ^ 64" and b: "unat b < 2 ^ 64"
    using unsigned_less [of a, where ?'a = nat] unsigned_less [of b, where ?'a = nat] by simp_all
  with False have "unat (a + b) = unat a + unat b - 2 ^ 64"
    by (simp add: unat_word_ariths mod_if)
  with False a b show ?thesis
    by (simp add: satAdd_def word_le_nat_alt)
qed

lemma unat_satSub: "unat (satSub a b) = unat a - unat b"
  by (simp add: satSub_def word_less_nat_alt unat_sub word_le_nat_alt)

lemma unat_satMul: "unat (satMul a b) = min (unat a * unat b) (2 ^ 64 - 1)"
proof (cases "a = 0")
  case True
  then show ?thesis by (simp add: satMul_def)
next
  case False
  then have pos: "0 < unat a" by (simp add: unat_gt_0)
  have guard: "(- 1) div a < b \<longleftrightarrow> 2 ^ 64 - 1 < unat a * unat b"
  proof -
    have "(- 1) div a < b \<longleftrightarrow> (2 ^ 64 - 1) div unat a < unat b"
      by (simp add: word_less_nat_alt unat_div)
    also have "\<dots> \<longleftrightarrow> 2 ^ 64 - 1 < unat b * unat a"
      using div_less_iff_less_mult [OF pos] by blast
    finally show ?thesis by (simp add: mult.commute)
  qed
  show ?thesis
  proof (cases "2 ^ 64 - 1 < unat a * unat b")
    case True
    with False guard show ?thesis by (simp add: satMul_def)
  next
    case bound: False
    then have "unat (a * b) = unat a * unat b"
      by (simp add: unat_word_ariths)
    with bound False guard show ?thesis by (simp add: satMul_def)
  qed
qed

text \<open>
  Signed arithmetic: \<open>wrap n\<close> reads an integer as an \<open>n\<close>-bit two's complement value, and
  \<open>go_div\<close>, \<open>go_mod\<close> are Go's \<^verbatim>\<open>/\<close> and \<^verbatim>\<open>%\<close>, which truncate towards zero.
\<close>

definition wrap :: "nat \<Rightarrow> int \<Rightarrow> int" where
  "wrap n x = (x + 2 ^ (n - 1)) mod 2 ^ n - 2 ^ (n - 1)"

definition go_div :: "int \<Rightarrow> int \<Rightarrow> int" where
  "go_div a b = sgn a * sgn b * (\<bar>a\<bar> div \<bar>b\<bar>)"

definition go_mod :: "int \<Rightarrow> int \<Rightarrow> int" where
  "go_mod a b = a - b * go_div a b"

lemma wrap_id: "- (2 ^ (n - 1)) \<le> x \<Longrightarrow> x < 2 ^ (n - 1) \<Longrightarrow> 0 < n \<Longrightarrow> wrap n x = x"
  by (cases n) (simp_all add: wrap_def)

lemma wrap_range: "0 < n \<Longrightarrow> - (2 ^ (n - 1)) \<le> wrap n x \<and> wrap n x < 2 ^ (n - 1)"
proof -
  assume "0 < n"
  then obtain m where n: "n = Suc m" by (cases n) auto
  have "(x + 2 ^ m) mod (2 * 2 ^ m) < 2 * 2 ^ m" and "0 \<le> (x + 2 ^ m) mod (2 * 2 ^ m)"
    by simp_all
  then show ?thesis by (simp add: n wrap_def)
qed

text \<open>The saturated operations agree with the exact ones below the ceiling.\<close>

lemma satAdd_exact: "satAdd a b \<le> c \<Longrightarrow> c < - 1 \<Longrightarrow> unat (satAdd a b) = unat a + unat b"
  using unat_satAdd [of a b]
  by (auto simp: word_le_nat_alt word_less_nat_alt)

lemma satAdd_exact_fits: "unat a + unat b < 2 ^ 64 \<Longrightarrow> unat (satAdd a b) = unat a + unat b"
  by (simp add: unat_satAdd)

end
