(* ===== verification/VPath.thy ===== *)
theory VPath
  imports Prelude
begin

text \<open>
  Virtual paths, working directories and open modes: \<^verbatim>\<open>internal/value/vpath.go\<close> and
  \<^verbatim>\<open>internal/value/filemode.go\<close>. The normalisation loop is compared with a reference
  that keeps a stack of segments.
\<close>

section \<open>Virtual paths\<close>

text \<open>One iteration of the loop of \<^verbatim>\<open>NormalizeVirtualPath\<close> over the output buffer.\<close>

definition normalizeStep :: "string \<Rightarrow> string \<Rightarrow> string" where
  "normalizeStep out seg =
     (if seg = '''' \<or> seg = ''.'' then out
      else if seg = ''..'' then
        (case last_index_byte CHR ''/'' out of
           None \<Rightarrow> take 0 out
         | Some i \<Rightarrow> take i out)
      else out @ ''/'' @ seg)"

definition isNormalizedVirtualPath :: "string \<Rightarrow> bool" where
  "isNormalizedVirtualPath path =
     (if path = ''/'' then True
      else if \<not> prefix ''/'' path \<or> suffix ''/'' path then False
      else list_all (\<lambda>seg. \<not> (seg = '''' \<or> seg = ''.'' \<or> seg = ''..''))
             (split_on CHR ''/'' (drop 1 path)))"

definition NormalizeVirtualPath :: "string \<Rightarrow> string" where
  "NormalizeVirtualPath path =
     (if isNormalizedVirtualPath path then path
      else let out = foldl normalizeStep '''' (split_on CHR ''/'' path)
           in if out = '''' then ''/'' else out)"

text \<open>
  The errors of \<^verbatim>\<open>ValidateCwd\<close>; each carries the directory that its message renders
  with \<^verbatim>\<open>RustDebugString\<close>.
\<close>

datatype cwd_error = CwdHasNul string | CwdNotAbsolute string

definition ValidateCwd :: "string \<Rightarrow> cwd_error + string" where
  "ValidateCwd cwd =
     (if CHR 0x00 \<in> set cwd then Inl (CwdHasNul cwd)
      else if \<not> prefix ''/'' cwd then Inl (CwdNotAbsolute cwd)
      else let trimmed = trim_right CHR ''/'' cwd
           in if trimmed = '''' then Inr ''/'' else Inr trimmed)"

subsection \<open>The reference: a stack of segments\<close>

text \<open>A segment that stands for a name: neither empty, nor \<open>.\<close>, nor \<open>..\<close>, and without a slash.\<close>

definition name_seg :: "string \<Rightarrow> bool" where
  "name_seg seg \<longleftrightarrow> seg \<notin> {'''', ''.'', ''..''} \<and> CHR ''/'' \<notin> set seg"

definition stack_step :: "string list \<Rightarrow> string \<Rightarrow> string list" where
  "stack_step st seg =
     (if seg = '''' \<or> seg = ''.'' then st
      else if seg = ''..'' then butlast st
      else st @ [seg])"

definition render_abs :: "string list \<Rightarrow> string" where
  "render_abs st = concat (map (\<lambda>seg. CHR ''/'' # seg) st)"

definition path_segments :: "string \<Rightarrow> string list" where
  "path_segments path = foldl stack_step [] (split_on CHR ''/'' path)"

lemma render_abs_snoc: "render_abs (st @ [seg]) = render_abs st @ ''/'' @ seg"
  by (simp add: render_abs_def)

lemma render_abs_Nil_iff [simp]: "render_abs st = [] \<longleftrightarrow> st = []"
  by (cases st) (auto simp: render_abs_def)

lemma stack_step_name_segs:
  "list_all name_seg st \<Longrightarrow> CHR ''/'' \<notin> set seg \<Longrightarrow> list_all name_seg (stack_step st seg)"
  by (auto simp: stack_step_def name_seg_def list_all_iff dest: in_set_butlastD)

text \<open>Each iteration on the buffer is a step on the stack that the buffer renders.\<close>

lemma normalizeStep_render:
  assumes "list_all name_seg st"
  shows "normalizeStep (render_abs st) seg = render_abs (stack_step st seg)"
proof (cases "seg = ''..''")
  case True
  show ?thesis
  proof (cases st rule: rev_cases)
    case Nil
    with True show ?thesis
      by (simp add: normalizeStep_def stack_step_def render_abs_def)
  next
    case (snoc st' s)
    with assms have "CHR ''/'' \<notin> set s" by (simp add: name_seg_def)
    then have "last_index_byte CHR ''/'' (render_abs st) = Some (length (render_abs st'))"
      using last_index_byte_app [of "CHR ''/''" s "render_abs st'"]
      by (simp add: snoc render_abs_snoc)
    with True snoc show ?thesis
      by (simp add: normalizeStep_def stack_step_def render_abs_snoc)
  qed
next
  case False
  then show ?thesis
    by (simp add: normalizeStep_def stack_step_def render_abs_snoc)
qed

lemma foldl_normalizeStep:
  assumes "list_all name_seg st" and "\<forall>seg\<in>set segs. CHR ''/'' \<notin> set seg"
  shows "foldl normalizeStep (render_abs st) segs = render_abs (foldl stack_step st segs)
    \<and> list_all name_seg (foldl stack_step st segs)"
  using assms
  by (induction segs arbitrary: st) (simp_all add: normalizeStep_render stack_step_name_segs)

lemma path_segments_names: "list_all name_seg (path_segments path)"
  unfolding path_segments_def
  using foldl_normalizeStep [of "[]" "split_on CHR ''/'' path"]
  by (simp add: split_on_segments)

lemma foldl_normalizeStep_path:
  "foldl normalizeStep '''' (split_on CHR ''/'' path) = render_abs (path_segments path)"
  unfolding path_segments_def
  using foldl_normalizeStep [of "[]" "split_on CHR ''/'' path"]
  by (simp add: split_on_segments render_abs_def)

lemma foldl_stack_step_names:
  "list_all name_seg segs \<Longrightarrow> foldl stack_step st segs = st @ segs"
  by (induction segs arbitrary: st) (auto simp: stack_step_def name_seg_def)

lemma split_render_abs:
  assumes "list_all name_seg st" and "st \<noteq> []"
  shows "split_on CHR ''/'' (drop 1 (render_abs st)) = st"
    and "split_on CHR ''/'' (render_abs st) = '''' # st"
proof -
  have eq: "render_abs st = CHR ''/'' # join_on CHR ''/'' st"
    using \<open>st \<noteq> []\<close>
    by (induction "CHR ''/''" st rule: join_on.induct) (auto simp: render_abs_def)
  have "split_on CHR ''/'' (join_on CHR ''/'' st) = st"
    using assms by (intro split_join) (auto simp: name_seg_def list_all_iff)
  with eq show "split_on CHR ''/'' (drop 1 (render_abs st)) = st"
    and "split_on CHR ''/'' (render_abs st) = '''' # st"
    by simp_all
qed

lemma path_segments_render: "list_all name_seg st \<Longrightarrow> path_segments (render_abs st) = st"
proof (cases "st = []")
  case True
  then show ?thesis by (simp add: path_segments_def stack_step_def render_abs_def)
next
  case False
  assume names: "list_all name_seg st"
  with False have "split_on CHR ''/'' (render_abs st) = [] # st"
    by (intro split_render_abs)
  with names show ?thesis
    by (simp add: path_segments_def foldl_stack_step_names stack_step_def)
qed

lemma path_segments_root [simp]: "path_segments ''/'' = []"
  by (simp add: path_segments_def stack_step_def)

text \<open>The paths that the fast path accepts are the rendered stacks, and the root.\<close>

lemma isNormalized_render:
  assumes "list_all name_seg st" and "st \<noteq> []"
  shows "isNormalizedVirtualPath (render_abs st)"
proof -
  obtain st' s where st: "st = st' @ [s]" using \<open>st \<noteq> []\<close> by (cases st rule: rev_cases) auto
  with assms(1) have s: "name_seg s" by simp
  then have ne: "s \<noteq> []" by (simp add: name_seg_def)
  then have "last (render_abs st) \<in> set s"
    by (simp add: st render_abs_snoc)
  with s have "last (render_abs st) \<noteq> CHR ''/''" by (auto simp: name_seg_def)
  moreover have "render_abs st \<noteq> []" using \<open>st \<noteq> []\<close> by simp
  ultimately have "\<not> suffix ''/'' (render_abs st)"
    by (auto simp: suffix_def)
  moreover have "prefix ''/'' (render_abs st)"
    using \<open>st \<noteq> []\<close> by (cases st) (simp_all add: render_abs_def)
  moreover have "list_all (\<lambda>seg. \<not> (seg = '''' \<or> seg = ''.'' \<or> seg = ''..''))
      (split_on CHR ''/'' (drop 1 (render_abs st)))"
    unfolding split_render_abs(1) [OF assms]
    using assms(1) by (simp add: name_seg_def list_all_iff)
  ultimately show ?thesis
    by (simp add: isNormalizedVirtualPath_def)
qed

lemma isNormalized_segments:
  assumes "isNormalizedVirtualPath path" and "path \<noteq> ''/''"
  obtains st where "list_all name_seg st" and "st \<noteq> []" and "path = render_abs st"
proof -
  let ?st = "split_on CHR ''/'' (drop 1 path)"
  from assms obtain rest where path: "path = CHR ''/'' # rest"
    by (cases path) (auto simp: isNormalizedVirtualPath_def split: if_splits)
  from assms have "list_all name_seg ?st"
    by (auto simp: isNormalizedVirtualPath_def name_seg_def list_all_iff split_on_segments
        split: if_splits)
  moreover have "?st \<noteq> []" by simp
  moreover have "path = render_abs ?st"
  proof -
    have "ss \<noteq> [] \<Longrightarrow> render_abs ss = CHR ''/'' # join_on CHR ''/'' ss" for ss
      by (induction "CHR ''/''" ss rule: join_on.induct) (auto simp: render_abs_def)
    from this [of ?st] show ?thesis by (simp add: path)
  qed
  ultimately show thesis by (rule that)
qed

lemma NormalizeVirtualPath_segments:
  "NormalizeVirtualPath path =
     (if path_segments path = [] then ''/'' else render_abs (path_segments path))"
proof (cases "isNormalizedVirtualPath path \<and> path \<noteq> ''/''")
  case True
  then obtain st where "list_all name_seg st" and "st \<noteq> []" and "path = render_abs st"
    using isNormalized_segments by blast
  with True show ?thesis
    by (simp add: NormalizeVirtualPath_def path_segments_render)
next
  case False
  then show ?thesis
    by (auto simp: NormalizeVirtualPath_def foldl_normalizeStep_path Let_def)
qed

lemma path_segments_Normalize [simp]:
  "path_segments (NormalizeVirtualPath path) = path_segments path"
  using path_segments_names [of path]
  by (simp add: NormalizeVirtualPath_segments path_segments_render)

lemma isNormalized_Normalize: "isNormalizedVirtualPath (NormalizeVirtualPath path)"
  using path_segments_names [of path]
  by (auto simp: NormalizeVirtualPath_segments isNormalized_render)
    (simp add: isNormalizedVirtualPath_def)

lemma Normalize_idem [simp]:
  "NormalizeVirtualPath (NormalizeVirtualPath path) = NormalizeVirtualPath path"
  using isNormalized_Normalize [of path] by (simp add: NormalizeVirtualPath_def)

lemma Normalize_absolute: "\<exists>rest. NormalizeVirtualPath path = CHR ''/'' # rest"
  by (cases "path_segments path") (auto simp: NormalizeVirtualPath_segments render_abs_def)

section \<open>Open modes\<close>

text \<open>
  The errors of \<^verbatim>\<open>CanonicalFileMode\<close>, in the order of its branches. \<open>ModeInvalid\<close> carries
  the part of the mode that starts at the offending rune, which the message renders with
  \<^verbatim>\<open>RustDebugChar\<close>.
\<close>

datatype mode_error =
    ModeManyActions
  | ModeExclusive
  | ModeBinaryTwice
  | ModeTextTwice
  | ModeUpdate
  | ModeInvalid string
  | ModeTextAndBinary
  | ModeNoAction

text \<open>
  The scan: \<open>action\<close> is \<open>None\<close> for Go's zero rune. A rune outside ASCII starts with a byte
  outside ASCII, so scanning bytes stops at the same place.
\<close>

fun scanFileMode :: "string \<Rightarrow> char option \<Rightarrow> bool \<Rightarrow> bool \<Rightarrow> mode_error + char option \<times> bool \<times> bool" where
  "scanFileMode [] action binary textual = Inr (action, binary, textual)"
| "scanFileMode (ch # rest) action binary textual =
     (if ch \<in> set ''rwa'' then
        (if action \<noteq> None then Inl ModeManyActions
         else scanFileMode rest (Some ch) binary textual)
      else if ch = CHR ''x'' then Inl ModeExclusive
      else if ch = CHR ''b'' then
        (if binary then Inl ModeBinaryTwice else scanFileMode rest action True textual)
      else if ch = CHR ''t'' then
        (if textual then Inl ModeTextTwice else scanFileMode rest action binary True)
      else if ch = CHR ''+'' then Inl ModeUpdate
      else Inl (ModeInvalid (ch # rest)))"

definition CanonicalFileMode :: "string \<Rightarrow> mode_error + string" where
  "CanonicalFileMode mode =
     (case scanFileMode mode None False False of
        Inl e \<Rightarrow> Inl e
      | Inr (action, binary, textual) \<Rightarrow>
          if binary \<and> textual then Inl ModeTextAndBinary
          else case action of
                 None \<Rightarrow> Inl ModeNoAction
               | Some a \<Rightarrow> if binary then Inr ([a] @ ''b'') else Inr [a])"

definition ModeCreates :: "string \<Rightarrow> bool" where
  "ModeCreates mode =
     (0 < length mode \<and> (mode ! 0 = CHR ''w'' \<or> mode ! 0 = CHR ''a''))"

text \<open>What the scan accepts: every flag at most once and one action, in any order.\<close>

definition actions :: "string \<Rightarrow> string" where
  "actions mode = filter (\<lambda>c. c \<in> set ''rwa'') mode"

lemma actions_Cons:
  "actions (ch # rest) = (if ch \<in> set ''rwa'' then ch # actions rest else actions rest)"
  by (simp add: actions_def)

lemma scanFileMode_Inr_iff:
  "scanFileMode mode action binary textual = Inr (action', binary', textual') \<longleftrightarrow>
     set mode \<subseteq> set ''rwabt''
     \<and> count_list mode CHR ''b'' \<le> of_bool (\<not> binary)
     \<and> count_list mode CHR ''t'' \<le> of_bool (\<not> textual)
     \<and> (case action of
          None \<Rightarrow> (case action' of None \<Rightarrow> actions mode = [] | Some a \<Rightarrow> actions mode = [a])
        | Some a \<Rightarrow> action' = Some a \<and> actions mode = [])
     \<and> binary' = (binary \<or> CHR ''b'' \<in> set mode)
     \<and> textual' = (textual \<or> CHR ''t'' \<in> set mode)"
proof (induction mode action binary textual rule: scanFileMode.induct)
  case (1 action binary textual)
  show ?case by (cases action'; cases action) (auto simp: actions_def)
next
  case (2 ch rest action binary textual)
  consider (action) "ch \<in> set ''rwa''" "ch \<noteq> CHR ''b''" "ch \<noteq> CHR ''t''"
    | (b) "ch = CHR ''b''" | (t) "ch = CHR ''t''"
    | (bad) "ch \<notin> set ''rwabt''"
    by fastforce
  then show ?case
  proof cases
    case action
    then show ?thesis
      using "2.IH"(1) by (cases action'; cases action) (simp_all add: actions_Cons, auto)
  next
    case b
    then show ?thesis
      using "2.IH"(2) by (cases binary; cases textual; cases action; cases action') (simp_all add: actions_Cons count_list_0_iff)
  next
    case t
    then show ?thesis
      using "2.IH"(3) by (cases binary; cases textual; cases action; cases action') (simp_all add: actions_Cons count_list_0_iff)
  next
    case bad
    then show ?thesis by simp
  qed
qed

lemma scanFileMode_error:
  "scanFileMode mode action binary textual = Inl e \<Longrightarrow> e \<noteq> ModeTextAndBinary \<and> e \<noteq> ModeNoAction"
  by (induction mode action binary textual rule: scanFileMode.induct) (auto split: if_splits)

section \<open>Properties\<close>

text \<open>
  C27. The string-buffer loop of \<^verbatim>\<open>NormalizeVirtualPath\<close>, with its fast path, computes
  what a stack of path segments computes: \<open>.\<close> and empty segments are dropped, \<open>..\<close> pops one
  name and never climbs above the root, and the result is the absolute path of the names left,
  none of which is empty, \<open>.\<close>, \<open>..\<close> or contains a slash.
\<close>

theorem NormalizeVirtualPath_stack:
  "NormalizeVirtualPath path =
     (if path_segments path = [] then ''/'' else render_abs (path_segments path))
   \<and> list_all name_seg (path_segments path)"
  by (simp add: NormalizeVirtualPath_segments path_segments_names)

text \<open>
  \<^verbatim>\<open>NormalizeVirtualPath\<close> returns a path that its own fast path accepts, so it is
  idempotent, and two paths normalise alike exactly when they lead to the same segments.
\<close>

theorem NormalizeVirtualPath_canonical:
  "isNormalizedVirtualPath (NormalizeVirtualPath path)
   \<and> NormalizeVirtualPath (NormalizeVirtualPath path) = NormalizeVirtualPath path
   \<and> (NormalizeVirtualPath path = NormalizeVirtualPath path'
        \<longleftrightarrow> path_segments path = path_segments path')"
proof (intro conjI)
  show "NormalizeVirtualPath path = NormalizeVirtualPath path'
      \<longleftrightarrow> path_segments path = path_segments path'"
  proof
    assume "NormalizeVirtualPath path = NormalizeVirtualPath path'"
    then have "path_segments (NormalizeVirtualPath path) = path_segments (NormalizeVirtualPath path')"
      by simp
    then show "path_segments path = path_segments path'" by simp
  qed (simp add: NormalizeVirtualPath_segments)
qed (simp_all add: isNormalized_Normalize)

lemma foldl_stack_step_slashes:
  "foldl stack_step st (split_on CHR ''/'' (s @ replicate n CHR ''/'')) =
     foldl stack_step st (split_on CHR ''/'' s)"
proof -
  have tail: "\<exists>k. split_on CHR ''/'' (s @ replicate n CHR ''/'') =
      split_on CHR ''/'' s @ replicate k []"
  proof (induction s)
    case Nil
    show ?case
    proof (induction n)
      case (Suc n)
      then obtain k where "split_on CHR ''/'' (replicate n CHR ''/'') = [] # replicate k []"
        by auto
      then show ?case by (auto simp: replicate_append_same intro!: exI [of _ "Suc k"])
    qed (auto intro: exI [of _ 0])
  next
    case (Cons c s)
    then obtain k where k: "split_on CHR ''/'' (s @ replicate n CHR ''/'') =
      split_on CHR ''/'' s @ replicate k []" by blast
    obtain t ts where "split_on CHR ''/'' s = t # ts"
      by (cases "split_on CHR ''/'' s") auto
    with k show ?case by auto
  qed
  moreover have "foldl stack_step st' (replicate k []) = st'" for st' k
    by (induction k) (simp_all add: stack_step_def)
  ultimately show ?thesis by auto
qed

text \<open>
  A working directory that \<^verbatim>\<open>ValidateCwd\<close> accepts is absolute, holds no NUL byte,
  ends in no slash unless it is the root, denotes the same virtual path as the directory given,
  and is accepted unchanged when validated again.
\<close>

theorem ValidateCwd_accepts:
  assumes "ValidateCwd cwd = Inr dir"
  shows "prefix ''/'' dir \<and> CHR 0x00 \<notin> set dir \<and> (dir = ''/'' \<or> \<not> suffix ''/'' dir)
    \<and> NormalizeVirtualPath dir = NormalizeVirtualPath cwd \<and> ValidateCwd dir = Inr dir"
proof -
  obtain n where n: "cwd = trim_right CHR ''/'' cwd @ replicate n CHR ''/''"
    by (rule trim_right_decomp)
  let ?t = "trim_right CHR ''/'' cwd"
  have segs: "path_segments cwd = path_segments ?t"
    unfolding path_segments_def by (subst n) (rule foldl_stack_step_slashes)
  show ?thesis
  proof (cases "?t = []")
    case True
    with assms have "dir = ''/''" by (auto simp: ValidateCwd_def split: if_splits)
    moreover from True segs have "path_segments cwd = []"
      by (simp add: path_segments_def stack_step_def)
    moreover have "ValidateCwd ''/'' = Inr ''/''"
      by (simp add: ValidateCwd_def trim_right_def)
    ultimately show ?thesis
      by (simp add: NormalizeVirtualPath_segments)
  next
    case False
    with assms have dir: "dir = ?t" and nul: "CHR 0x00 \<notin> set cwd" and abs: "prefix ''/'' cwd"
      by (auto simp: ValidateCwd_def split: if_splits)
    from nul have nul': "CHR 0x00 \<notin> set dir"
      using trim_right_subset [of "CHR ''/''" cwd] by (auto simp: dir)
    from False have last: "last dir \<noteq> CHR ''/''"
      unfolding dir by (rule trim_right_last)
    then have suf: "\<not> suffix ''/'' dir" by (simp add: suffix_singleton)
    have "hd cwd = hd ?t"
      using False n by (metis hd_append2)
    with abs False have pre: "prefix ''/'' dir"
      by (simp add: dir prefix_singleton)
    have "trim_right CHR ''/'' dir = dir"
    proof -
      have "dir \<noteq> []" using False dir by simp
      then obtain cs c where "dir = cs @ [c]" by (cases dir rule: rev_cases) auto
      with last show ?thesis by (simp add: trim_right_def)
    qed
    with nul' pre False dir have "ValidateCwd dir = Inr dir"
      by (simp add: ValidateCwd_def)
    with pre nul' suf segs dir show ?thesis
      by (simp add: NormalizeVirtualPath_segments)
  qed
qed

theorem ValidateCwd_accepts_witness:
  "ValidateCwd ''/data//'' = Inr ''/data'' \<and> \<not> suffix ''/'' ''/data''
   \<and> NormalizeVirtualPath ''/data'' = NormalizeVirtualPath ''/data//''"
proof -
  have h: "ValidateCwd ''/data//'' = Inr ''/data''" by code_simp
  show ?thesis using h ValidateCwd_accepts [OF h] by auto
qed

text \<open>
  \<^verbatim>\<open>CanonicalFileMode\<close> accepts exactly the modes made of one action letter and at most
  one of the flags \<open>b\<close> and \<open>t\<close>, in any order, and returns the action followed by \<open>b\<close> for a
  binary mode; so its result is one of \<open>r\<close>, \<open>rb\<close>, \<open>w\<close>, \<open>wb\<close>, \<open>a\<close>, \<open>ab\<close>.
\<close>

theorem CanonicalFileMode_iff:
  "CanonicalFileMode mode = Inr m \<longleftrightarrow>
     set mode \<subseteq> set ''rwabt''
     \<and> count_list mode CHR ''b'' + count_list mode CHR ''t'' \<le> 1
     \<and> (\<exists>a. actions mode = [a] \<and> m = (if CHR ''b'' \<in> set mode then [a, CHR ''b''] else [a]))"
proof (cases "scanFileMode mode None False False")
  case (Inl e)
  then have "scanFileMode mode None False False
      \<noteq> Inr (Some a, CHR ''b'' \<in> set mode, CHR ''t'' \<in> set mode)" for a
    by simp
  then have "\<not> (set mode \<subseteq> set ''rwabt''
      \<and> count_list mode CHR ''b'' \<le> 1 \<and> count_list mode CHR ''t'' \<le> 1
      \<and> actions mode = [a])" for a
    unfolding scanFileMode_Inr_iff by simp
  moreover have "CanonicalFileMode mode \<noteq> Inr m"
    using Inl by (simp add: CanonicalFileMode_def)
  ultimately show ?thesis
    by (metis add_leD1 add_leD2)
next
  case (Inr r)
  obtain a b t where r: "r = (a, b, t)" by (cases r)
  from Inr r have scan: "scanFileMode mode None False False = Inr (a, b, t)" by simp
  let ?cb = "count_list mode CHR ''b''" and ?ct = "count_list mode CHR ''t''"
  have b: "b \<longleftrightarrow> ?cb \<noteq> 0" and t: "t \<longleftrightarrow> ?ct \<noteq> 0" and le: "?cb \<le> 1" "?ct \<le> 1"
    and sub: "set mode \<subseteq> set ''rwabt''"
    and act: "actions mode = (case a of None \<Rightarrow> [] | Some c \<Rightarrow> [c])"
    and mem: "CHR ''b'' \<in> set mode \<longleftrightarrow> b"
    using scan [unfolded scanFileMode_Inr_iff]
    by (simp_all add: count_list_0_iff split: option.splits)
  have "b \<and> t \<longleftrightarrow> \<not> ?cb + ?ct \<le> 1" using b t le by linarith
  then show ?thesis
    using sub by (cases a) (auto simp: CanonicalFileMode_def scan act mem)
qed

end
