(* ===== verification/Utf8.thy ===== *)
theory Utf8
  imports Prelude
begin

text \<open>
  UTF-8 validation: \<^verbatim>\<open>internal/mountfs/utf8.go\<close>. The checker is proved equivalent to
  the definition of UTF-8 as the concatenation of encoded Unicode scalar values, and the lossy
  conversion is proved to return well-formed text.
\<close>

unbundle bit_operations_syntax

section \<open>The checker\<close>

definition cont :: "byte \<Rightarrow> bool" where
  "cont b \<longleftrightarrow> b AND 0xC0 = 0x80"

definition utf8CharWidth :: "byte \<Rightarrow> nat" where
  "utf8CharWidth b =
     (if b < 0x80 then 1
      else if b < 0xC2 then 0
      else if b < 0xE0 then 2
      else if b < 0xF0 then 3
      else if b < 0xF5 then 4
      else 0)"

text \<open>The range of the second byte after a three-byte and a four-byte lead.\<close>

definition valid3 :: "byte \<Rightarrow> byte \<Rightarrow> bool" where
  "valid3 first s \<longleftrightarrow>
     first = 0xE0 \<and> 0xA0 \<le> s \<and> s \<le> 0xBF
     \<or> 0xE1 \<le> first \<and> first \<le> 0xEC \<and> cont s
     \<or> first = 0xED \<and> 0x80 \<le> s \<and> s \<le> 0x9F
     \<or> 0xEE \<le> first \<and> first \<le> 0xEF \<and> cont s"

definition valid4 :: "byte \<Rightarrow> byte \<Rightarrow> bool" where
  "valid4 first s \<longleftrightarrow>
     first = 0xF0 \<and> 0x90 \<le> s \<and> s \<le> 0xBF
     \<or> 0xF1 \<le> first \<and> first \<le> 0xF3 \<and> cont s
     \<or> first = 0xF4 \<and> 0x80 \<le> s \<and> s \<le> 0x8F"

text \<open>
  The loop at index \<open>i\<close>, with the rest \<^verbatim>\<open>v[i:]\<close> of the input: reading past the end of the
  rest is the test \<^verbatim>\<open>i+k >= n\<close>.
\<close>

fun utf8Loop :: "nat \<Rightarrow> bytes \<Rightarrow> nat \<times> nat \<times> bool" where
  "utf8Loop i [] = (i, 0, True)"
| "utf8Loop i (first # v1) =
     (if first < 0x80 then utf8Loop (i + 1) v1
      else if utf8CharWidth first = 2 then
        (case v1 of
           [] \<Rightarrow> (i, 0, False)
         | s1 # v2 \<Rightarrow>
             if \<not> cont s1 then (i, 1, False) else utf8Loop (i + 2) v2)
      else if utf8CharWidth first = 3 then
        (case v1 of
           [] \<Rightarrow> (i, 0, False)
         | s1 # v2 \<Rightarrow>
             if \<not> valid3 first s1 then (i, 1, False)
             else case v2 of
                    [] \<Rightarrow> (i, 0, False)
                  | s2 # v3 \<Rightarrow>
                      if \<not> cont s2 then (i, 2, False) else utf8Loop (i + 3) v3)
      else if utf8CharWidth first = 4 then
        (case v1 of
           [] \<Rightarrow> (i, 0, False)
         | s1 # v2 \<Rightarrow>
             if \<not> valid4 first s1 then (i, 1, False)
             else case v2 of
                    [] \<Rightarrow> (i, 0, False)
                  | s2 # v3 \<Rightarrow>
                      if \<not> cont s2 then (i, 2, False)
                      else case v3 of
                             [] \<Rightarrow> (i, 0, False)
                           | s3 # v4 \<Rightarrow>
                               if \<not> cont s3 then (i, 3, False)
                               else utf8Loop (i + 4) v4)
      else (i, 1, False))"

definition utf8Check :: "bytes \<Rightarrow> nat \<times> nat \<times> bool" where
  "utf8Check v = utf8Loop 0 v"

definition utf8ErrorReason :: "byte \<Rightarrow> nat \<Rightarrow> string" where
  "utf8ErrorReason firstBad errorLen =
     (if errorLen = 0 then ''unexpected end of data''
      else if 0xC2 \<le> firstBad \<and> firstBad \<le> 0xF4 then ''invalid continuation byte''
      else ''invalid start byte'')"

section \<open>The reference: encoded scalar values\<close>

definition scalar_value :: "nat \<Rightarrow> bool" where
  "scalar_value c \<longleftrightarrow> c < 0xD800 \<or> 0xE000 \<le> c \<and> c < 0x110000"

definition utf8_encode :: "nat \<Rightarrow> bytes" where
  "utf8_encode c =
     (if c < 0x80 then [of_nat c]
      else if c < 0x800 then [of_nat (0xC0 + c div 64), of_nat (0x80 + c mod 64)]
      else if c < 0x10000 then
        [of_nat (0xE0 + c div 4096), of_nat (0x80 + c div 64 mod 64), of_nat (0x80 + c mod 64)]
      else
        [of_nat (0xF0 + c div 262144), of_nat (0x80 + c div 4096 mod 64),
         of_nat (0x80 + c div 64 mod 64), of_nat (0x80 + c mod 64)])"

inductive utf8_text :: "bytes \<Rightarrow> bool" where
  empty: "utf8_text []"
| char: "scalar_value c \<Longrightarrow> utf8_text v \<Longrightarrow> utf8_text (utf8_encode c @ v)"


lemma cont_iff: "cont b \<longleftrightarrow> 128 \<le> unat b \<and> unat b < 192"
proof -
  have "list_all (\<lambda>n. cont (of_nat n) \<longleftrightarrow> 128 \<le> n \<and> n < 192) [0..<256]"
    unfolding cont_def by code_simp
  then have "\<forall>n<256. cont (of_nat n :: byte) \<longleftrightarrow> 128 \<le> n \<and> n < 192"
    by (simp add: list_all_iff)
  moreover have "unat b < 256" using unsigned_less [of b, where ?'a = nat] by simp
  ultimately have "cont (of_nat (unat b)) \<longleftrightarrow> 128 \<le> unat b \<and> unat b < 192" by blast
  then show ?thesis by simp
qed

lemma byte_lt_256: "unat (b :: byte) < 256"
  using unsigned_less [of b, where ?'a = nat] by simp

lemma unat_byte_of_nat: "n < 256 \<Longrightarrow> unat (of_nat n :: byte) = n"
  by (simp add: unat_of_nat)

lemma byte_eq_of_nat: "n < 256 \<Longrightarrow> (of_nat n :: byte) = b \<longleftrightarrow> n = unat b"
  by (auto simp: word_unat_eq_iff unat_byte_of_nat)

text \<open>Conditions on bytes as conditions on numbers.\<close>

lemmas byte_nat = word_less_nat_alt word_le_nat_alt word_unat_eq_iff cont_iff

lemma width_iff:
  "utf8CharWidth b = 2 \<longleftrightarrow> 194 \<le> unat b \<and> unat b < 224"
  "utf8CharWidth b = 3 \<longleftrightarrow> 224 \<le> unat b \<and> unat b < 240"
  "utf8CharWidth b = 4 \<longleftrightarrow> 240 \<le> unat b \<and> unat b < 245"
  by (auto simp: utf8CharWidth_def byte_nat)

lemma valid3_iff:
  "valid3 a b \<longleftrightarrow> 128 \<le> unat b \<and> unat b < 192 \<and> 224 \<le> unat a \<and> unat a < 240
     \<and> (unat a = 224 \<longrightarrow> 160 \<le> unat b) \<and> (unat a = 237 \<longrightarrow> unat b < 160)"
  unfolding valid3_def byte_nat by simp linarith

lemma valid4_iff:
  "valid4 a b \<longleftrightarrow> 128 \<le> unat b \<and> unat b < 192 \<and> 240 \<le> unat a \<and> unat a < 245
     \<and> (unat a = 240 \<longrightarrow> 144 \<le> unat b) \<and> (unat a = 244 \<longrightarrow> unat b < 144)"
  unfolding valid4_def byte_nat by simp linarith

text \<open>Each accepted sequence is an encoded scalar value.\<close>

lemma encode_1: "a < 0x80 \<Longrightarrow> \<exists>c. scalar_value c \<and> utf8_encode c = [a]"
  by (rule exI [of _ "unat a"]) (simp add: scalar_value_def utf8_encode_def byte_nat)

lemma encode_2:
  assumes "utf8CharWidth a = 2" and "cont b"
  shows "\<exists>c. scalar_value c \<and> utf8_encode c = [a, b]"
proof -
  define x y where "x = unat a - 192" and "y = unat b - 128"
  with assms have x: "unat a = 192 + x" "2 \<le> x" "x < 32" and y: "unat b = 128 + y" "y < 64"
    unfolding width_iff cont_iff by linarith+
  let ?c = "64 * x + y"
  have "?c div 64 = x" "?c mod 64 = y" "128 \<le> ?c" "?c < 2048" using x y by auto
  then show ?thesis
    using x y by (intro exI [of _ ?c]) (simp add: scalar_value_def utf8_encode_def byte_eq_of_nat del: of_nat_add distrib_left_numeral)
qed

lemma div_4096: "(c::nat) div 4096 = c div 64 div 64"
  by (simp add: div_mult2_eq [symmetric])

lemma div_262144: "(c::nat) div 262144 = c div 64 div 64 div 64"
  by (simp add: div_mult2_eq [symmetric])

lemma divmod_64:
  "z < 64 \<Longrightarrow> (64 * k + z) div 64 = (k::nat)"
  "z < 64 \<Longrightarrow> (64 * k + z) mod 64 = (z::nat)"
  by simp_all

lemma Suc_3: "Suc (Suc (Suc i)) = i + 3" and Suc_4: "Suc (i + 3) = i + 4"
  by simp_all

lemma encode_3:
  assumes "utf8CharWidth a = 3" and "valid3 a b" and "cont d"
  shows "\<exists>c. scalar_value c \<and> utf8_encode c = [a, b, d]"
proof -
  define x y z where "x = unat a - 224" and "y = unat b - 128" and "z = unat d - 128"
  with assms have x: "unat a = 224 + x" "x < 16" and y: "unat b = 128 + y" "y < 64"
    and z: "unat d = 128 + z" "z < 64"
    unfolding width_iff valid3_iff cont_iff by linarith+
  have lo: "x = 0 \<longrightarrow> 32 \<le> y" and sur: "x = 13 \<longrightarrow> y < 32"
    using assms(2) x y unfolding valid3_iff by auto
  let ?c = "64 * (64 * x + y) + z"
  have q: "?c div 64 = 64 * x + y" "?c mod 64 = z" "?c div 4096 = x"
    using y(2) z(2) by (simp_all add: div_4096 divmod_64 del: distrib_left_numeral)
  have "(64 * x + y) mod 64 = y" using y by simp
  moreover have "2048 \<le> ?c" using lo by (cases "x = 0") auto
  moreover from this have "\<not> ?c < 2048" by linarith
  moreover have "?c < 65536" using x(2) y(2) z(2) by auto
  moreover have "scalar_value ?c"
    using sur x y z unfolding scalar_value_def by (cases "x < 13"; cases "x = 13") auto
  ultimately show ?thesis
    using q x y z by (intro exI [of _ ?c]) (simp add: utf8_encode_def byte_eq_of_nat del: of_nat_add distrib_left_numeral)
qed

lemma encode_4:
  assumes "utf8CharWidth a = 4" and "valid4 a b" and "cont d" and "cont e"
  shows "\<exists>c. scalar_value c \<and> utf8_encode c = [a, b, d, e]"
proof -
  define x y z w where "x = unat a - 240" and "y = unat b - 128" and "z = unat d - 128"
    and "w = unat e - 128"
  with assms have x: "unat a = 240 + x" "x < 5" and y: "unat b = 128 + y" "y < 64"
    and z: "unat d = 128 + z" "z < 64" and w: "unat e = 128 + w" "w < 64"
    unfolding width_iff valid4_iff cont_iff by linarith+
  have lo: "x = 0 \<longrightarrow> 16 \<le> y" and hi: "x = 4 \<longrightarrow> y < 16"
    using assms(2) x y unfolding valid4_iff by auto
  let ?c = "64 * (64 * (64 * x + y) + z) + w"
  have q: "?c div 64 = 64 * (64 * x + y) + z" "?c mod 64 = w" "?c div 4096 = 64 * x + y"
    "?c div 262144 = x"
    using y(2) z(2) w(2)
    by (simp_all add: div_4096 div_262144 divmod_64 del: distrib_left_numeral)
  have "(64 * x + y) mod 64 = y" "(64 * (64 * x + y) + z) mod 64 = z"
    using y z by (simp_all add: divmod_64 del: distrib_left_numeral)
  moreover have low: "65536 \<le> ?c" using lo by (cases "x = 0") auto
  moreover from this have "\<not> ?c < 65536" "\<not> ?c < 2048" "\<not> ?c < 128" by linarith+
  moreover have "?c < 1114112" using hi x y z w by (cases "x = 4") auto
  with low have "scalar_value ?c" unfolding scalar_value_def by linarith
  ultimately show ?thesis
    using q x y z w by (intro exI [of _ ?c]) (simp add: utf8_encode_def byte_eq_of_nat del: of_nat_add distrib_left_numeral)
qed

text \<open>Conversely the loop steps over every encoded scalar value.\<close>

lemma utf8Loop_encode:
  assumes "scalar_value c"
  shows "utf8Loop i (utf8_encode c @ v) = utf8Loop (i + length (utf8_encode c)) v"
proof -
  consider "c < 0x80" | "0x80 \<le> c" "c < 0x800" | "0x800 \<le> c" "c < 0x10000"
    | "0x10000 \<le> c" "c < 0x110000"
    using assms unfolding scalar_value_def by linarith
  then show ?thesis
  proof cases
    case 1
    then show ?thesis by (simp add: utf8_encode_def byte_nat unat_byte_of_nat)
  next
    case 2
    then have "c div 64 < 32" "2 \<le> c div 64" by auto
    with 2 show ?thesis
      by (simp add: utf8_encode_def byte_nat unat_byte_of_nat width_iff del: of_nat_add distrib_left_numeral)
  next
    case 3
    have a: "c div 4096 < 16" using 3 by auto
    have b: "c div 64 mod 64 < 64" "c mod 64 < 64" by auto
    have "c div 4096 = 0 \<longrightarrow> 32 \<le> c div 64 mod 64" using 3 by auto
    moreover have "c div 4096 = 13 \<longrightarrow> c div 64 mod 64 < 32"
    proof
      assume "c div 4096 = 13"
      then have 13: "c div 64 div 64 = 13" by (simp add: div_4096)
      then have "c < 55296"
        using assms unfolding scalar_value_def by auto
      then have "c div 64 < 864" by auto
      with 13 show "c div 64 mod 64 < 32"
        using div_mult_mod_eq [of "c div 64" 64] by linarith
    qed
    ultimately show ?thesis
      using 3 a b
      by (simp add: utf8_encode_def byte_nat unat_byte_of_nat width_iff valid3_iff Suc_3 del: of_nat_add distrib_left_numeral)
  next
    case 4
    have a: "c div 262144 < 5" using 4 by auto
    have b: "c div 4096 mod 64 < 64" "c div 64 mod 64 < 64" "c mod 64 < 64" by auto
    have "c div 262144 = 0 \<longrightarrow> 16 \<le> c div 4096 mod 64" using 4 by auto
    moreover have "c div 262144 = 4 \<longrightarrow> c div 4096 mod 64 < 16"
    proof
      assume "c div 262144 = 4"
      then have "c div 4096 div 64 = 4" by (simp add: div_4096 div_262144)
      moreover have "c div 4096 < 272" using 4 by auto
      ultimately show "c div 4096 mod 64 < 16"
        using div_mult_mod_eq [of "c div 4096" 64] by linarith
    qed
    ultimately show ?thesis
      using 4 a b
      by (simp add: utf8_encode_def byte_nat unat_byte_of_nat width_iff valid4_iff Suc_3 Suc_4 del: of_nat_add distrib_left_numeral)
  qed
qed

lemma utf8Loop_accepts: "utf8_text v \<Longrightarrow> utf8Loop i v = (i + length v, 0, True)"
  by (induction arbitrary: i rule: utf8_text.induct) (simp_all add: utf8Loop_encode)

lemma utf8_text_charI: "\<exists>c. scalar_value c \<and> utf8_encode c = w \<Longrightarrow> utf8_text v \<Longrightarrow> utf8_text (w @ v)"
  using utf8_text.char by blast

lemma utf8_text_append: "utf8_text v \<Longrightarrow> utf8_text w \<Longrightarrow> utf8_text (v @ w)"
  by (induction rule: utf8_text.induct) (auto intro: utf8_text.char)

text \<open>
  What the loop returns, for every input: the prefix up to the reported index is text, the
  reported error length stays within the input, and the input is text exactly when the flag says
  so.
\<close>

definition loop_post :: "nat \<Rightarrow> bytes \<Rightarrow> nat \<times> nat \<times> bool \<Rightarrow> bool" where
  "loop_post i v r \<longleftrightarrow>
     (case r of (n, l, ok) \<Rightarrow>
        i \<le> n \<and> n + l \<le> i + length v \<and> utf8_text (take (n - i) v)
        \<and> (if ok then n = i + length v \<and> l = 0 else n < i + length v \<and> l \<le> 3))"

lemma post_fail: "v \<noteq> [] \<Longrightarrow> l \<le> length v \<Longrightarrow> l \<le> 3 \<Longrightarrow> loop_post i v (i, l, False)"
  by (auto simp: loop_post_def intro: utf8_text.empty)

lemma post_step:
  assumes "loop_post (i + length w) v r" and "\<exists>c. scalar_value c \<and> utf8_encode c = w"
  shows "loop_post i (w @ v) r"
proof -
  obtain n l ok where r: "r = (n, l, ok)" by (cases r)
  with assms(1) have "i + length w \<le> n" by (simp add: loop_post_def)
  then have "take (n - i) (w @ v) = w @ take (n - (i + length w)) v"
    by (simp add: diff_diff_left)
  with assms r show ?thesis
    by (auto simp: loop_post_def utf8_text_charI split: if_splits)
qed

lemmas post_step_1 = post_step [of _ "[a]" for a, simplified, OF _ encode_1]
lemmas post_step_2 = post_step [of _ "[a, b]" for a b, simplified, OF _ encode_2]

lemma post_step_3:
  "loop_post (i + 3) v r \<Longrightarrow> utf8CharWidth a = 3 \<Longrightarrow> valid3 a b \<Longrightarrow> cont d \<Longrightarrow>
     loop_post i (a # b # d # v) r"
  using post_step [of i "[a, b, d]" v r] encode_3 [of a b d] by (simp add: Suc_3)

lemma post_step_4:
  "loop_post (i + 4) v r \<Longrightarrow> utf8CharWidth a = 4 \<Longrightarrow> valid4 a b \<Longrightarrow> cont d \<Longrightarrow> cont e \<Longrightarrow>
     loop_post i (a # b # d # e # v) r"
  using post_step [of i "[a, b, d, e]" v r] encode_4 [of a b d e] by (simp add: Suc_3 Suc_4)

lemma utf8Loop_post: "loop_post i v (utf8Loop i v)"
proof (induction i v rule: utf8Loop.induct)
  case (1 i)
  then show ?case by (simp add: loop_post_def utf8_text.empty)
next
  case (2 i first v1)
  note IH = "2.IH"
  show ?case
  proof (cases "first < 0x80")
    case True
    with IH(1) show ?thesis by (simp add: post_step_1)
  next
    case high: False
    consider (w2) "utf8CharWidth first = 2" | (w3) "utf8CharWidth first = 3"
      | (w4) "utf8CharWidth first = 4"
      | (bad) "utf8CharWidth first \<noteq> 2" "utf8CharWidth first \<noteq> 3" "utf8CharWidth first \<noteq> 4"
      by blast
    then show ?thesis
    proof cases
      case w2
      note IH = IH(2) [OF high w2]
      show ?thesis
        using high w2 IH
        by (cases v1) (simp_all add: post_fail post_step_2)
    next
      case w3
      note IH = IH(3) [OF high _ w3]
      show ?thesis
      proof (cases v1)
        case (Cons s1 v2)
        with high w3 IH [OF _ Cons] show ?thesis
          by (cases v2) (simp_all add: post_fail post_step_3)
      qed (use high w3 in \<open>simp add: post_fail\<close>)
    next
      case w4
      note IH = IH(4) [OF high _ _ w4]
      show ?thesis
      proof (cases v1)
        case v1: (Cons s1 v2)
        show ?thesis
        proof (cases v2)
          case (Cons s2 v3)
          with high w4 v1 IH [OF _ _ v1 _ Cons] show ?thesis
            by (cases v3) (simp_all add: post_fail post_step_4)
        qed (use high w4 v1 in \<open>simp add: post_fail\<close>)
      qed (use high w4 in \<open>simp add: post_fail\<close>)
    next
      case bad
      with high show ?thesis by (simp add: post_fail)
    qed
  qed
qed

lemma utf8Loop_append:
  "utf8_text p \<Longrightarrow> utf8Loop i (p @ w) = utf8Loop (i + length p) w"
  by (induction arbitrary: i rule: utf8_text.induct) (simp_all add: utf8Loop_encode add.assoc)

lemma utf8Check_post: "loop_post 0 v (utf8Check v)"
  unfolding utf8Check_def by (rule utf8Loop_post)

lemma utf8Check_ok_iff: "snd (snd (utf8Check v)) \<longleftrightarrow> utf8_text v"
proof
  assume "snd (snd (utf8Check v))"
  with utf8Check_post [of v] show "utf8_text v"
    by (cases "utf8Check v") (simp add: loop_post_def)
next
  assume "utf8_text v"
  then show "snd (snd (utf8Check v))"
    by (simp add: utf8Check_def utf8Loop_accepts)
qed

lemma utf8Check_bound:
  "utf8Check v = (n, l, ok) \<Longrightarrow> n \<le> length v \<and> n + l \<le> length v \<and> utf8_text (take n v)"
  using utf8Check_post [of v] by (simp add: loop_post_def split: if_splits)

section \<open>Lossy conversion\<close>

text \<open>The loop of \<^verbatim>\<open>lossyUTF8\<close>; the three bytes are the encoding of U+FFFD.\<close>

function lossyLoop :: "bytes \<Rightarrow> bytes \<Rightarrow> bytes" where
  "lossyLoop out b =
     (if b = [] then out
      else case utf8Check b of
             (valid, errLen, ok) \<Rightarrow>
               if ok then out @ take valid b
               else if errLen = 0 then out @ take valid b @ [0xEF, 0xBF, 0xBD]
               else lossyLoop (out @ take valid b @ [0xEF, 0xBF, 0xBD]) (drop (valid + errLen) b))"
  by pat_completeness auto
termination
  by (relation "measure (\<lambda>(out, b). length b)") auto

declare lossyLoop.simps [simp del]

definition lossyUTF8 :: "string \<Rightarrow> string" where
  "lossyUTF8 s =
     (case utf8Check (bytes_of_string s) of
        (_, _, ok) \<Rightarrow> if ok then s else string_of_bytes (lossyLoop [] (bytes_of_string s)))"

lemma replacement_text: "utf8_text [0xEF, 0xBF, 0xBD]"
proof -
  have "scalar_value 0xFFFD" by (simp add: scalar_value_def)
  then have "utf8_text (utf8_encode 0xFFFD @ [])" by (intro utf8_text.intros)
  then show ?thesis by (simp add: utf8_encode_def)
qed

lemma lossyLoop_text: "utf8_text out \<Longrightarrow> utf8_text (lossyLoop out b)"
proof (induction out b rule: lossyLoop.induct)
  case (1 out b)
  obtain n l ok where check: "utf8Check b = (n, l, ok)" by (cases "utf8Check b")
  with utf8Check_bound have pre: "utf8_text (out @ take n b)"
    using "1.prems" by (blast intro: utf8_text_append)
  then have fill: "utf8_text (out @ take n b @ [0xEF, 0xBF, 0xBD])"
    using utf8_text_append [OF pre replacement_text] by simp
  show ?case
    using "1.IH" [OF _ check [symmetric] refl] "1.prems" pre fill
    by (subst lossyLoop.simps) (simp add: check)
qed

section \<open>Properties\<close>

text \<open>
  C28. \<^verbatim>\<open>utf8Check\<close> decides UTF-8: its flag is set exactly for the byte sequences that are
  concatenations of encoded Unicode scalar values (no surrogates, no overlong forms, nothing
  above U+10FFFF), and \<^verbatim>\<open>validUpTo\<close> is the length of the longest prefix that is UTF-8.
\<close>

theorem utf8Check_decides:
  assumes "utf8Check v = (validUpTo, errorLen, ok)"
  shows "(ok \<longleftrightarrow> utf8_text v) \<and> utf8_text (take validUpTo v)
    \<and> (\<forall>m \<le> length v. utf8_text (take m v) \<longrightarrow> m \<le> validUpTo)
    \<and> validUpTo + errorLen \<le> length v \<and> errorLen \<le> 3"
proof (intro conjI allI impI)
  show "ok \<longleftrightarrow> utf8_text v"
    using utf8Check_ok_iff [of v] assms by simp
  show "utf8_text (take validUpTo v)" and "validUpTo + errorLen \<le> length v"
    using utf8Check_bound [OF assms] by simp_all
  show "errorLen \<le> 3"
    using utf8Check_post [of v] assms by (simp add: loop_post_def split: if_splits)
next
  fix m assume m: "m \<le> length v" and pre: "utf8_text (take m v)"
  have "utf8Check v = utf8Loop m (drop m v)"
    using utf8Loop_append [OF pre, of 0 "drop m v"] m by (simp add: utf8Check_def)
  with assms have "utf8Loop m (drop m v) = (validUpTo, errorLen, ok)" by simp
  with utf8Loop_post [of m "drop m v"] show "m \<le> validUpTo"
    by (simp add: loop_post_def)
qed

theorem utf8Check_decides_witness:
  "utf8Check [0x61, 0xC3, 0xA9, 0xED, 0xA0, 0x80] = (3, 1, False)
   \<and> \<not> utf8_text [0x61, 0xC3, 0xA9, 0xED, 0xA0, 0x80] \<and> utf8_text [0x61, 0xC3, 0xA9]"
proof -
  have h: "utf8Check [0x61, 0xC3, 0xA9, 0xED, 0xA0, 0x80] = (3, 1, False)"
    by code_simp
  show ?thesis using h utf8Check_decides [OF h] by (auto simp: numeral_3_eq_3)
qed

text \<open>
  \<^verbatim>\<open>lossyUTF8\<close> always returns UTF-8 and leaves UTF-8 unchanged, so names of a directory
  listing are text whatever bytes the host has.
\<close>

theorem lossyUTF8_text:
  "utf8_text (bytes_of_string (lossyUTF8 s))
   \<and> (lossyUTF8 s = s \<longleftrightarrow> utf8_text (bytes_of_string s))
   \<and> lossyUTF8 (lossyUTF8 s) = lossyUTF8 s"
proof -
  have "utf8_text (bytes_of_string (lossyUTF8 s))" for s
    using utf8Check_ok_iff [of "bytes_of_string s"] lossyLoop_text [OF utf8_text.empty]
    by (cases "utf8Check (bytes_of_string s)") (simp add: lossyUTF8_def)
  moreover have "lossyUTF8 s = s" if "utf8_text (bytes_of_string s)" for s
    using utf8Check_ok_iff [of "bytes_of_string s"] that
    by (cases "utf8Check (bytes_of_string s)") (simp add: lossyUTF8_def)
  ultimately show ?thesis by metis
qed

end
