(* ===== verification/PyValue.thy ===== *)
theory PyValue
  imports VPath Complex_Main
begin

text \<open>
  The Go representation of Python values: \<^verbatim>\<open>internal/value/value.go\<close> and
  \<^verbatim>\<open>internal/value/pytype.go\<close>. The datatype \<open>pyval\<close> has one constructor for each dynamic
  type that the sources' type switches name.
\<close>

section \<open>Data\<close>

text \<open>
  A Go pointer is an address with the value it points to, or \<^verbatim>\<open>nil\<close>. The address matters
  where the sources compare structs that hold pointers with \<^verbatim>\<open>==\<close>.
\<close>

type_synonym addr = nat
type_synonym 'a ptr = "(addr \<times> 'a) option"

datatype intty =
    GoInt | GoInt8 | GoInt16 | GoInt32 | GoInt64
  | GoUint | GoUint8 | GoUint16 | GoUint32 | GoUint64

text \<open>A float: NaN, an infinity with its sign, or \<open>\<plusminus> m * 2 ^ e\<close> (the sign bit, \<open>m\<close> and \<open>e\<close>).\<close>

datatype gofloat = FNaN | FInf bool | FFin bool nat int

record pyDate =
  dYear :: "32 word"
  dMonth :: byte
  dDay :: byte

record pyDateTime =
  dtYear :: "32 word"
  dtMonth :: byte
  dtDay :: byte
  dtHour :: byte
  dtMinute :: byte
  dtSecond :: byte
  dtMicrosecond :: "32 word"
  dtOffset :: "32 word ptr"
  dtZone :: "string ptr"

record pyTime =
  tHour :: byte
  tMinute :: byte
  tSecond :: byte
  tMicrosecond :: "32 word"
  tOffset :: "32 word ptr"
  tZone :: "string ptr"
  tFold :: byte

record pyTimeDelta =
  tdDays :: "32 word"
  tdSeconds :: "32 word"
  tdMicroseconds :: "32 word"

record pyTimeZone =
  tzOffset :: "32 word"
  tzName :: "string ptr"

text \<open>\<^verbatim>\<open>TypeOrigin\<close> is a \<^verbatim>\<open>uint8\<close> with four named values.\<close>

type_synonym typeOrigin = byte

definition OriginUnspecified :: typeOrigin where "OriginUnspecified = 0"
definition OriginBuiltin :: typeOrigin where "OriginBuiltin = 1"
definition OriginSandbox :: typeOrigin where "OriginSandbox = 2"
definition OriginHost :: typeOrigin where "OriginHost = 3"

text \<open>The kinds that \<^verbatim>\<open>reflect\<close> distinguishes for a value of any other Go type.\<close>

datatype rkind = RMap | RSlice | RArray | RFunc | ROther

datatype pyval =
    VNone
  | VEllipsis
  | VNotImplemented
  | VBool bool
  | VInt intty int
  | VBig "int option"
  | VFloat32 gofloat
  | VFloat64 gofloat
  | VStr string
  | VBytes bytes
  | VList "pyval list"
  | VTuple "pyval list"
  | VNamedTuple string "string list" "pyval list"
  | VDict "(pyval \<times> pyval) list option"
  | VSet "pyval list option"
  | VFrozenSet "pyval list option"
  | VDate pyDate
  | VDateTime pyDateTime
  | VTime pyTime
  | VTimeDelta pyTimeDelta
  | VTimeZone pyTimeZone
  | VException string string
  | VType pytype
  | VInstance pytype string "(addr \<times> (pyval \<times> pyval) list) option"
  | VInstancePtr addr pytype string "(addr \<times> (pyval \<times> pyval) list) option"
  | VFunction string "string ptr"
  | VBuiltinFunction string
  | VPath string
  | VFileHandle addr string string u64
  | VFileHandleVal string string u64
  | VCycle u64 string
  | VOther rkind string
and pytype =
    PyType (tyName: string) (tyID: string) (tyOrigin: typeOrigin) (tyIsDataclass: bool)
      (tyAttrs: "(addr \<times> (pyval \<times> pyval) list) option")

section \<open>Operations of \<^verbatim>\<open>value.go\<close>\<close>

text \<open>\<^verbatim>\<open>NamedTuple.Get\<close>: the first field of the name that has a value.\<close>

fun NamedTuple_Get :: "string list \<Rightarrow> 'a list \<Rightarrow> string \<Rightarrow> 'a option" where
  "NamedTuple_Get [] vs field = None"
| "NamedTuple_Get (f # fs) [] field = None"
| "NamedTuple_Get (f # fs) (v # vs) field =
     (if f = field then Some v else NamedTuple_Get fs vs field)"

definition MaxSafeInteger :: u64 where
  "MaxSafeInteger = 2 ^ 53 - 1"

datatype handle_error = HandleMode mode_error | HandlePosition

definition NewFileHandle :: "string \<Rightarrow> string \<Rightarrow> u64 \<Rightarrow> handle_error + string \<times> string \<times> u64" where
  "NewFileHandle path mode position =
     (case CanonicalFileMode mode of
        Inl e \<Rightarrow> Inl (HandleMode e)
      | Inr canonical \<Rightarrow>
          if MaxSafeInteger < position then Inl HandlePosition
          else Inr (path, canonical, position))"

text \<open>The predicates of a handle, on its mode.\<close>

definition FileHandle_Binary :: "string \<Rightarrow> bool" where
  "FileHandle_Binary mode \<longleftrightarrow> CHR ''b'' \<in> set mode"

definition FileHandle_Readable :: "string \<Rightarrow> bool" where
  "FileHandle_Readable mode \<longleftrightarrow> prefix ''r'' mode \<or> CHR ''+'' \<in> set mode"

definition FileHandle_Writable :: "string \<Rightarrow> bool" where
  "FileHandle_Writable mode \<longleftrightarrow> prefix ''w'' mode \<or> prefix ''a'' mode \<or> CHR ''+'' \<in> set mode"

text \<open>\<^verbatim>\<open>floorDiv\<close> on \<^verbatim>\<open>int64\<close>, and \<^verbatim>\<open>NormalizeTimeDelta\<close> with the sum wrapped to 64 bits.\<close>

definition floorDiv :: "int \<Rightarrow> int \<Rightarrow> int" where
  "floorDiv a b =
     (let q = go_div a b
      in if go_mod a b \<noteq> 0 \<and> ((a < 0) \<noteq> (b < 0)) then q - 1 else q)"

definition NormalizeTimeDelta :: "int \<Rightarrow> int \<Rightarrow> int \<Rightarrow> pyTimeDelta" where
  "NormalizeTimeDelta days seconds micros =
     (let total = wrap 64 (days * 86400 * 1000000 + seconds * 1000000 + micros);
          d = floorDiv total (86400 * 1000000);
          rem = wrap 64 (total - d * 86400 * 1000000);
          s = go_div rem 1000000;
          us = go_mod rem 1000000
      in \<lparr>tdDays = of_int d, tdSeconds = of_int s, tdMicroseconds = of_int us\<rparr>)"

text \<open>\<^verbatim>\<open>d.Microseconds()\<close> of a \<^verbatim>\<open>time.Duration\<close> of nanoseconds truncates.\<close>

definition TimeDeltaFromDuration :: "int \<Rightarrow> pyTimeDelta" where
  "TimeDeltaFromDuration d = NormalizeTimeDelta 0 0 (go_div d 1000)"

text \<open>\<^verbatim>\<open>TimeDelta.Duration\<close> in nanoseconds, wrapped to 64 bits.\<close>

definition TimeDelta_Duration :: "pyTimeDelta \<Rightarrow> int" where
  "TimeDelta_Duration t =
     wrap 64 (sint (tdDays t) * 24 * 3600000000000 + sint (tdSeconds t) * 1000000000
       + sint (tdMicroseconds t) * 1000)"

section \<open>\<^verbatim>\<open>PyTypeName\<close>\<close>

fun PyTypeName :: "pyval \<Rightarrow> string" where
  "PyTypeName VNone = ''NoneType''"
| "PyTypeName (VBool _) = ''bool''"
| "PyTypeName (VInt _ _) = ''int''"
| "PyTypeName (VBig _) = ''int''"
| "PyTypeName (VFloat32 _) = ''float''"
| "PyTypeName (VFloat64 _) = ''float''"
| "PyTypeName (VStr _) = ''str''"
| "PyTypeName (VBytes _) = ''bytes''"
| "PyTypeName (VTuple _) = ''tuple''"
| "PyTypeName (VList _) = ''list''"
| "PyTypeName (VDict _) = ''dict''"
| "PyTypeName (VSet _) = ''set''"
| "PyTypeName (VFrozenSet _) = ''frozenset''"
| "PyTypeName (VDate _) = ''date''"
| "PyTypeName (VDateTime _) = ''datetime''"
| "PyTypeName (VTime _) = ''time''"
| "PyTypeName (VTimeDelta _) = ''timedelta''"
| "PyTypeName (VTimeZone _) = ''timezone''"
| "PyTypeName (VException excType _) = excType"
| "PyTypeName (VType _) = ''type''"
| "PyTypeName (VPath _) = ''PosixPath''"
| "PyTypeName (VFileHandle _ _ _ _) = ''TextIOWrapper''"
| "PyTypeName VEllipsis = ''ellipsis''"
| "PyTypeName VNotImplemented = ''NotImplementedType''"
| "PyTypeName (VFunction _ _) = ''function''"
| "PyTypeName (VBuiltinFunction _) = ''builtin_function_or_method''"
| "PyTypeName (VNamedTuple typeName _ _) = typeName"
| "PyTypeName (VInstance t _ _) = tyName t"
| "PyTypeName (VOther RMap _) = ''dict''"
| "PyTypeName (VOther RSlice _) = ''list''"
| "PyTypeName (VOther RArray _) = ''list''"
| "PyTypeName (VOther RFunc _) = ''function''"
| "PyTypeName (VOther ROther _) = ''object''"
| "PyTypeName (VInstancePtr _ _ _ _) = ''object''"
| "PyTypeName (VFileHandleVal _ _ _) = ''object''"
| "PyTypeName (VCycle _ _) = ''object''"

section \<open>Properties\<close>

lemma floorDiv_div: "0 < b \<Longrightarrow> floorDiv a b = a div b"
proof -
  assume b: "0 < b"
  show ?thesis
  proof (cases "0 \<le> a")
    case True
    with b show ?thesis
      by (cases "a = 0") (simp_all add: floorDiv_def go_div_def go_mod_def Let_def)
  next
    case False
    define x where "x = - a"
    with False have a: "a = - x" and x: "0 < x" by simp_all
    have neg: "- x div b = (if b dvd x then - (x div b) else - (x div b) - 1)"
      using b by (simp add: zdiv_zminus1_eq_if dvd_eq_mod_eq_0)
    have "go_mod a b \<noteq> 0 \<longleftrightarrow> \<not> b dvd x"
      using b x by (auto simp: a go_mod_def go_div_def dvd_eq_mod_eq_0 minus_mult_div_eq_mod
          algebra_simps) (metis mult.commute minus_mult_div_eq_mod eq_iff_diff_eq_0)+
    with b x a neg show ?thesis
      by (simp add: floorDiv_def go_div_def Let_def)
  qed
qed

text \<open>
  The remainder stays inside one day, so neither it nor the narrowing conversions lose anything.
\<close>

lemma NormalizeTimeDelta_fields:
  fixes days seconds micros :: int
  defines "tot \<equiv> wrap 64 (days * 86400 * 1000000 + seconds * 1000000 + micros)"
  defines "t \<equiv> NormalizeTimeDelta days seconds micros"
  shows "sint (tdDays t) = tot div 86400000000"
    and "sint (tdSeconds t) = tot mod 86400000000 div 1000000"
    and "sint (tdMicroseconds t) = tot mod 86400000000 mod 1000000"
proof -
  have tot: "- (2 ^ 63) \<le> tot" "tot < 2 ^ 63"
    using wrap_range [of 64 "days * 86400 * 1000000 + seconds * 1000000 + micros"]
    by (simp_all add: tot_def)
  define r where "r = tot mod 86400000000"
  have r: "0 \<le> r" "r < 86400000000" by (simp_all add: r_def)
  have "tot - tot div 86400000000 * 86400000000 = r"
    by (simp add: r_def minus_div_mult_eq_mod)
  then have rem: "wrap 64 (tot - tot div 86400000000 * 86400 * 1000000) = r"
    using r by (simp add: wrap_id)
  have "go_div r 1000000 = r div 1000000" "go_mod r 1000000 = r mod 1000000"
    using r by (cases "r = 0"; simp add: go_div_def go_mod_def minus_mult_div_eq_mod)+
  then have t: "t = \<lparr>tdDays = of_int (tot div 86400000000),
      tdSeconds = of_int (r div 1000000), tdMicroseconds = of_int (r mod 1000000)\<rparr>"
    unfolding t_def NormalizeTimeDelta_def Let_def tot_def [symmetric]
    using rem by (simp add: floorDiv_div)
  have small: "sint (of_int x :: 32 word) = x" if "- (2 ^ 31) \<le> x" "x < 2 ^ 31" for x
    using that by (simp add: signed_of_int signed_take_bit_int_eq_self)
  have "- (2 ^ 31) \<le> tot div 86400000000" "tot div 86400000000 < 2 ^ 31"
    using tot by simp_all
  moreover have "- (2 ^ 31) \<le> r div 1000000" "r div 1000000 < 2 ^ 31" using r by simp_all
  moreover have "- (2 ^ 31) \<le> m" "m < 2 ^ 31" if "m = r mod 1000000" for m
    using that pos_mod_bound [of 1000000 r] pos_mod_sign [of 1000000 r] by simp_all
  ultimately show "sint (tdDays t) = tot div 86400000000"
    "sint (tdSeconds t) = tot mod 86400000000 div 1000000"
    "sint (tdMicroseconds t) = tot mod 86400000000 mod 1000000"
    by (simp_all only: t pyTimeDelta.select_convs small simp_thms flip: r_def)
qed

text \<open>
  C29. \<^verbatim>\<open>NormalizeTimeDelta\<close> normalises as Python does: for every input the seconds are
  within a day and the microseconds within a second, neither conversion to \<^verbatim>\<open>int32\<close> loses
  a bit, and the fields add up to the requested number of microseconds (read modulo \<open>2 ^ 64\<close>,
  as the \<^verbatim>\<open>int64\<close> sum is).
\<close>

theorem NormalizeTimeDelta_normalises:
  "let t = NormalizeTimeDelta days seconds micros
   in 0 \<le> sint (tdSeconds t) \<and> sint (tdSeconds t) < 86400 \<and>
      0 \<le> sint (tdMicroseconds t) \<and> sint (tdMicroseconds t) < 1000000 \<and>
      sint (tdDays t) * 86400000000 + sint (tdSeconds t) * 1000000 + sint (tdMicroseconds t)
        = wrap 64 (days * 86400 * 1000000 + seconds * 1000000 + micros)"
proof -
  define tot where "tot = wrap 64 (days * 86400 * 1000000 + seconds * 1000000 + micros)"
  define r where "r = tot mod 86400000000"
  have r: "0 \<le> r" "r < 86400000000" by (simp_all add: r_def)
  then have "0 \<le> r div 1000000" "r div 1000000 < 86400" by simp_all
  moreover have "0 \<le> r mod 1000000" "r mod 1000000 < 1000000"
    using pos_mod_bound [of 1000000 r] pos_mod_sign [of 1000000 r] by simp_all
  moreover have "tot div 86400000000 * 86400000000 + r = tot"
    by (simp add: r_def)
  moreover have "r div 1000000 * 1000000 + r mod 1000000 = r" by simp
  ultimately show ?thesis
    unfolding Let_def NormalizeTimeDelta_fields tot_def [symmetric] r_def [symmetric]
    by (simp only: simp_thms add.assoc)
qed

end
