(* ===== verification/Repr.thy ===== *)
theory Repr
  imports Utf8 PyValue
begin

text \<open>
  Text rendering: \<^verbatim>\<open>internal/value/repr.go\<close> for strings and bytes, with the parts of Go's
  \<^verbatim>\<open>range\<close> over strings, \<^verbatim>\<open>strconv\<close> and \<^verbatim>\<open>fmt\<close> that it uses. Whether a rune is
  printable is a table of the Unicode database: the functions that consult it take it as the
  argument \<open>isPrint\<close>.
\<close>

section \<open>Runes and digits\<close>

text \<open>
  Decoding one rune as \<^verbatim>\<open>range\<close> does: its code point and width, or U+FFFD of width one for a
  byte that begins no valid sequence.
\<close>

fun decodeRune :: "bytes \<Rightarrow> nat \<times> nat" where
  "decodeRune (a # b # c # d # _) =
     (if a < 0x80 then (unat a, 1)
      else if utf8CharWidth a = 2 \<and> cont b then (unat a mod 32 * 64 + unat b mod 64, 2)
      else if utf8CharWidth a = 3 \<and> valid3 a b \<and> cont c then
        (unat a mod 16 * 4096 + unat b mod 64 * 64 + unat c mod 64, 3)
      else if utf8CharWidth a = 4 \<and> valid4 a b \<and> cont c \<and> cont d then
        (unat a mod 8 * 262144 + unat b mod 64 * 4096 + unat c mod 64 * 64 + unat d mod 64, 4)
      else (0xFFFD, 1))"
| "decodeRune [a, b, c] =
     (if a < 0x80 then (unat a, 1)
      else if utf8CharWidth a = 2 \<and> cont b then (unat a mod 32 * 64 + unat b mod 64, 2)
      else if utf8CharWidth a = 3 \<and> valid3 a b \<and> cont c then
        (unat a mod 16 * 4096 + unat b mod 64 * 64 + unat c mod 64, 3)
      else (0xFFFD, 1))"
| "decodeRune [a, b] =
     (if a < 0x80 then (unat a, 1)
      else if utf8CharWidth a = 2 \<and> cont b then (unat a mod 32 * 64 + unat b mod 64, 2)
      else (0xFFFD, 1))"
| "decodeRune [a] = (if a < 0x80 then (unat a, 1) else (0xFFFD, 1))"
| "decodeRune [] = (0xFFFD, 1)"

lemma decodeRune_width: "1 \<le> snd (decodeRune v)" "snd (decodeRune v) \<le> 4"
  by (cases v rule: decodeRune.cases; simp)+

lemma decodeRune_fits: "v \<noteq> [] \<Longrightarrow> snd (decodeRune v) \<le> length v"
  by (cases v rule: decodeRune.cases) simp_all

text \<open>The pairs of offset and rune that \<^verbatim>\<open>for i, r := range s\<close> visits.\<close>

function go_range :: "nat \<Rightarrow> bytes \<Rightarrow> (nat \<times> nat) list" where
  "go_range i v =
     (if v = [] then []
      else case decodeRune v of (r, w) \<Rightarrow> (i, r) # go_range (i + w) (drop w v))"
  by pat_completeness auto
termination
proof (relation "measure (\<lambda>(i, v). length v)")
  fix i v r w
  assume "v \<noteq> []" "(r, w) = decodeRune v"
  with decodeRune_width(1) [of v] have "1 \<le> w" by (metis snd_conv)
  with \<open>v \<noteq> []\<close> show "((i + w, drop w v), i, v) \<in> measure (\<lambda>(i, v). length v)" by simp
qed simp

declare go_range.simps [simp del]

definition runes :: "string \<Rightarrow> nat list" where
  "runes s = map snd (go_range 0 (bytes_of_string s))"

text \<open>The rune starts: each rune takes one to four bytes.\<close>

lemma go_range_start:
  assumes "k < length (go_range i v)"
  shows "i + k \<le> fst (go_range i v ! k)" "fst (go_range i v ! k) \<le> i + 4 * k"
    and "fst (go_range i v ! k) \<le> i + length v"
    and "i + length v \<le> fst (go_range i v ! k) + 4 * (length (go_range i v) - k)"
proof (atomize (full), use assms in \<open>induction i v arbitrary: k rule: go_range.induct\<close>)
  case (1 i v)
  show ?case
  proof (cases "v = []")
    case True
    with "1.prems" show ?thesis by (simp add: go_range.simps)
  next
    case False
    obtain r w where d: "decodeRune v = (r, w)" by (cases "decodeRune v")
    with decodeRune_width [of v] decodeRune_fits [of v] False
    have w: "1 \<le> w" "w \<le> 4" "w \<le> length v" by auto
    have u: "go_range i v = (i, r) # go_range (i + w) (drop w v)"
      using False d by (subst go_range.simps) simp
    show ?thesis
    proof (cases k)
      case 0
      show ?thesis
      proof (cases "drop w v = []")
        case True
        with w show ?thesis by (simp add: 0 u)
      next
        case tail: False
        have "go_range (i + w) (drop w v) \<noteq> []"
          using tail by (subst go_range.simps) (simp split: prod.splits)
        then show ?thesis
          using "1.IH" [OF False d [symmetric], of 0] w tail by (simp add: 0 u)
      qed
    next
      case (Suc n)
      with "1.prems" have "n < length (go_range (i + w) (drop w v))" by (simp add: u)
      then show ?thesis
        using "1.IH" [OF False d [symmetric], of n] w by (simp add: Suc u)
    qed
  qed
qed

text \<open>Digits of a number in a base up to sixteen, without leading zeros.\<close>

definition digit :: "nat \<Rightarrow> char" where
  "digit d = char_of (if d < 10 then 48 + d else 87 + d)"

fun digits_base :: "nat \<Rightarrow> nat \<Rightarrow> string" where
  "digits_base b n =
     (if b < 2 \<or> n < b then [digit n] else digits_base b (n div b) @ [digit (n mod b)])"

declare digits_base.simps [simp del]

abbreviation dec :: "nat \<Rightarrow> string" where
  "dec \<equiv> digits_base 10"

definition dec_int :: "int \<Rightarrow> string" where
  "dec_int i = (if i < 0 then CHR ''-'' # dec (nat (- i)) else dec (nat i))"

definition hex_pad :: "nat \<Rightarrow> nat \<Rightarrow> string" where
  "hex_pad w n = (let s = digits_base 16 n in replicate (w - length s) CHR ''0'' @ s)"

section \<open>Rendering strings and bytes\<close>

definition rune_char :: "nat \<Rightarrow> string" where
  "rune_char r = string_of_bytes (utf8_encode r)"

text \<open>
  The runes of a string are never negative, so the sources' case for \<^verbatim>\<open>utf8Invalid\<close>, which
  is \<open>-1\<close>, is unreachable and has no clause here.
\<close>

definition stringReprRune :: "(nat \<Rightarrow> bool) \<Rightarrow> nat \<Rightarrow> nat \<Rightarrow> string" where
  "stringReprRune isPrint quote r =
     (if r = 92 then [CHR 0x5C, CHR 0x5C]
      else if r = 10 then [CHR 0x5C, CHR ''n'']
      else if r = 13 then [CHR 0x5C, CHR ''r'']
      else if r = 9 then [CHR 0x5C, CHR ''t'']
      else if r = quote then [CHR 0x5C, char_of quote]
      else if isPrint r then rune_char r
      else if r \<le> 0xFF then [CHR 0x5C, CHR ''x''] @ hex_pad 2 r
      else if r \<le> 0xFFFF then [CHR 0x5C, CHR ''u''] @ hex_pad 4 r
      else [CHR 0x5C, CHR ''U''] @ hex_pad 8 r)"

definition StringRepr :: "(nat \<Rightarrow> bool) \<Rightarrow> string \<Rightarrow> string" where
  "StringRepr isPrint s =
     (let quote = (if CHR 0x27 \<in> set s \<and> CHR 0x22 \<notin> set s then 0x22 else 0x27)
      in [char_of quote] @ concat (map (stringReprRune isPrint quote) (runes s)) @ [char_of quote])"

definition bytesReprByte :: "byte \<Rightarrow> byte \<Rightarrow> string" where
  "bytesReprByte quote c =
     (if c = 92 then [CHR 0x5C, CHR 0x5C]
      else if c = 10 then [CHR 0x5C, CHR ''n'']
      else if c = 13 then [CHR 0x5C, CHR ''r'']
      else if c = 9 then [CHR 0x5C, CHR ''t'']
      else if c = quote then [CHR 0x5C, char_of (unat quote)]
      else if c < 0x20 \<or> 0x7F \<le> c then [CHR 0x5C, CHR ''x''] @ hex_pad 2 (unat c)
      else [char_of (unat c)])"

definition bytesQuote :: "bytes \<Rightarrow> byte" where
  "bytesQuote data = (if 0x27 \<in> set data \<and> 0x22 \<notin> set data then 0x22 else 0x27)"

definition BytesRepr :: "bytes \<Rightarrow> string" where
  "BytesRepr data =
     (let quote = bytesQuote data
      in [CHR ''b'', char_of (unat quote)] @ concat (map (bytesReprByte quote) data)
         @ [char_of (unat quote)])"

definition rustEscape :: "(nat \<Rightarrow> bool) \<Rightarrow> nat \<Rightarrow> nat \<Rightarrow> string" where
  "rustEscape isPrint r quote =
     (if r = 0 then [CHR 0x5C, CHR ''0'']
      else if r = 9 then [CHR 0x5C, CHR ''t'']
      else if r = 10 then [CHR 0x5C, CHR ''n'']
      else if r = 13 then [CHR 0x5C, CHR ''r'']
      else if r = 92 then [CHR 0x5C, CHR 0x5C]
      else if r = quote then CHR 0x5C # rune_char quote
      else if isPrint r \<or> r = 32 then rune_char r
      else [CHR 0x5C, CHR ''u'', CHR ''{''] @ digits_base 16 r @ ''}'')"

definition RustDebugString :: "(nat \<Rightarrow> bool) \<Rightarrow> string \<Rightarrow> string" where
  "RustDebugString isPrint s =
     [CHR 0x22] @ concat (map (\<lambda>r. rustEscape isPrint r 0x22) (runes s)) @ [CHR 0x22]"

definition RustDebugChar :: "(nat \<Rightarrow> bool) \<Rightarrow> nat \<Rightarrow> string" where
  "RustDebugChar isPrint r = [CHR 0x27] @ rustEscape isPrint r 0x27 @ [CHR 0x27]"

section \<open>The round trip of \<^verbatim>\<open>BytesRepr\<close>\<close>

text \<open>A reader of Python's bytes literals, the reference that the rendering is measured by.\<close>

definition hexval :: "char \<Rightarrow> nat" where
  "hexval c = (let n = of_char c in if n < 58 then n - 48 else n - 87)"

definition escape_byte :: "char \<Rightarrow> byte" where
  "escape_byte e =
     (if e = CHR ''n'' then 10 else if e = CHR ''r'' then 13 else if e = CHR ''t'' then 9
      else of_nat (of_char e))"

fun read_body :: "char \<Rightarrow> string \<Rightarrow> bytes option" where
  "read_body q [] = None"
| "read_body q (c # s) =
     (if c = q then (if s = [] then Some [] else None)
      else if c = CHR 0x5C then
        (case s of
           [] \<Rightarrow> None
         | e # s1 \<Rightarrow>
             if e = CHR ''x'' then
               (case s1 of
                  h # l # s2 \<Rightarrow>
                    map_option ((#) (of_nat (16 * hexval h + hexval l))) (read_body q s2)
                | _ \<Rightarrow> None)
             else map_option ((#) (escape_byte e)) (read_body q s1))
      else map_option ((#) (of_nat (of_char c))) (read_body q s))"

fun read_bytes_literal :: "string \<Rightarrow> bytes option" where
  "read_bytes_literal (b # q # s) =
     (if b = CHR ''b'' \<and> (q = CHR 0x27 \<or> q = CHR 0x22) then read_body q s else None)"
| "read_bytes_literal _ = None"

lemma char_of_numerals:
  "char_of (34::nat) = CHR 0x22" "char_of (39::nat) = CHR 0x27" "char_of (48::nat) = CHR ''0''"
  by code_simp+

lemma hexval_digit: "d < 16 \<Longrightarrow> hexval (digit d) = d"
  by (auto simp: hexval_def digit_def Let_def)

lemma hex_pad_byte: "n < 256 \<Longrightarrow> hex_pad 2 n = [digit (n div 16), digit (n mod 16)]"
proof -
  assume "n < 256"
  then have "n div 16 < 16" by simp
  then show ?thesis
    by (auto simp: hex_pad_def Let_def digits_base.simps [of 16 n]
        digits_base.simps [of 16 "n div 16"] digit_def char_of_numerals)
qed

lemma byte_char_inverse: "of_nat (of_char (char_of (unat w) :: char)) = (w :: byte)"
  using unsigned_less [of w, where ?'a = nat] by (simp add: of_char_of del: of_nat_of_char)

lemma char_of_byte_eq: "char_of (unat (b :: byte)) = char_of (unat c) \<longleftrightarrow> b = c"
  by (metis bytes_of_string_of_bytes list.inject list.simps(8,9) string_of_bytes_def)

lemma char_of_byte_numeral:
  "char_of (unat (b :: byte)) = c \<longleftrightarrow> b = of_nat (of_char c)"
proof
  assume "char_of (unat b) = c"
  then show "b = of_nat (of_char c)" using byte_char_inverse [of b] by (simp only:)
qed (simp del: of_nat_of_char)

lemma read_body_escape:
  "q \<noteq> CHR 0x5C \<Longrightarrow> e \<noteq> CHR ''x'' \<Longrightarrow>
     read_body q (CHR 0x5C # e # s) = map_option ((#) (escape_byte e)) (read_body q s)"
  "q \<noteq> CHR 0x5C \<Longrightarrow>
     read_body q (CHR 0x5C # CHR ''x'' # h # l # s)
     = map_option ((#) (of_nat (16 * hexval h + hexval l))) (read_body q s)"
  "c \<noteq> q \<Longrightarrow> c \<noteq> CHR 0x5C \<Longrightarrow>
     read_body q (c # s) = map_option ((#) (of_nat (of_char c))) (read_body q s)"
  by (simp_all only: read_body.simps(2) if_False if_True list.case simp_thms) simp_all

declare read_body.simps(2) [simp del]

lemma escape_bytes:
  "escape_byte (CHR 0x5C) = 92" "escape_byte (CHR ''n'') = 10" "escape_byte (CHR ''r'') = 13"
  "escape_byte (CHR ''t'') = 9" "escape_byte (CHR 0x27) = 39" "escape_byte (CHR 0x22) = 34"
  by (simp_all add: escape_byte_def)

lemma read_body_byte:
  assumes q: "q = 0x27 \<or> q = 0x22"
  shows "read_body (char_of (unat q)) (bytesReprByte q c @ s)
    = map_option ((#) c) (read_body (char_of (unat q)) s)"
proof -
  have hex: "of_nat (16 * hexval (digit (unat c div 16)) + hexval (digit (unat c mod 16))) = c"
    using byte_lt_256 [of c] by (simp add: hexval_digit del: of_nat_add of_nat_mult)
  have Q: "char_of (unat q) \<noteq> CHR 0x5C" "char_of (unat q) \<noteq> CHR ''x''"
    and esc_q: "escape_byte (char_of (unat q)) = q"
    using q by (auto simp: char_of_numerals escape_bytes)
  consider "c = 92" | "c = 10" | "c = 13" | "c = 9" | "c \<notin> {92, 10, 13, 9}" "c = q"
    | "c \<notin> {92, 10, 13, 9}" "c \<noteq> q" "c < 0x20 \<or> 0x7F \<le> c"
    | "c \<notin> {92, 10, 13, 9}" "c \<noteq> q" "\<not> (c < 0x20 \<or> 0x7F \<le> c)"
    by blast
  then show ?thesis
  proof cases
    case 6
    then have "bytesReprByte q c = [CHR 0x5C, CHR ''x'', digit (unat c div 16), digit (unat c mod 16)]"
      by (simp add: bytesReprByte_def hex_pad_byte byte_lt_256)
    with hex Q show ?thesis by (simp add: read_body_escape(2))
  next
    case 7
    then have "bytesReprByte q c = [char_of (unat c)]" by (simp add: bytesReprByte_def)
    moreover have "char_of (unat c) \<noteq> char_of (unat q)" using 7 by (simp only: char_of_byte_eq) simp
    moreover have "char_of (unat c) \<noteq> CHR 0x5C" using 7 by (simp only: char_of_byte_numeral) simp
    ultimately show ?thesis
      by (simp only: read_body_escape(3) byte_char_inverse append_Cons append_Nil not_False_eq_True)
  qed (use Q esc_q in \<open>simp_all add: bytesReprByte_def read_body_escape(1) escape_bytes\<close>)
qed

lemma read_body_bytes:
  "q = 0x27 \<or> q = 0x22 \<Longrightarrow>
     read_body (char_of (unat q)) (concat (map (bytesReprByte q) data) @ [char_of (unat q)])
     = Some data"
  by (induction data) (simp_all add: read_body_byte read_body.simps(2))

text \<open>
  C26. \<^verbatim>\<open>BytesRepr\<close> is faithful: reading the literal it prints, by Python's rules for bytes
  literals, gives the bytes back, so distinct byte strings have distinct renderings.
\<close>

theorem BytesRepr_roundtrip: "read_bytes_literal (BytesRepr data) = Some data"
  using read_body_bytes [of "bytesQuote data" data]
  by (auto simp: BytesRepr_def bytesQuote_def Let_def char_of_numerals)

end
