(* ===== verification/WireException.thy ===== *)
theory WireException
  imports Repr
begin

text \<open>
  Raised Python exceptions: \<^verbatim>\<open>internal/wire/exception.go\<close>, with the rendering of
  tracebacks. A pointer to a string that is only tested for \<^verbatim>\<open>nil\<close> and read is an
  \<open>option\<close>.
\<close>

section \<open>Data\<close>

record codeLoc =
  clLine :: "32 word"
  clColumn :: "32 word"

record frame =
  fFilename :: string
  fStart :: codeLoc
  fEnd :: codeLoc
  fFrameName :: "string option"
  fPreviewLine :: "string option"
  fHideCaret :: bool
  fHideFrameName :: bool

record unicodeErrorData =
  uEncoding :: string
  uObjectBytes :: bytes
  uObjectStr :: "string option"
  uStart :: u64
  uEnd :: u64
  uReason :: string

record jsonErrorData =
  jMsg :: string
  jDoc :: "string option"
  jPos :: u64
  jLineno :: u64
  jColno :: u64

record excData =
  edUnicode :: "unicodeErrorData option"
  edJSON :: "jsonErrorData option"

record wireException =
  excType :: string
  excMessage :: "string option"
  excTraceback :: "frame list"
  excPayload :: "excData option"

definition NewException :: "string \<Rightarrow> string \<Rightarrow> wireException" where
  "NewException t m = \<lparr>excType = t, excMessage = Some m, excTraceback = [], excPayload = None\<rparr>"

definition MessageText :: "wireException \<Rightarrow> string" where
  "MessageText e = (case excMessage e of None \<Rightarrow> [] | Some m \<Rightarrow> m)"

definition Summary :: "wireException \<Rightarrow> string" where
  "Summary e = (case excMessage e of None \<Rightarrow> excType e | Some m \<Rightarrow> excType e @ '': '' @ m)"

section \<open>Rendering\<close>

definition repeatFramesShown :: nat where
  "repeatFramesShown = 3"

definition framesIdentical :: "frame \<Rightarrow> frame \<Rightarrow> bool" where
  "framesIdentical a b \<longleftrightarrow>
     (if fFilename a \<noteq> fFilename b \<or> clLine (fStart a) \<noteq> clLine (fStart b) then False
      else if (fFrameName a = None) \<noteq> (fFrameName b = None) then False
      else fFrameName a = None \<or> the (fFrameName a) = the (fFrameName b))"

text \<open>\<^verbatim>\<open>unicode.IsSpace\<close>, and \<^verbatim>\<open>strings.TrimLeftFunc\<close> with it.\<close>

definition IsSpace :: "nat \<Rightarrow> bool" where
  "IsSpace r \<longleftrightarrow>
     r \<in> {9, 10, 11, 12, 13, 32, 0x85, 0xA0, 0x1680, 0x2028, 0x2029, 0x202F, 0x205F, 0x3000}
     \<or> 0x2000 \<le> r \<and> r \<le> 0x200A"

definition trimLeftSpace :: "string \<Rightarrow> string" where
  "trimLeftSpace s =
     (case dropWhile (\<lambda>(i, r). IsSpace r) (go_range 0 (bytes_of_string s)) of
        [] \<Rightarrow> []
      | (i, r) # _ \<Rightarrow> drop i s)"

definition trimSuffixCR :: "string \<Rightarrow> string" where
  "trimSuffixCR p = (if p \<noteq> [] \<and> last p = CHR 0x0D then butlast p else p)"

definition rustLines :: "string \<Rightarrow> string list" where
  "rustLines s =
     (if s = [] then []
      else let parts = split_on CHR 0x0A s;
               parts = (if last parts = [] then butlast parts else parts)
           in map trimSuffixCR parts)"

text \<open>\<^verbatim>\<open>int(x)\<close> of a \<^verbatim>\<open>uint32\<close> fits, so the caret arithmetic is on integers.\<close>

definition caretLine :: "frame \<Rightarrow> string \<Rightarrow> string \<Rightarrow> string" where
  "caretLine f line trimmed =
     (let leading = int (length line) - int (length trimmed);
          start = uint (clColumn (fStart f));
          caretStart = (if leading < start then 4 + start - leading - 1 else 4);
          caretLen = uint (clColumn (fEnd f)) - start;
          caretLen = (if caretLen < 1 then 1 else caretLen)
      in replicate (nat caretStart) CHR '' '' @ replicate (nat caretLen) CHR ''~'' @ [CHR 0x0A])"

definition writeFrame :: "frame \<Rightarrow> string" where
  "writeFrame f =
     ''  File '' @ [CHR 0x22] @ fFilename f @ [CHR 0x22] @ '', line ''
     @ dec (unat (clLine (fStart f)))
     @ (if fHideFrameName f then []
        else '', in '' @ (case fFrameName f of Some n \<Rightarrow> n | None \<Rightarrow> ''<module>''))
     @ (case fPreviewLine f of
          None \<Rightarrow> [CHR 0x0A]
        | Some line \<Rightarrow>
            if clLine (fStart f) \<noteq> clLine (fEnd f) then
              [CHR 0x0A] @ concat (map (\<lambda>b. ''    '' @ b @ [CHR 0x0A]) (rustLines line))
            else
              let trimmed = trimLeftSpace line
              in [CHR 0x0A] @ ''    '' @ trimmed @ [CHR 0x0A]
                 @ (if fHideCaret f then [] else caretLine f line trimmed))"

text \<open>The loop of \<^verbatim>\<open>Render\<close> over the rest \<^verbatim>\<open>e.Traceback[i:]\<close>.\<close>

function renderFrames :: "frame list \<Rightarrow> string" where
  "renderFrames [] = []"
| "renderFrames (frame # rest) =
     (let repeat = 1 + length (takeWhile (framesIdentical frame) rest)
      in (if repeatFramesShown < repeat then
            concat (map writeFrame (take repeatFramesShown (frame # rest)))
            @ ''  [Previous line repeated '' @ dec (repeat - repeatFramesShown)
            @ '' more times]'' @ [CHR 0x0A]
          else concat (map writeFrame (take repeat (frame # rest))))
         @ renderFrames (drop (repeat - 1) rest))"
  by pat_completeness auto
termination
  by (relation "measure length") auto

declare renderFrames.simps(2) [simp del]

definition Render :: "wireException \<Rightarrow> string" where
  "Render e =
     (if excTraceback e \<noteq> [] then ''Traceback (most recent call last):'' @ [CHR 0x0A] else [])
     @ renderFrames (excTraceback e) @ Summary e"

section \<open>Properties\<close>

lemma framesIdentical_iff:
  "framesIdentical a b \<longleftrightarrow>
     fFilename a = fFilename b \<and> clLine (fStart a) = clLine (fStart b) \<and> fFrameName a = fFrameName b"
  by (cases "fFrameName a"; cases "fFrameName b") (auto simp: framesIdentical_def)

text \<open>
  The runs of a traceback: the reference splits it into maximal runs of identical frames first
  and abbreviates each run on its own.
\<close>

function runs :: "frame list \<Rightarrow> frame list list" where
  "runs [] = []"
| "runs (f # fs) = (f # takeWhile (framesIdentical f) fs) # runs (dropWhile (framesIdentical f) fs)"
  by pat_completeness auto
termination
  by (relation "measure length") (auto simp: less_Suc_eq_le length_dropWhile_le)

definition show_run :: "frame list \<Rightarrow> string" where
  "show_run r =
     concat (map writeFrame (take 3 r))
     @ (if length r \<le> 3 then []
        else ''  [Previous line repeated '' @ dec (length r - 3) @ '' more times]'' @ [CHR 0x0A])"

lemma concat_runs: "concat (runs fs) = fs"
  by (induction fs rule: runs.induct) simp_all

lemma renderFrames_runs: "renderFrames fs = concat (map show_run (runs fs))"
proof (induction fs rule: runs.induct)
  case (2 f fs)
  let ?t = "takeWhile (framesIdentical f) fs"
  have d: "drop (length ?t) fs = dropWhile (framesIdentical f) fs"
    by (simp add: dropWhile_eq_drop)
  have t: "take (Suc n) (f # fs) = take (Suc n) (f # ?t)" if "n \<le> length ?t" for n
  proof -
    have "take n fs = take n (?t @ dropWhile (framesIdentical f) fs)" by simp
    also have "\<dots> = take n ?t" using that by (simp only: take_append) simp
    finally show ?thesis by simp
  qed
  show ?case
    using 2 t [of 2] t [of "length ?t"]
    by (auto simp: renderFrames.simps(2) show_run_def repeatFramesShown_def Let_def d
        eval_nat_numeral not_less_eq)
qed simp

text \<open>
  C25. \<^verbatim>\<open>Render\<close> splits the traceback into maximal runs of frames with the same file, line
  and function, prints at most three frames of each run, and announces exactly the frames it
  left out; the runs together are the whole traceback, in order.
\<close>

theorem Render_runs:
  "Render e =
     (if excTraceback e = [] then [] else ''Traceback (most recent call last):'' @ [CHR 0x0A])
     @ concat (map show_run (runs (excTraceback e))) @ Summary e
   \<and> concat (runs (excTraceback e)) = excTraceback e"
  by (simp add: Render_def renderFrames_runs concat_runs)

end
