(* ===== verification/MountErrors.thy ===== *)
theory MountErrors
  imports WireException
begin

text \<open>
  The errors of the mount file system: \<^verbatim>\<open>internal/mountfs/errors.go\<close> and the
  decoding of file contents in \<^verbatim>\<open>utf8.go\<close>. A \<open>mountError\<close> is one constructor per
  \<^verbatim>\<open>errKind\<close>, with the fields that the sources set for that kind.
\<close>

section \<open>Data\<close>

datatype ioKind =
    ioOther | ioNotFound | ioAlreadyExists | ioPermissionDenied | ioIsADirectory
  | ioNotADirectory | ioDirectoryNotEmpty | ioInvalidFilename | ioInvalidInput | ioInvalidData

record utf8Failure =
  ufStart :: nat
  ufEnd :: nat
  ufFirstByte :: byte
  ufReason :: string
  ufObject :: "bytes option"

datatype mountError =
    ErrNoMountPoint string
  | ErrPathEscape string
  | ErrValue string
  | ErrReadOnly string
  | ErrCrossMount string string
  | ErrIO ioKind string string
  | ErrInvalidUTF8 utf8Failure
  | ErrInvalidMount string
  | ErrWriteLimit u64
  | ErrMemoryLimit u64

type_synonym 'a mresult = "mountError + 'a"

definition notFound :: "string \<Rightarrow> mountError" where
  "notFound vpath = ErrIO ioNotFound ''No such file or directory'' vpath"

definition isADirectory :: "string \<Rightarrow> mountError" where
  "isADirectory vpath = ErrIO ioIsADirectory ''Is a directory'' vpath"

definition notADirectory :: "string \<Rightarrow> mountError" where
  "notADirectory vpath = ErrIO ioNotADirectory ''Not a directory'' vpath"

definition fileExists :: "string \<Rightarrow> mountError" where
  "fileExists vpath = ErrIO ioAlreadyExists ''File exists'' vpath"

definition permissionDenied :: "string \<Rightarrow> mountError" where
  "permissionDenied vpath = ErrIO ioPermissionDenied ''Permission denied'' vpath"

definition directoryNotEmpty :: "string \<Rightarrow> mountError" where
  "directoryNotEmpty vpath = ErrIO ioDirectoryNotEmpty ''Directory not empty'' vpath"

lemmas io_error_defs = notFound_def isADirectory_def notADirectory_def fileExists_def
  permissionDenied_def directoryNotEmpty_def

section \<open>Operating system errors\<close>

text \<open>
  The error of an operating system call: the innermost error of the chain that the wrappers
  (\<^verbatim>\<open>PathError\<close>, \<^verbatim>\<open>LinkError\<close>) hold, which is an error number or, for the refusals of
  \<^verbatim>\<open>os.Root\<close>, a bare text. The text of a wrapper contains its operation and path before the
  inner text, so only the innermost text can be the confinement refusal.
\<close>

datatype errno =
    ENOENT | EEXIST | EACCES | EPERM | EISDIR | ENOTDIR | ENOTEMPTY | ENAMETOOLONG | EINVAL
  | ErrnoOther nat string

datatype oserr = OsErrno errno | OsText string

definition pathEscapesText :: string where
  "pathEscapesText = ''path escapes from parent''"

fun isPathEscape :: "oserr \<Rightarrow> bool" where
  "isPathEscape (OsText s) \<longleftrightarrow> s = pathEscapesText"
| "isPathEscape (OsErrno _) \<longleftrightarrow> False"

fun ioKindOf :: "oserr \<Rightarrow> ioKind" where
  "ioKindOf (OsText _) = ioOther"
| "ioKindOf (OsErrno ENOENT) = ioNotFound"
| "ioKindOf (OsErrno EEXIST) = ioAlreadyExists"
| "ioKindOf (OsErrno EACCES) = ioPermissionDenied"
| "ioKindOf (OsErrno EPERM) = ioPermissionDenied"
| "ioKindOf (OsErrno EISDIR) = ioIsADirectory"
| "ioKindOf (OsErrno ENOTDIR) = ioNotADirectory"
| "ioKindOf (OsErrno ENOTEMPTY) = ioDirectoryNotEmpty"
| "ioKindOf (OsErrno ENAMETOOLONG) = ioInvalidFilename"
| "ioKindOf (OsErrno EINVAL) = ioInvalidInput"
| "ioKindOf (OsErrno (ErrnoOther _ _)) = ioOther"

text \<open>The Linux numbers and texts of \<^verbatim>\<open>syscall.Errno\<close>.\<close>

fun errno_text :: "errno \<Rightarrow> string" where
  "errno_text ENOENT = ''no such file or directory''"
| "errno_text EEXIST = ''file exists''"
| "errno_text EACCES = ''permission denied''"
| "errno_text EPERM = ''operation not permitted''"
| "errno_text EISDIR = ''is a directory''"
| "errno_text ENOTDIR = ''not a directory''"
| "errno_text ENOTEMPTY = ''directory not empty''"
| "errno_text ENAMETOOLONG = ''file name too long''"
| "errno_text EINVAL = ''invalid argument''"
| "errno_text (ErrnoOther _ s) = s"

fun errno_num :: "errno \<Rightarrow> nat" where
  "errno_num ENOENT = 2"
| "errno_num EEXIST = 17"
| "errno_num EACCES = 13"
| "errno_num EPERM = 1"
| "errno_num EISDIR = 21"
| "errno_num ENOTDIR = 20"
| "errno_num ENOTEMPTY = 39"
| "errno_num ENAMETOOLONG = 36"
| "errno_num EINVAL = 22"
| "errno_num (ErrnoOther n _) = n"

definition capitalise :: "string \<Rightarrow> string" where
  "capitalise s =
     (case s of
        [] \<Rightarrow> []
      | c # cs \<Rightarrow>
          if CHR ''a'' \<le> c \<and> c \<le> CHR ''z'' then char_of (of_char c - 97 + 65 :: nat) # cs else s)"

fun ioDisplay :: "oserr \<Rightarrow> string" where
  "ioDisplay (OsErrno e) =
     capitalise (errno_text e) @ '' (os error '' @ dec (errno_num e) @ '')''"
| "ioDisplay (OsText s) = s"

definition mapIO :: "oserr \<Rightarrow> string \<Rightarrow> mountError" where
  "mapIO err vpath =
     (if isPathEscape err then ErrPathEscape vpath
      else ErrIO (ioKindOf err) (ioDisplay err) vpath)"

section \<open>Sizes as text\<close>

text \<open>
  Non-negative \<^verbatim>\<open>float64\<close> values as fractions: \<open>rne\<close> rounds a fraction to the nearest
  integer with ties to even, and \<open>fl64\<close> to the nearest number with a 53-bit significand,
  given as the significand \<open>m\<close> and the exponent \<open>e\<close> of \<open>m * 2 ^ e\<close>.
\<close>

definition rne :: "nat \<Rightarrow> nat \<Rightarrow> nat" where
  "rne p q =
     (let k = p div q; r = p mod q
      in if 2 * r < q then k else if q < 2 * r then k + 1 else if even k then k else k + 1)"

fun bitlen :: "nat \<Rightarrow> nat" where
  "bitlen n = (if n = 0 then 0 else Suc (bitlen (n div 2)))"

declare bitlen.simps [simp del]

definition scale2 :: "nat \<times> nat \<Rightarrow> int \<Rightarrow> nat \<times> nat" where
  "scale2 x s =
     (case x of (p, q) \<Rightarrow> if 0 \<le> s then (p * 2 ^ nat s, q) else (p, q * 2 ^ nat (- s)))"

definition fl64 :: "nat \<times> nat \<Rightarrow> nat \<times> int" where
  "fl64 x =
     (case x of (p, q) \<Rightarrow>
        if p = 0 then (0, 0)
        else let s0 = 53 + int (bitlen q) - int (bitlen p);
                 (p0, q0) = scale2 (p, q) s0;
                 s = (if 2 ^ 53 * q0 \<le> p0 then s0 - 1 else s0);
                 (p1, q1) = scale2 (p, q) s
             in (rne p1 q1, - s))"

abbreviation fl64_frac :: "nat \<times> nat \<Rightarrow> nat \<times> nat" where
  "fl64_frac x \<equiv> (case fl64 x of (m, e) \<Rightarrow> scale2 (m, 1) e)"

definition formatBytesPretty :: "u64 \<Rightarrow> string" where
  "formatBytesPretty n =
     (if n < 1000 then dec (unat n) @ '' bytes''
      else
        let (unit, name) =
              (if n < 1000000 then (1000, ''KB'')
               else if n < 1000000000 then (1000000, ''MB'')
               else if n < 1000000000000 then (1000000000, ''GB'')
               else (1000000000000, ''TB''));
            (a, b) = fl64_frac (unat n, 1);
            (p, q) = fl64_frac (a, b * unit);
            (p10, q10) = fl64_frac (10 * p, q);
            tenths = (2 * p10 + q10) div (2 * q10)
        in if tenths mod 10 = 0 then dec (rne p q) @ '' '' @ name
           else let t = rne (10 * p) q
                in dec (t div 10) @ ''.'' @ dec (t mod 10) @ '' '' @ name)"

section \<open>Rendering errors\<close>

definition unicodeDecodeErrorMsg :: "string \<Rightarrow> byte \<Rightarrow> nat \<Rightarrow> nat \<Rightarrow> string \<Rightarrow> string" where
  "unicodeDecodeErrorMsg codec firstByte start stop reason =
     (if int stop - int start = 1 then
        [CHR 0x27] @ codec @ [CHR 0x27] @ '' codec can'' @ [CHR 0x27] @ ''t decode byte 0x''
        @ hex_pad 2 (unat firstByte) @ '' in position '' @ dec start @ '': '' @ reason
      else
        [CHR 0x27] @ codec @ [CHR 0x27] @ '' codec can'' @ [CHR 0x27] @ ''t decode bytes in position ''
        @ dec start @ ''-'' @ dec_int (int stop - 1) @ '': '' @ reason)"

fun mountError_Error :: "mountError \<Rightarrow> string" where
  "mountError_Error (ErrNoMountPoint path) = ''no mount point for path: '' @ path"
| "mountError_Error (ErrPathEscape path) = ''path escape detected: '' @ path"
| "mountError_Error (ErrValue msg) = msg"
| "mountError_Error (ErrInvalidMount msg) = msg"
| "mountError_Error (ErrReadOnly path) = ''read-only mount: '' @ path"
| "mountError_Error (ErrCrossMount path dst) = ''cross-mount rename: '' @ path @ '' -> '' @ dst"
| "mountError_Error (ErrIO _ msg path) = ''I/O error on '' @ path @ '': '' @ msg"
| "mountError_Error (ErrInvalidUTF8 u) =
     ''invalid UTF-8 byte 0x'' @ hex_pad 2 (unat (ufFirstByte u)) @ '' at position ''
     @ dec (ufStart u)"
| "mountError_Error (ErrWriteLimit limit) =
     ''disk write limit of '' @ formatBytesPretty limit @ '' exceeded''"
| "mountError_Error (ErrMemoryLimit limit) =
     ''mount memory usage limit of '' @ formatBytesPretty limit @ '' exceeded''"

text \<open>The I/O kinds that have a Python exception and an error text of their own.\<close>

fun io_exception :: "ioKind \<Rightarrow> (string \<times> string) option" where
  "io_exception ioNotFound = Some (''FileNotFoundError'', ''[Errno 2] No such file or directory: '')"
| "io_exception ioAlreadyExists = Some (''FileExistsError'', ''[Errno 17] File exists: '')"
| "io_exception ioPermissionDenied = Some (''PermissionError'', ''[Errno 13] Permission denied: '')"
| "io_exception ioIsADirectory = Some (''IsADirectoryError'', ''[Errno 21] Is a directory: '')"
| "io_exception ioNotADirectory = Some (''NotADirectoryError'', ''[Errno 20] Not a directory: '')"
| "io_exception ioDirectoryNotEmpty = Some (''OSError'', ''[Errno 39] Directory not empty: '')"
| "io_exception ioInvalidFilename = Some (''OSError'', ''[Errno 36] File name too long: '')"
| "io_exception _ = None"

fun mountError_exception :: "(nat \<Rightarrow> bool) \<Rightarrow> mountError \<Rightarrow> wireException" where
  "mountError_exception isPrint (ErrNoMountPoint path) =
     NewException ''PermissionError'' (''[Errno 13] Permission denied: '' @ StringRepr isPrint path)"
| "mountError_exception isPrint (ErrPathEscape path) =
     NewException ''PermissionError'' (''[Errno 13] Permission denied: '' @ StringRepr isPrint path)"
| "mountError_exception isPrint (ErrValue msg) = NewException ''ValueError'' msg"
| "mountError_exception isPrint (ErrReadOnly path) =
     NewException ''PermissionError'' (''[Errno 30] Read-only file system: '' @ StringRepr isPrint path)"
| "mountError_exception isPrint (ErrCrossMount path dst) =
     NewException ''OSError'' (''[Errno 18] Invalid cross-device link: '' @ StringRepr isPrint path
       @ '' -> '' @ StringRepr isPrint dst)"
| "mountError_exception isPrint (ErrIO k msg path) =
     (case io_exception k of
        Some (t, m) \<Rightarrow> NewException t (m @ StringRepr isPrint path)
      | None \<Rightarrow> NewException ''OSError'' (msg @ '': '' @ StringRepr isPrint path))"
| "mountError_exception isPrint (ErrInvalidUTF8 u) =
     (NewException ''UnicodeDecodeError''
        (unicodeDecodeErrorMsg ''utf-8'' (ufFirstByte u) (ufStart u) (ufEnd u) (ufReason u)))
     \<lparr>excPayload :=
        (case ufObject u of
           None \<Rightarrow> None
         | Some obj \<Rightarrow>
             Some \<lparr>edUnicode = Some \<lparr>uEncoding = ''utf-8'', uObjectBytes = obj, uObjectStr = None,
                    uStart = of_nat (ufStart u), uEnd = of_nat (ufEnd u), uReason = ufReason u\<rparr>,
                  edJSON = None\<rparr>)\<rparr>"
| "mountError_exception isPrint (ErrInvalidMount msg) = NewException ''TypeError'' msg"
| "mountError_exception isPrint (ErrWriteLimit limit) =
     NewException ''OSError'' (''disk write limit of '' @ formatBytesPretty limit @ '' exceeded'')"
| "mountError_exception isPrint (ErrMemoryLimit limit) =
     NewException ''MemoryError''
       (''mount memory usage limit of '' @ formatBytesPretty limit @ '' exceeded'')"

section \<open>Decoding file contents\<close>

definition maxUnicodeObjectLen :: nat where
  "maxUnicodeObjectLen = 64 * 1024"

definition bytesToUTF8 :: "bytes \<Rightarrow> string mresult" where
  "bytesToUTF8 b =
     (case utf8Check b of
        (start, errLen, ok) \<Rightarrow>
          if ok then Inr (string_of_bytes b)
          else Inl (ErrInvalidUTF8
                 \<lparr>ufStart = start,
                  ufEnd = (if 0 < errLen then start + errLen else length b),
                  ufFirstByte = b ! start,
                  ufReason = utf8ErrorReason (b ! start) errLen,
                  ufObject = (if length b \<le> maxUnicodeObjectLen then Some b else None)\<rparr>))"

lemma utf8Check_fails_before_end:
  "utf8Check v = (n, l, False) \<Longrightarrow> n < length v"
  using utf8Check_ok_iff [of v] utf8Check_bound [of v n l False]
  by (metis fst_conv le_neq_implies_less order_refl snd_conv take_all)


end
