(* ===== verification/PathPolicy.thy ===== *)
theory PathPolicy
  imports MountErrors
begin

text \<open>
  From virtual paths to paths inside a mount: \<^verbatim>\<open>internal/mountfs/pathpolicy.go\<close> and
  \<^verbatim>\<open>mode.go\<close>.
\<close>

section \<open>Modes\<close>

datatype mode = ModeReadOnly | ModeReadWrite | ModeOverlay

text \<open>A mode that the text names, or the refused text.\<close>

definition ParseMode :: "string \<Rightarrow> string + mode" where
  "ParseMode s =
     (if s = ''read-only'' then Inr ModeReadOnly
      else if s = ''read-write'' then Inr ModeReadWrite
      else if s = ''overlay'' then Inr ModeOverlay
      else Inl (''Invalid mode '' @ [CHR 0x27] @ s @ [CHR 0x27] @ '', expected '' @ [CHR 0x27]
        @ ''read-only'' @ [CHR 0x27] @ '', '' @ [CHR 0x27] @ ''read-write'' @ [CHR 0x27]
        @ '', or '' @ [CHR 0x27] @ ''overlay'' @ [CHR 0x27]))"

fun Mode_String :: "mode \<Rightarrow> string" where
  "Mode_String ModeReadOnly = ''read-only''"
| "Mode_String ModeReadWrite = ''read-write''"
| "Mode_String ModeOverlay = ''overlay''"

section \<open>Operations\<close>

definition pathMax :: nat where "pathMax = 4096"
definition nameMax :: nat where "nameMax = 255"
definition depthMax :: nat where "depthMax = 64"
definition errorPathEdge :: nat where "errorPathEdge = 20"

definition dirOp :: "string \<Rightarrow> string" where
  "dirOp rel = (if rel = [] then ''.'' else rel)"

definition containsNullByte :: "string \<Rightarrow> bool" where
  "containsNullByte path \<longleftrightarrow> index_byte CHR 0x00 path \<noteq> None"

definition rejectNullBytes :: "string \<Rightarrow> mountError option" where
  "rejectNullBytes path =
     (if containsNullByte path then Some (ErrValue ''embedded null byte'') else None)"

definition stripMountPrefix :: "string \<Rightarrow> string \<Rightarrow> string option" where
  "stripMountPrefix normalized mountVirtual =
     (if mountVirtual = ''/'' then Some (trim_prefix ''/'' normalized)
      else if normalized = mountVirtual then Some []
      else case cut_prefix mountVirtual normalized of
             None \<Rightarrow> None
           | Some rest \<Rightarrow> cut_prefix ''/'' rest)"

definition isWindowsDrivePrefix :: "string \<Rightarrow> bool" where
  "isWindowsDrivePrefix seg \<longleftrightarrow>
     (if length seg < 2 \<or> seg ! 1 \<noteq> CHR '':'' then False
      else let c = seg ! 0
           in (c \<ge> CHR ''a'' \<and> c \<le> CHR ''z'') \<or> (c \<ge> CHR ''A'' \<and> c \<le> CHR ''Z''))"

definition rejectDriveOrUNCSegments :: "string \<Rightarrow> string \<Rightarrow> mountError option" where
  "rejectDriveOrUNCSegments rel normalized =
     (if CHR 0x5C \<in> set rel then Some (ErrPathEscape normalized)
      else if list_ex isWindowsDrivePrefix (split_on CHR ''/'' rel)
        then Some (ErrPathEscape normalized)
      else None)"

definition resolveVirtualPath :: "string \<Rightarrow> string \<Rightarrow> string mresult" where
  "resolveVirtualPath vpath mountVirtual =
     (case rejectNullBytes vpath of
        Some e \<Rightarrow> Inl e
      | None \<Rightarrow>
          let normalized = NormalizeVirtualPath vpath
          in case stripMountPrefix normalized mountVirtual of
               None \<Rightarrow> Inl (ErrNoMountPoint vpath)
             | Some rel \<Rightarrow>
                 (case rejectDriveOrUNCSegments rel normalized of
                    Some e \<Rightarrow> Inl e
                  | None \<Rightarrow> Inr rel))"

lemma index_byte_SomeD:
  "index_byte d s = Some i \<Longrightarrow> i < length s \<and> d \<notin> set (take i s) \<and> s = take i s @ d # drop (i + 1) s"
  by (induction s arbitrary: i) (auto split: if_splits)

text \<open>The loop of \<^verbatim>\<open>isOverlong\<close>: it stops at \<open>depthMax\<close> components.\<close>

function isOverlongLoop :: "nat \<Rightarrow> string \<Rightarrow> bool" where
  "isOverlongLoop count rest =
     (if count = depthMax then True
      else case index_byte CHR ''/'' rest of
             None \<Rightarrow> nameMax < length rest
           | Some idx \<Rightarrow>
               if nameMax < length (take idx rest) then True
               else isOverlongLoop (count + 1) (drop (idx + 1) rest))"
  by pat_completeness auto
termination
  by (relation "measure (\<lambda>(count, rest). length rest)")
    (auto dest!: index_byte_SomeD)

declare isOverlongLoop.simps [simp del]

definition isOverlong :: "string \<Rightarrow> bool" where
  "isOverlong path \<longleftrightarrow> pathMax < length path \<or> isOverlongLoop 0 path"

definition elideMiddle :: "string \<Rightarrow> string option" where
  "elideMiddle path =
     (let starts = map fst (go_range 0 (bytes_of_string path)); n = length starts
      in if n < 2 * errorPathEdge + 1 then None
         else Some (take (starts ! errorPathEdge) path
                @ [CHR 0xE2, CHR 0x80, CHR 0xA6] @ drop (starts ! (n - errorPathEdge)) path))"

definition rejectOverlongPath :: "string \<Rightarrow> mountError option" where
  "rejectOverlongPath path =
     (if \<not> isOverlong path then None
      else let shown = (case elideMiddle path of Some elided \<Rightarrow> elided | None \<Rightarrow> path)
           in Some (ErrIO ioInvalidFilename ''File name too long'' shown))"

definition formatChildPath :: "string \<Rightarrow> string \<Rightarrow> string" where
  "formatChildPath parent child =
     (if suffix ''/'' parent then parent @ child else parent @ ''/'' @ child)"

definition joinMountRelative :: "string \<Rightarrow> string \<Rightarrow> string" where
  "joinMountRelative rel child =
     (if rel = [] \<or> rel = ''.'' then child else rel @ ''/'' @ child)"

section \<open>Stripping the mount prefix\<close>

lemma render_abs_join: "st \<noteq> [] \<Longrightarrow> render_abs st = CHR ''/'' # join_on CHR ''/'' st"
  by (induction "CHR ''/''" st rule: join_on.induct) (auto simp: render_abs_def)

lemma render_abs_append: "render_abs (st @ st') = render_abs st @ render_abs st'"
  by (simp add: render_abs_def)

lemma split_on_append: "split_on d (s @ d # t) = split_on d s @ split_on d t"
  by (induction s) (auto split: list.splits)

lemma cut_prefix_None_iff: "cut_prefix p s = None \<longleftrightarrow> (\<forall>r. s \<noteq> p @ r)"
  by (metis cut_prefix_Some_iff not_None_eq)

lemma normalized_render:
  "isNormalizedVirtualPath m \<Longrightarrow> m = (if path_segments m = [] then ''/'' else render_abs (path_segments m))"
  by (rule trans [OF _ NormalizeVirtualPath_segments]) (simp add: NormalizeVirtualPath_def)

text \<open>
  On normalised paths the mount prefix is a prefix of components, not only of bytes:
  \<^verbatim>\<open>/mnt2\<close> is not under \<^verbatim>\<open>/mnt\<close>.
\<close>

lemma stripMountPrefix_iff:
  assumes m: "isNormalizedVirtualPath m"
  shows "stripMountPrefix (NormalizeVirtualPath p) m = Some rel \<longleftrightarrow>
    (\<exists>segs. path_segments p = path_segments m @ segs \<and> rel = join_on CHR ''/'' segs)"
proof -
  define ps ms where "ps = path_segments p" and "ms = path_segments m"
  have names: "list_all name_seg ps" "list_all name_seg ms"
    by (simp_all add: ps_def ms_def path_segments_names)
  have np: "NormalizeVirtualPath p = (if ps = [] then ''/'' else render_abs ps)"
    by (simp add: NormalizeVirtualPath_segments ps_def)
  have nm: "m = (if ms = [] then ''/'' else render_abs ms)"
    unfolding ms_def by (rule normalized_render [OF m])
  have "stripMountPrefix (NormalizeVirtualPath p) m = Some rel \<longleftrightarrow>
    (\<exists>segs. ps = ms @ segs \<and> rel = join_on CHR ''/'' segs)"
  proof (cases "ms = []")
    case True
    then have "m = ''/''" using nm by simp
    then show ?thesis
      using True by (auto simp: stripMountPrefix_def np trim_prefix_def cut_prefix_def render_abs_join)
  next
    case False
    then have mr: "m = render_abs ms" using nm by simp
    have root: "m \<noteq> ''/''" using False names(2) path_segments_render [of ms] mr by auto
    show ?thesis
    proof (cases "ps = []")
      case True
      have "cut_prefix m ''/'' = None"
        using root False by (cases ms) (auto simp: mr render_abs_def cut_prefix_def)
      with True False root show ?thesis by (simp add: stripMountPrefix_def np)
    next
      case ps: False
      have eq_iff: "render_abs ps = m \<longleftrightarrow> ps = ms"
        unfolding mr using names by (metis path_segments_render)
      have "render_abs ps = m @ ''/'' @ rel \<longleftrightarrow> (\<exists>segs. segs \<noteq> [] \<and> ps = ms @ segs
          \<and> rel = join_on CHR ''/'' segs)"
      proof
        assume "render_abs ps = m @ ''/'' @ rel"
        then have "split_on CHR ''/'' (render_abs ps) = split_on CHR ''/'' m @ split_on CHR ''/'' rel"
          by (simp add: split_on_append)
        then have "ps = ms @ split_on CHR ''/'' rel"
          using split_render_abs(2) [OF names(1) ps] split_render_abs(2) [OF names(2) False] mr by simp
        then show "\<exists>segs. segs \<noteq> [] \<and> ps = ms @ segs \<and> rel = join_on CHR ''/'' segs"
          by (intro exI [of _ "split_on CHR ''/'' rel"]) simp
      qed (auto simp: mr render_abs_append render_abs_join)
      moreover have "stripMountPrefix (NormalizeVirtualPath p) m = Some rel \<longleftrightarrow>
          (if ps = ms then rel = [] else render_abs ps = m @ ''/'' @ rel)"
        using ps root
        by (auto simp: stripMountPrefix_def np eq_iff cut_prefix_Some_iff cut_prefix_None_iff
            split: option.splits)
      ultimately show ?thesis by auto
    qed
  qed
  then show ?thesis by (simp add: ps_def ms_def)
qed

lemma foldl_stack_step_set: "set (foldl stack_step st segs) \<subseteq> set st \<union> set segs"
proof (induction segs arbitrary: st)
  case (Cons a segs)
  have "set (stack_step st a) \<subseteq> insert a (set st)"
    by (auto simp: stack_step_def dest: in_set_butlastD)
  with Cons [of "stack_step st a"] show ?case by auto
qed simp

lemma path_segments_chars: "seg \<in> set (path_segments p) \<Longrightarrow> set seg \<subseteq> set p"
  using foldl_stack_step_set [of "[]" "split_on CHR ''/'' p"] split_on_subset [of seg "CHR ''/''" p]
  by (auto simp: path_segments_def)

lemma set_join_on: "set (join_on d ss) \<subseteq> insert d (\<Union> (set ` set ss))"
  by (induction d ss rule: join_on.induct) auto

lemma resolveVirtualPath_Inr_iff:
  "resolveVirtualPath vpath m = Inr rel \<longleftrightarrow>
     CHR 0x00 \<notin> set vpath \<and> stripMountPrefix (NormalizeVirtualPath vpath) m = Some rel
     \<and> CHR 0x5C \<notin> set rel \<and> (\<forall>seg\<in>set (split_on CHR ''/'' rel). \<not> isWindowsDrivePrefix seg)"
proof (cases "stripMountPrefix (NormalizeVirtualPath vpath) m")
  case None
  then show ?thesis
    by (simp add: resolveVirtualPath_def rejectNullBytes_def containsNullByte_def Let_def)
next
  case (Some r)
  then show ?thesis
    by (auto simp: resolveVirtualPath_def rejectNullBytes_def containsNullByte_def Let_def
        rejectDriveOrUNCSegments_def list_ex_iff)
qed

section \<open>Properties\<close>

lemma resolveVirtualPath_segs:
  assumes m: "isNormalizedVirtualPath m"
    and r: "resolveVirtualPath vpath m = Inr rel"
  shows "\<exists>segs. path_segments vpath = path_segments m @ segs \<and> rel = join_on CHR ''/'' segs
    \<and> list_all name_seg segs \<and> CHR 0x00 \<notin> set rel \<and> CHR 0x5C \<notin> set rel
    \<and> (\<forall>seg\<in>set segs. \<not> isWindowsDrivePrefix seg)"
proof -
  from r have nul: "CHR 0x00 \<notin> set vpath"
    and strip: "stripMountPrefix (NormalizeVirtualPath vpath) m = Some rel"
    and bs: "CHR 0x5C \<notin> set rel"
    and drive: "\<forall>seg\<in>set (split_on CHR ''/'' rel). \<not> isWindowsDrivePrefix seg"
    by (simp_all add: resolveVirtualPath_Inr_iff)
  from strip obtain segs where segs: "path_segments vpath = path_segments m @ segs"
    and rel: "rel = join_on CHR ''/'' segs"
    using stripMountPrefix_iff [OF m] by blast
  have names: "list_all name_seg segs"
    using path_segments_names [of vpath] segs by (simp add: list_all_iff)
  have "set seg \<subseteq> set vpath" if "seg \<in> set segs" for seg
    using that path_segments_chars [of seg vpath] segs by simp
  then have "set rel \<subseteq> insert CHR ''/'' (set vpath)"
    using set_join_on [of "CHR ''/''" segs] by (auto simp: rel)
  with nul have "CHR 0x00 \<notin> set rel" by auto
  moreover have "\<forall>seg\<in>set segs. \<not> isWindowsDrivePrefix seg"
  proof (cases "segs = []")
    case False
    then have "split_on CHR ''/'' rel = segs"
      unfolding rel using names by (intro split_join) (auto simp: list_all_iff name_seg_def)
    with drive show ?thesis by simp
  qed simp
  ultimately show ?thesis using segs rel names bs by blast
qed

text \<open>
  C22. Confinement. A path that \<^verbatim>\<open>resolveVirtualPath\<close> resolves is below the mount: its
  components are the mount's components followed by the components of the result. The
  components of the result are plain names (none is empty, \<open>.\<close> or \<open>..\<close>, and none holds a slash),
  the result holds no NUL byte and no backslash, and no component is a Windows drive.
\<close>

theorem resolveVirtualPath_confined:
  assumes m: "isNormalizedVirtualPath m"
    and r: "resolveVirtualPath vpath m = Inr rel"
  shows "\<exists>segs. path_segments vpath = path_segments m @ segs \<and> rel = join_on CHR ''/'' segs
    \<and> list_all name_seg segs \<and> CHR 0x00 \<notin> set rel \<and> CHR 0x5C \<notin> set rel
    \<and> (\<forall>seg\<in>set segs. \<not> isWindowsDrivePrefix seg)"
  by (rule resolveVirtualPath_segs [OF assms])

theorem resolveVirtualPath_confined_witness:
  "resolveVirtualPath ''/mnt/../mnt/a//b/.'' ''/mnt'' = Inr ''a/b''
   \<and> (\<exists>segs. path_segments ''/mnt/../mnt/a//b/.'' = path_segments ''/mnt'' @ segs
        \<and> ''a/b'' = join_on CHR ''/'' segs \<and> list_all name_seg segs)"
proof -
  have h: "resolveVirtualPath ''/mnt/../mnt/a//b/.'' ''/mnt'' = Inr ''a/b''"
    "isNormalizedVirtualPath ''/mnt''" by code_simp+
  show ?thesis using h(1) resolveVirtualPath_confined [OF h(2) h(1)] by blast
qed

text \<open>
  Completeness of the resolution: a path without NUL bytes whose components begin with the
  mount's and whose remaining components hold neither a backslash nor a drive is always
  resolved, to those remaining components.
\<close>

theorem resolveVirtualPath_complete:
  assumes m: "isNormalizedVirtualPath m"
    and segs: "path_segments vpath = path_segments m @ segs"
    and "CHR 0x00 \<notin> set vpath"
    and clean: "\<forall>seg\<in>set segs. CHR 0x5C \<notin> set seg \<and> \<not> isWindowsDrivePrefix seg"
  shows "resolveVirtualPath vpath m = Inr (join_on CHR ''/'' segs)"
proof -
  have names: "list_all name_seg segs"
    using path_segments_names [of vpath] segs by (simp add: list_all_iff)
  have "CHR 0x5C \<notin> set (join_on CHR ''/'' segs)"
    using set_join_on [of "CHR ''/''" segs] clean by auto
  moreover have "\<forall>seg\<in>set (split_on CHR ''/'' (join_on CHR ''/'' segs)). \<not> isWindowsDrivePrefix seg"
  proof (cases "segs = []")
    case True
    then show ?thesis by (simp add: isWindowsDrivePrefix_def)
  next
    case False
    then have "split_on CHR ''/'' (join_on CHR ''/'' segs) = segs"
      using names by (intro split_join) (auto simp: list_all_iff name_seg_def)
    with clean show ?thesis by simp
  qed
  ultimately show ?thesis
    using assms by (simp add: resolveVirtualPath_Inr_iff stripMountPrefix_iff)
qed

theorem resolveVirtualPath_complete_witness:
  "resolveVirtualPath ''/mnt/a/../b'' ''/mnt'' = Inr ''b''"
proof -
  have "isNormalizedVirtualPath ''/mnt''"
    "path_segments ''/mnt/a/../b'' = path_segments ''/mnt'' @ [''b'']"
    "CHR 0x00 \<notin> set ''/mnt/a/../b''"
    "\<forall>seg\<in>set [''b'']. CHR 0x5C \<notin> set seg \<and> \<not> isWindowsDrivePrefix seg" by code_simp+
  from resolveVirtualPath_complete [OF this] show ?thesis by simp
qed

lemma isOverlongLoop_iff:
  "count \<le> depthMax \<Longrightarrow> isOverlongLoop count rest \<longleftrightarrow>
     (let comps = split_on CHR ''/'' rest
      in depthMax < count + length comps \<or> (\<exists>comp\<in>set comps. nameMax < length comp))"
proof (induction count rest rule: isOverlongLoop.induct)
  case (1 count rest)
  show ?case
  proof (cases "count = depthMax")
    case True
    moreover have "0 < length (split_on CHR ''/'' rest)" by (simp only: length_greater_0_conv) simp
    ultimately show ?thesis by (simp add: isOverlongLoop.simps)
  next
    case less: False
    show ?thesis
    proof (cases "index_byte CHR ''/'' rest")
      case None
      then have "isOverlongLoop count rest \<longleftrightarrow> nameMax < length rest"
        using less by (subst isOverlongLoop.simps) (simp only: option.case if_False)
      then show ?thesis using None less "1.prems" by (simp add: split_on_no_sep)
    next
      case (Some idx)
      from index_byte_SomeD [OF Some] have fresh: "CHR ''/'' \<notin> set (take idx rest)"
        and rest: "rest = take idx rest @ CHR ''/'' # drop (idx + 1) rest" by blast+
      have "split_on CHR ''/'' rest = take idx rest # split_on CHR ''/'' (drop (idx + 1) rest)"
        using split_on_append_sep [OF fresh, of "drop (idx + 1) rest", folded rest] .
      then show ?thesis
        using less "1.prems" "1.IH" [OF less Some]
        by (subst isOverlongLoop.simps) (auto simp: Some Let_def)
    qed
  qed
qed

text \<open>
  \<^verbatim>\<open>isOverlong\<close> refuses a path exactly when it is longer than 4096 bytes, has more than
  64 components as it is written (a leading slash counts as an empty component), or has a
  component longer than 255 bytes.
\<close>

theorem isOverlong_iff:
  "isOverlong path \<longleftrightarrow>
     4096 < length path \<or> 64 < length (split_on CHR ''/'' path)
     \<or> (\<exists>comp. comp \<in> set (split_on CHR ''/'' path) \<and> 255 < length comp)"
  using isOverlongLoop_iff [of 0 path]
  by (auto simp: isOverlong_def pathMax_def depthMax_def nameMax_def Let_def)

text \<open>
  The path that the error for an overlong path shows is at most 163 bytes long, whatever
  the path: twenty runes from each end and the ellipsis, or a path of at most forty runes.
\<close>

theorem rejectOverlongPath_bounded:
  assumes "rejectOverlongPath path = Some e"
  shows "\<exists>shown. e = ErrIO ioInvalidFilename ''File name too long'' shown \<and> length shown \<le> 163"
proof -
  define rs where "rs = go_range 0 (bytes_of_string path)"
  note start = go_range_start [of _ 0 "bytes_of_string path", folded rs_def]
  have len: "length path \<le> 4 * length rs"
  proof (cases "rs = []")
    case True
    then show ?thesis
      by (cases path) (simp_all add: rs_def go_range.simps bytes_of_string_def split: prod.splits)
  qed (use start(2,4) [of 0] in simp)
  show ?thesis
  proof (cases "length rs < 41")
    case True
    then have "elideMiddle path = None"
      by (simp add: elideMiddle_def errorPathEdge_def Let_def flip: rs_def)
    with assms have "e = ErrIO ioInvalidFilename ''File name too long'' path"
      by (simp add: rejectOverlongPath_def split: if_splits)
    with True len show ?thesis by simp
  next
    case False
    then have "elideMiddle path = Some (take (fst (rs ! 20)) path
        @ [CHR 0xE2, CHR 0x80, CHR 0xA6] @ drop (fst (rs ! (length rs - 20))) path)"
      by (simp add: elideMiddle_def errorPathEdge_def Let_def flip: rs_def)
    moreover have "fst (rs ! 20) \<le> 80" "length path \<le> fst (rs ! (length rs - 20)) + 80"
      using False start(2) [of 20] start(4) [of "length rs - 20"] by simp_all
    moreover have "\<exists>shown. elideMiddle path = Some shown
        \<and> e = ErrIO ioInvalidFilename ''File name too long'' shown"
      using assms calculation(1) by (simp add: rejectOverlongPath_def split: if_splits)
    ultimately show ?thesis by auto
  qed
qed

theorem rejectOverlongPath_bounded_witness:
  "\<exists>shown. rejectOverlongPath (replicate 300 CHR ''a'')
     = Some (ErrIO ioInvalidFilename ''File name too long'' shown) \<and> length shown \<le> 163"
proof -
  have "isOverlong (replicate 300 CHR ''a'')"
    by (simp add: isOverlong_def isOverlongLoop_iff split_on_no_sep depthMax_def nameMax_def Let_def)
  then obtain e where e: "rejectOverlongPath (replicate 300 CHR ''a'') = Some e"
    by (simp add: rejectOverlongPath_def)
  show ?thesis using e rejectOverlongPath_bounded [OF e] by auto
qed

end
