(* ===== verification/OverlayState.thy ===== *)
theory OverlayState
  imports PathPolicy
begin

text \<open>
  The memory accounting of overlay mounts: \<^verbatim>\<open>internal/mountfs/overlay_state.go\<close>. The state
  is a map from mount-relative keys to entries, the sorted slice of its keys, and the number of
  bytes charged for it.
\<close>

section \<open>Data\<close>

definition entryMemoryUsage :: u64 where "entryMemoryUsage = 256"
definition overlayEntrySize :: u64 where "overlayEntrySize = 48"
definition realDescendantMemoryUsage :: u64 where "realDescendantMemoryUsage = 512"

text \<open>One constructor per \<^verbatim>\<open>entryKind\<close>, with the fields that the sources set for the kind.\<close>

datatype overlayEntry =
    EntFile (entContent: bytes) (entMtime: gofloat)
  | EntRealFileRef (entRelative: string) (entMtime: gofloat) (entSize: int)
  | EntDirectory (entMtime: gofloat)
  | EntDeleted

record overlayState =
  ovEntries :: "string \<rightharpoonup> overlayEntry"
  ovKeys :: "string list"
  ovUsage :: u64

definition newOverlayState :: overlayState where
  "newOverlayState = \<lparr>ovEntries = Map.empty, ovKeys = [], ovUsage = 0\<rparr>"

section \<open>Operations\<close>

definition baseEntryUsage :: "string \<Rightarrow> u64" where
  "baseEntryUsage key = satAdd (satAdd entryMemoryUsage (golen key)) overlayEntrySize"

definition entryUsage :: "string \<Rightarrow> overlayEntry \<Rightarrow> u64" where
  "entryUsage key e =
     satAdd (baseEntryUsage key)
       (case e of
          EntFile content _ \<Rightarrow> golen content
        | EntRealFileRef relative _ _ \<Rightarrow> golen relative
        | _ \<Rightarrow> 0)"

definition ov_get :: "overlayState \<Rightarrow> string \<Rightarrow> overlayEntry option" where
  "ov_get s key = ovEntries s key"

definition memoryUsage :: "overlayState \<Rightarrow> u64" where
  "memoryUsage s = ovUsage s"

text \<open>\<^verbatim>\<open>sort.SearchStrings\<close>: binary search for the first index whose element is not less.\<close>

function search_from :: "string list \<Rightarrow> string \<Rightarrow> nat \<Rightarrow> nat \<Rightarrow> nat" where
  "search_from xs x i j =
     (if i < j then
        let h = (i + j) div 2
        in if xs ! h < x then search_from xs x (h + 1) j else search_from xs x i h
      else i)"
  by pat_completeness auto
termination
  by (relation "measure (\<lambda>(xs, x, i, j). j - i)") auto

declare search_from.simps [simp del]

definition SearchStrings :: "string list \<Rightarrow> string \<Rightarrow> nat" where
  "SearchStrings xs x = search_from xs x 0 (length xs)"

definition ov_put :: "overlayState \<Rightarrow> string \<Rightarrow> overlayEntry \<Rightarrow> overlayState" where
  "ov_put s key e =
     (let keys = (if ovEntries s key = None then
                    let i = SearchStrings (ovKeys s) key
                    in take i (ovKeys s) @ key # drop i (ovKeys s)
                  else ovKeys s)
      in s\<lparr>ovKeys := keys, ovEntries := (ovEntries s)(key \<mapsto> e)\<rparr>)"

definition ov_remove :: "overlayState \<Rightarrow> string \<Rightarrow> overlayState \<times> overlayEntry option" where
  "ov_remove s key =
     (case ovEntries s key of
        None \<Rightarrow> (s, None)
      | Some e \<Rightarrow>
          let i = SearchStrings (ovKeys s) key
          in (s\<lparr>ovEntries := (ovEntries s)(key := None),
                ovKeys := take i (ovKeys s) @ drop (i + 1) (ovKeys s),
                ovUsage := satSub (ovUsage s) (entryUsage key e)\<rparr>,
              Some e))"

definition oldUsage :: "overlayState \<Rightarrow> string \<Rightarrow> u64" where
  "oldUsage s key = (case ovEntries s key of Some prev \<Rightarrow> entryUsage key prev | None \<Rightarrow> 0)"

definition projectedUsage :: "overlayState \<Rightarrow> string \<Rightarrow> overlayEntry \<Rightarrow> u64" where
  "projectedUsage s key e = satAdd (satSub (ovUsage s) (oldUsage s key)) (entryUsage key e)"

definition ov_insert :: "overlayState \<Rightarrow> string \<Rightarrow> overlayEntry \<Rightarrow> u64 \<Rightarrow> overlayState mresult" where
  "ov_insert s key e limit =
     (let projected = projectedUsage s key e
      in if limit < projected then Inl (ErrMemoryLimit limit)
         else Inr ((ov_put s key e)\<lparr>ovUsage := projected\<rparr>))"

definition insertUnchecked :: "overlayState \<Rightarrow> string \<Rightarrow> overlayEntry \<Rightarrow> overlayState" where
  "insertUnchecked s key e =
     ov_put (s\<lparr>ovUsage := projectedUsage s key e\<rparr>) key e"

text \<open>The result of \<^verbatim>\<open>appendFile\<close>: an error, or the new state and whether it appended.\<close>

definition appendFile ::
  "overlayState \<Rightarrow> string \<Rightarrow> bytes \<Rightarrow> gofloat \<Rightarrow> u64 \<Rightarrow> (overlayState \<times> bool) mresult" where
  "appendFile s key data mtime limit =
     (case ovEntries s key of
        Some (EntFile content _) \<Rightarrow>
          let projected = satAdd (ovUsage s) (golen data)
          in if limit < projected then Inl (ErrMemoryLimit limit)
             else Inr (s\<lparr>ovEntries := (ovEntries s)(key \<mapsto> EntFile (content @ data) mtime),
                         ovUsage := projected\<rparr>, True)
      | _ \<Rightarrow> Inr (s, False))"

definition checkFileReplacement ::
  "overlayState \<Rightarrow> string \<Rightarrow> u64 \<Rightarrow> u64 \<Rightarrow> mountError option" where
  "checkFileReplacement s key contentLen limit =
     (if limit < satAdd (satSub (ovUsage s) (oldUsage s key)) (satAdd (baseEntryUsage key) contentLen)
      then Some (ErrMemoryLimit limit) else None)"

type_synonym replacement = "string \<times> overlayEntry"

text \<open>The loop of \<^verbatim>\<open>checkReplacements\<close>, with the map of the usages replaced so far.\<close>

fun replacementLoop ::
  "overlayState \<Rightarrow> replacement list \<Rightarrow> (string \<rightharpoonup> u64) \<Rightarrow> u64 \<Rightarrow> u64" where
  "replacementLoop s [] replaced projected = projected"
| "replacementLoop s ((key, e) # batch) replaced projected =
     (let old = (case replaced key of Some u \<Rightarrow> u | None \<Rightarrow> oldUsage s key);
          next = entryUsage key e
      in replacementLoop s batch (replaced(key \<mapsto> next)) (satAdd (satSub projected old) next))"

definition checkReplacements :: "overlayState \<Rightarrow> replacement list \<Rightarrow> u64 \<Rightarrow> mountError option" where
  "checkReplacements s batch limit =
     (if limit < replacementLoop s batch Map.empty (ovUsage s) then Some (ErrMemoryLimit limit)
      else None)"

definition prefixKeys :: "overlayState \<Rightarrow> string \<Rightarrow> string list" where
  "prefixKeys s p =
     (if p = [] then ovKeys s
      else let start = SearchStrings (ovKeys s) p;
               stop = SearchStrings (ovKeys s) (butlast p @ ''0'')
           in drop start (take stop (ovKeys s)))"

section \<open>The invariant\<close>

definition key_cost :: "(string \<rightharpoonup> overlayEntry) \<Rightarrow> string \<Rightarrow> nat" where
  "key_cost m k = (case m k of Some e \<Rightarrow> unat (entryUsage k e) | None \<Rightarrow> 0)"

definition total_cost :: "(string \<rightharpoonup> overlayEntry) \<Rightarrow> nat" where
  "total_cost m = (\<Sum>k\<in>dom m. key_cost m k)"

definition ov_inv :: "overlayState \<Rightarrow> bool" where
  "ov_inv s \<longleftrightarrow>
     sorted (ovKeys s) \<and> distinct (ovKeys s) \<and> set (ovKeys s) = dom (ovEntries s)
     \<and> unat (ovUsage s) = total_cost (ovEntries s)"

subsection \<open>Binary search\<close>

lemma search_from_stop: "\<not> i < j \<Longrightarrow> search_from xs x i j = i"
  by (subst search_from.simps) simp

lemma search_from_step:
  "i < j \<Longrightarrow> search_from xs x i j =
     (if xs ! ((i + j) div 2) < x then search_from xs x ((i + j) div 2 + 1) j
      else search_from xs x i ((i + j) div 2))"
  by (subst search_from.simps) (simp add: Let_def)

text \<open>On a sorted slice the search ends at the number of elements below the key.\<close>

lemma search_from_split:
  assumes "sorted xs" "i \<le> j" "j \<le> length xs"
    and "\<forall>k<i. xs ! k < x" and "\<forall>k. j \<le> k \<and> k < length xs \<longrightarrow> x \<le> xs ! k"
  shows "search_from xs x i j \<le> j \<and> (\<forall>k < search_from xs x i j. xs ! k < x)
    \<and> (\<forall>k. search_from xs x i j \<le> k \<and> k < length xs \<longrightarrow> x \<le> xs ! k)"
  using assms
proof (induction xs x i j rule: search_from.induct)
  case (1 xs x i j)
  show ?case
  proof (cases "i < j")
    case False
    with "1.prems" show ?thesis by (simp add: search_from_stop)
  next
    case True
    define h where "h = (i + j) div 2"
    with True have h: "i \<le> h" "h < j" by auto
    note step = search_from_step [OF True, of xs x, folded h_def]
    show ?thesis
    proof (cases "xs ! h < x")
      case less: True
      have "xs ! k < x" if "k < h + 1" for k
        using that less h "1.prems"(1,3) sorted_nth_mono [of xs k h] by simp
      with "1.IH"(1) [OF True h_def less] "1.prems" h less
      show ?thesis by (simp add: step)
    next
      case ge: False
      have "x \<le> xs ! k" if "h \<le> k" "k < length xs" for k
        using that ge "1.prems"(1) sorted_nth_mono [of xs h k] by simp
      with "1.IH"(2) [OF True h_def ge] "1.prems" h ge
      show ?thesis by (simp add: step)
    qed
  qed
qed

lemma SearchStrings_spec:
  assumes "sorted xs"
  shows "SearchStrings xs x \<le> length xs"
    and "take (SearchStrings xs x) xs = filter (\<lambda>k. k < x) xs"
    and "drop (SearchStrings xs x) xs = filter (\<lambda>k. x \<le> k) xs"
proof -
  define n where "n = SearchStrings xs x"
  have "n \<le> length xs \<and> (\<forall>k<n. xs ! k < x) \<and> (\<forall>k. n \<le> k \<and> k < length xs \<longrightarrow> x \<le> xs ! k)"
    unfolding n_def SearchStrings_def by (rule search_from_split [OF assms]) auto
  then have n: "n \<le> length xs" "\<forall>k<n. xs ! k < x" "\<forall>k. n \<le> k \<and> k < length xs \<longrightarrow> x \<le> xs ! k"
    by blast+
  have "\<forall>y\<in>set (take n xs). y < x" using n by (auto simp: in_set_conv_nth)
  moreover have "\<forall>y\<in>set (drop n xs). x \<le> y"
    using n by (auto simp: in_set_conv_nth add.commute)
  moreover have "filter P xs = filter P (take n xs) @ filter P (drop n xs)" for P
    by (metis append_take_drop_id filter_append)
  ultimately have "filter (\<lambda>k. k < x) xs = take n xs" "filter (\<lambda>k. x \<le> k) xs = drop n xs"
    by (auto simp: filter_id_conv filter_empty_conv not_less not_le)
  with n(1) show "SearchStrings xs x \<le> length xs"
    "take (SearchStrings xs x) xs = filter (\<lambda>k. k < x) xs"
    "drop (SearchStrings xs x) xs = filter (\<lambda>k. x \<le> k) xs"
    by (simp_all add: n_def)
qed

lemma sorted_split_key:
  assumes "sorted xs" "distinct xs"
  shows "x \<notin> set xs \<Longrightarrow>
      take (SearchStrings xs x) xs @ x # drop (SearchStrings xs x) xs = insort x xs"
    and "x \<in> set xs \<Longrightarrow>
      take (SearchStrings xs x) xs @ drop (SearchStrings xs x + 1) xs = remove1 x xs"
proof -
  have insort_eq: "filter (\<lambda>k. k < x) ys @ x # filter (\<lambda>k. x \<le> k) ys = insort x ys"
    if "sorted ys" "x \<notin> set ys" for ys :: "string list"
    using that
  proof (induction ys)
    case (Cons y ys)
    show ?case
    proof (cases "y < x")
      case True
      with Cons show ?thesis by auto
    next
      case False
      with Cons.prems have "filter (\<lambda>k. k < x) ys = []" "filter (\<lambda>k. x \<le> k) ys = ys"
        by (auto simp: filter_empty_conv filter_id_conv)
      with False Cons.prems show ?thesis by auto
    qed
  qed simp
  have remove_eq: "filter (\<lambda>k. k < x) ys @ drop 1 (filter (\<lambda>k. x \<le> k) ys) = remove1 x ys"
    if "sorted ys" "distinct ys" "x \<in> set ys" for ys :: "string list"
    using that
  proof (induction ys)
    case (Cons y ys)
    show ?case
    proof (cases "y < x")
      case True
      with Cons show ?thesis by auto
    next
      case False
      with Cons.prems have "filter (\<lambda>k. k < x) ys = []" "filter (\<lambda>k. x \<le> k) ys = ys" "y = x"
        by (auto simp: filter_empty_conv filter_id_conv)
      then show ?thesis by simp
    qed
  qed simp
  show "x \<notin> set xs \<Longrightarrow>
      take (SearchStrings xs x) xs @ x # drop (SearchStrings xs x) xs = insort x xs"
    using assms insort_eq by (simp add: SearchStrings_spec)
  show "x \<in> set xs \<Longrightarrow>
      take (SearchStrings xs x) xs @ drop (SearchStrings xs x + 1) xs = remove1 x xs"
    using assms remove_eq [of xs] SearchStrings_spec(2,3) [of xs x]
      drop_drop [of 1 "SearchStrings xs x" xs] by simp
qed

subsection \<open>Costs\<close>

lemma finite_keys: "ov_inv s \<Longrightarrow> finite (dom (ovEntries s))"
  by (metis List.finite_set ov_inv_def)

lemma key_cost_simps [simp]:
  "key_cost (m(k \<mapsto> e)) k = unat (entryUsage k e)"
  "k \<noteq> k' \<Longrightarrow> key_cost (m(k := v)) k' = key_cost m k'"
  "m k = None \<Longrightarrow> key_cost m k = 0"
  by (simp_all add: key_cost_def)

lemma unat_oldUsage: "unat (oldUsage s k) = key_cost (ovEntries s) k"
  by (simp add: oldUsage_def key_cost_def split: option.splits)

lemma total_cost_remove:
  assumes "finite (dom m)"
  shows "total_cost m = total_cost (m(k := None)) + key_cost m k"
proof (cases "m k")
  case None
  then have "m(k := None) = m" by auto
  with None show ?thesis by simp
next
  case (Some e)
  then have "k \<in> dom m" by auto
  moreover have "sum (key_cost m) (dom m - {k}) = sum (key_cost (m(k := None))) (dom m - {k})"
    by (rule sum.cong) (simp_all add: key_cost_def)
  ultimately show ?thesis
    using assms by (simp add: total_cost_def sum.remove [of "dom m" k])
qed

lemma total_cost_update:
  "finite (dom m) \<Longrightarrow> total_cost (m(k \<mapsto> e)) = total_cost (m(k := None)) + unat (entryUsage k e)"
  using total_cost_remove [of "m(k \<mapsto> e)" k] by simp

lemma key_cost_le: "ov_inv s \<Longrightarrow> key_cost (ovEntries s) k \<le> unat (ovUsage s)"
  using total_cost_remove [OF finite_keys, of s k] by (simp add: ov_inv_def)

text \<open>The projected usage is exact as long as the sum fits into 64 bits.\<close>

lemma projectedUsage_exact:
  assumes "ov_inv s"
    and "total_cost ((ovEntries s)(k := None)) + unat (entryUsage k e) < 2 ^ 64"
  shows "unat (projectedUsage s k e) = total_cost ((ovEntries s)(k \<mapsto> e))"
  using assms total_cost_remove [OF finite_keys, of s k] finite_keys [of s]
  by (simp add: projectedUsage_def satAdd_exact_fits unat_satSub unat_oldUsage ov_inv_def
      total_cost_update)

lemma projectedUsage_below:
  assumes "ov_inv s" and "projectedUsage s k e \<le> limit" and "limit < - 1"
  shows "total_cost ((ovEntries s)(k := None)) + unat (entryUsage k e) < 2 ^ 64"
proof -
  have "unat (projectedUsage s k e) =
      min (total_cost ((ovEntries s)(k := None)) + unat (entryUsage k e)) (2 ^ 64 - 1)"
    using assms(1) total_cost_remove [OF finite_keys, of s k]
    by (simp add: projectedUsage_def unat_satAdd unat_satSub unat_oldUsage ov_inv_def)
  moreover have "unat (projectedUsage s k e) < 2 ^ 64 - 1"
    using assms(2,3) by (simp add: word_le_nat_alt word_less_nat_alt)
  ultimately show ?thesis by linarith
qed

lemma put_keys:
  assumes "ov_inv s"
  shows "sorted (ovKeys (ov_put s k e))" "distinct (ovKeys (ov_put s k e))"
    and "set (ovKeys (ov_put s k e)) = insert k (dom (ovEntries s))"
  using assms sorted_split_key(1) [of "ovKeys s" k]
  by (auto simp: ov_inv_def ov_put_def Let_def sorted_insort distinct_insort set_insort_key domIff)

lemma put_simps [simp]:
  "ovEntries (ov_put s k e) = (ovEntries s)(k \<mapsto> e)" "ovUsage (ov_put s k e) = ovUsage s"
  by (simp_all add: ov_put_def Let_def)

lemma remove_None: "ovEntries s k = None \<Longrightarrow> ov_remove s k = (s, None)"
  by (simp add: ov_remove_def)

lemma remove_entries [simp]:
  "ovEntries (fst (ov_remove s k)) = (ovEntries s)(k := None)"
  by (auto simp: ov_remove_def Let_def split: option.splits)

lemma remove_entry [simp]: "snd (ov_remove s k) = ovEntries s k"
  by (auto simp: ov_remove_def Let_def split: option.splits)

lemma insertUnchecked_simps [simp]:
  "ovEntries (insertUnchecked s k e) = (ovEntries s)(k \<mapsto> e)"
  "ovUsage (insertUnchecked s k e) = projectedUsage s k e"
  by (simp_all add: insertUnchecked_def)

subsection \<open>Preservation\<close>

lemma ov_inv_new [mount_inv]: "ov_inv newOverlayState"
  by (simp add: ov_inv_def newOverlayState_def total_cost_def)

lemma ov_inv_put:
  assumes "ov_inv s" and "unat u = total_cost ((ovEntries s)(k \<mapsto> e))"
  shows "ov_inv ((ov_put s k e)\<lparr>ovUsage := u\<rparr>)"
  using assms put_keys [of s k e] by (simp add: ov_inv_def)

lemma ov_put_usage: "ov_put (s\<lparr>ovUsage := u\<rparr>) k e = (ov_put s k e)\<lparr>ovUsage := u\<rparr>"
  by (simp add: ov_put_def Let_def)

lemma ov_inv_insertUnchecked:
  assumes "ov_inv s" and "total_cost ((ovEntries s)(k := None)) + unat (entryUsage k e) < 2 ^ 64"
  shows "ov_inv (insertUnchecked s k e)"
  unfolding insertUnchecked_def ov_put_usage
  by (rule ov_inv_put [OF assms(1) projectedUsage_exact [OF assms]])

lemma ov_insert_Inr:
  "ov_insert s k e limit = Inr s' \<longleftrightarrow> projectedUsage s k e \<le> limit \<and> s' = insertUnchecked s k e"
  by (auto simp: ov_insert_def insertUnchecked_def ov_put_usage Let_def not_less)

lemma ov_insert_Inl:
  "ov_insert s k e limit = Inl x \<longleftrightarrow> limit < projectedUsage s k e \<and> x = ErrMemoryLimit limit"
  by (auto simp: ov_insert_def Let_def)

lemma ov_inv_insert [mount_inv]:
  assumes "ov_inv s" and "limit < - 1" and "ov_insert s k e limit = Inr s'"
  shows "ov_inv s'" and "ovUsage s' \<le> limit" and "ovEntries s' = (ovEntries s)(k \<mapsto> e)"
  using assms ov_inv_insertUnchecked [OF assms(1) projectedUsage_below]
  by (auto simp: ov_insert_Inr)

lemma ov_inv_remove:
  assumes "ov_inv s"
  shows "ov_inv (fst (ov_remove s k))"
proof (cases "ovEntries s k")
  case None
  with assms show ?thesis by (simp add: remove_None)
next
  case (Some e)
  then have k: "k \<in> set (ovKeys s)" using assms by (auto simp: ov_inv_def)
  have "unat (ovUsage s) = total_cost ((ovEntries s)(k := None)) + unat (entryUsage k e)"
    using assms total_cost_remove [OF finite_keys [OF assms], of k]
    by (simp add: ov_inv_def key_cost_def Some)
  then have "unat (satSub (ovUsage s) (entryUsage k e)) = total_cost ((ovEntries s)(k := None))"
    by (simp add: unat_satSub)
  then show ?thesis
    using assms Some k sorted_split_key(2) [of "ovKeys s" k]
    by (simp add: ov_inv_def ov_remove_def Let_def sorted_remove1 set_remove1_eq)
qed

lemma unat_golen: "length xs < 2 ^ 64 \<Longrightarrow> unat (golen xs) = length xs"
  by (simp add: golen_def unat_of_nat)

lemma entryUsage_append:
  assumes "length (content @ data) < 2 ^ 63" and "length k < 2 ^ 62"
  shows "unat (entryUsage k (EntFile (content @ data) t))
    = unat (entryUsage k (EntFile content t')) + unat (golen data)"
proof -
  have "unat (baseEntryUsage k) = 304 + length k"
    using assms(2) by (simp add: baseEntryUsage_def unat_satAdd unat_golen entryMemoryUsage_def
        overlayEntrySize_def)
  then show ?thesis
    using assms by (simp add: entryUsage_def unat_satAdd unat_golen)
qed

fun entry_len :: "overlayEntry \<Rightarrow> nat" where
  "entry_len (EntFile content _) = length content"
| "entry_len (EntRealFileRef relative _ _) = length relative"
| "entry_len _ = 0"

lemma unat_entryUsage:
  assumes "length k + entry_len e < 2 ^ 63"
  shows "unat (entryUsage k e) = 304 + length k + entry_len e"
  using assms
  by (cases e) (simp_all add: entryUsage_def baseEntryUsage_def unat_satAdd unat_golen
      entryMemoryUsage_def overlayEntrySize_def)

lemma ov_inv_appendFile [mount_inv]:
  assumes inv: "ov_inv s" and limit: "limit < - 1"
    and app: "appendFile s k data t limit = Inr (s', ok)"
    and fits: "\<forall>content t'. ovEntries s k = Some (EntFile content t') \<longrightarrow>
      length (content @ data) < 2 ^ 63 \<and> length k < 2 ^ 62"
  shows "ov_inv s'" and "ovUsage s \<le> limit \<Longrightarrow> ovUsage s' \<le> limit"
proof -
  have "ov_inv s' \<and> (ovUsage s \<le> limit \<longrightarrow> ovUsage s' \<le> limit)"
  proof (cases "\<exists>content t'. ovEntries s k = Some (EntFile content t')")
    case False
    then have "appendFile s k data t limit = Inr (s, False)"
      by (auto simp: appendFile_def split: option.splits overlayEntry.splits)
    with app inv show ?thesis by simp
  next
    case True
    then obtain content t' where f: "ovEntries s k = Some (EntFile content t')" by blast
    let ?m = "(ovEntries s)(k \<mapsto> EntFile (content @ data) t)"
    from app f have s': "s' = s\<lparr>ovEntries := ?m, ovUsage := satAdd (ovUsage s) (golen data)\<rparr>"
      and below: "satAdd (ovUsage s) (golen data) \<le> limit"
      by (auto simp: appendFile_def Let_def not_less split: if_splits)
    have "unat (satAdd (ovUsage s) (golen data)) = unat (ovUsage s) + unat (golen data)"
      using satAdd_exact [OF below limit] .
    also have "\<dots> = total_cost ?m"
      using inv total_cost_remove [OF finite_keys [OF inv], of k] fits f
        total_cost_update [OF finite_keys [OF inv], of k "EntFile (content @ data) t"]
        entryUsage_append [of content data k t t']
      by (simp add: ov_inv_def key_cost_def)
    finally show ?thesis
      using inv s' below f by (auto simp: ov_inv_def)
  qed
  then show "ov_inv s'" and "ovUsage s \<le> limit \<Longrightarrow> ovUsage s' \<le> limit" by blast+
qed

section \<open>A metered map\<close>

text \<open>
  The contract that the overlay's operations rely on: a map whose charged size is the sum of the
  costs of its entries, as long as the sum stays below the capacity of the counter.
\<close>

locale metered_map =
  fixes get :: "'s \<Rightarrow> 'k \<Rightarrow> 'e option"
    and put :: "'s \<Rightarrow> 'k \<Rightarrow> 'e \<Rightarrow> 's"
    and del :: "'s \<Rightarrow> 'k \<Rightarrow> 's"
    and used :: "'s \<Rightarrow> nat"
    and cost :: "'k \<Rightarrow> 'e \<Rightarrow> nat"
    and inv :: "'s \<Rightarrow> bool"
    and cap :: nat
  assumes get_put: "get (put s k e) = (get s)(k \<mapsto> e)"
    and get_del: "get (del s k) = (get s)(k := None)"
    and finite_get: "inv s \<Longrightarrow> finite (dom (get s))"
    and used_sum: "inv s \<Longrightarrow> used s = (\<Sum>k\<in>dom (get s). cost k (the (get s k)))"
    and inv_put: "inv s \<Longrightarrow> used s + cost k e < cap \<Longrightarrow> inv (put s k e)"
    and inv_del: "inv s \<Longrightarrow> inv (del s k)"
begin

definition puts :: "'s \<Rightarrow> ('k \<times> 'e) list \<Rightarrow> 's" where
  "puts s batch = foldl (\<lambda>s (k, e). put s k e) s batch"

definition dels :: "'s \<Rightarrow> 'k list \<Rightarrow> 's" where
  "dels s ks = foldl del s ks"

definition batch_cost :: "('k \<times> 'e) list \<Rightarrow> nat" where
  "batch_cost batch = (\<Sum>(k, e)\<leftarrow>batch. cost k e)"

lemma used_by_get: "inv s \<Longrightarrow> inv t \<Longrightarrow> get s = get t \<Longrightarrow> used s = used t"
  by (simp add: used_sum)

lemma used_put_le:
  assumes "inv s" and "used s + cost k e < cap"
  shows "used (put s k e) \<le> used s + cost k e"
proof -
  let ?m = "get s" and ?c = "\<lambda>m k. cost k (the (m k))"
  have fin: "finite (dom ?m)" by (rule finite_get [OF assms(1)])
  have "(\<Sum>k'\<in>dom ?m - {k}. ?c (?m(k \<mapsto> e)) k') = (\<Sum>k'\<in>dom ?m - {k}. ?c ?m k')"
    by (rule sum.cong) auto
  also have "\<dots> \<le> (\<Sum>k'\<in>dom ?m. ?c ?m k')"
    using fin by (intro sum_mono2) auto
  finally show ?thesis
    using assms fin inv_put [OF assms]
    by (simp add: used_sum get_put sum.insert_remove)
qed

lemma used_del_le: "inv s \<Longrightarrow> used (del s k) \<le> used s"
proof -
  assume inv: "inv s"
  have "used (del s k) = (\<Sum>k'\<in>dom (get s) - {k}. cost k' (the (get s k')))"
    using inv_del [OF inv, of k] by (auto simp: used_sum get_del intro!: sum.cong)
  also have "\<dots> \<le> used s"
    using inv finite_get [OF inv] by (simp add: used_sum sum_mono2)
  finally show ?thesis .
qed

lemma get_puts: "get (puts s batch) = get s ++ map_of (rev batch)"
  by (induction batch arbitrary: s) (auto simp: puts_def get_put)

lemma get_dels: "get (dels s ks) = (get s) |` (- set ks)"
  by (induction ks arbitrary: s) (auto simp: dels_def get_del restrict_map_def fun_eq_iff)

lemma inv_puts:
  "inv s \<Longrightarrow> used s + batch_cost batch < cap \<Longrightarrow>
     inv (puts s batch) \<and> used (puts s batch) \<le> used s + batch_cost batch"
proof (induction batch arbitrary: s)
  case (Cons b batch)
  obtain k e where b: "b = (k, e)" by (cases b)
  from Cons.prems have fits: "used s + cost k e < cap" by (simp add: b batch_cost_def)
  note step = inv_put [OF Cons.prems(1) fits] used_put_le [OF Cons.prems(1) fits]
  with Cons.prems Cons.IH [of "put s k e"] show ?case
    by (simp add: b batch_cost_def puts_def)
qed (simp add: puts_def batch_cost_def)

lemma inv_dels: "inv s \<Longrightarrow> inv (dels s ks) \<and> used (dels s ks) \<le> used s"
proof (induction ks arbitrary: s)
  case (Cons k ks)
  from Cons.IH [OF inv_del [OF Cons.prems, of k]] used_del_le [OF Cons.prems, of k]
  show ?case by (simp add: dels_def)
qed (simp add: dels_def)

text \<open>
  Deleting keys first makes no difference when the batch writes every deleted key: the charge is
  the same as for applying the batch alone.
\<close>

lemma move_batch:
  assumes "inv s" and "used s + batch_cost batch < cap" and "set ks \<subseteq> fst ` set batch"
  shows "inv (puts (dels s ks) batch)"
    and "get (puts (dels s ks) batch) = get s ++ map_of (rev batch)"
    and "used (puts (dels s ks) batch) = used (puts s batch)"
proof -
  have d: "inv (dels s ks)" "used (dels s ks) + batch_cost batch < cap"
    using inv_dels [OF assms(1), of ks] assms(2) by auto
  show inv: "inv (puts (dels s ks) batch)" using inv_puts [OF d] by blast
  show get: "get (puts (dels s ks) batch) = get s ++ map_of (rev batch)"
  proof
    fix k
    have "k \<in> set ks \<Longrightarrow> map_of (rev batch) k \<noteq> None"
      using assms(3) by (auto simp: map_of_eq_None_iff)
    then show "get (puts (dels s ks) batch) k = (get s ++ map_of (rev batch)) k"
      by (auto simp: get_puts get_dels map_add_def restrict_map_def split: option.split)
  qed
  show "used (puts (dels s ks) batch) = used (puts s batch)"
    using inv inv_puts [OF assms(1,2)] get get_puts [of s batch] by (auto intro: used_by_get)
qed

end

abbreviation ov_del :: "overlayState \<Rightarrow> string \<Rightarrow> overlayState" where
  "ov_del s k \<equiv> fst (ov_remove s k)"

interpretation ov: metered_map ovEntries insertUnchecked ov_del "\<lambda>s. unat (ovUsage s)"
  "\<lambda>k e. unat (entryUsage k e)" ov_inv "2 ^ 64"
proof unfold_locales
  fix s k e
  assume inv: "ov_inv s"
  show "unat (ovUsage s) = (\<Sum>k\<in>dom (ovEntries s). unat (entryUsage k (the (ovEntries s k))))"
    using inv by (auto simp: ov_inv_def total_cost_def key_cost_def intro!: sum.cong)
  assume "unat (ovUsage s) + unat (entryUsage k e) < 2 ^ 64"
  then show "ov_inv (insertUnchecked s k e)"
    using inv total_cost_remove [OF finite_keys [OF inv], of k]
    by (intro ov_inv_insertUnchecked) (simp_all add: ov_inv_def)
qed (simp_all add: finite_keys ov_inv_remove)

section \<open>Prefix ranges\<close>

text \<open>
  The byte after the slash is the digit zero, so the keys that begin with \<open>q/\<close> are the keys
  from \<open>q/\<close> up to, but not including, \<open>q0\<close>.
\<close>

lemma slash_zero: "CHR ''/'' < (c :: char) \<longleftrightarrow> CHR ''0'' \<le> c"
  by (auto simp: less_char_def less_eq_char_def)

lemma prefix_range:
  "q @ ''/'' \<le> (k :: string) \<and> k < q @ ''0'' \<longleftrightarrow> prefix (q @ ''/'') k"
proof (induction q arbitrary: k)
  case Nil
  show ?case by (cases k) (auto simp: slash_zero)
next
  case (Cons c q)
  show ?case
  proof (cases k)
    case (Cons x r)
    then show ?thesis using Cons.IH [of r] by (cases "c = x") (simp_all add: not_less linear)
  qed simp
qed

lemma SearchStrings_length:
  "sorted xs \<Longrightarrow> SearchStrings xs x = length (filter (\<lambda>k. k < x) xs)"
  using SearchStrings_spec(1,2) [of xs x] by (metis length_take min.absorb2)

lemma prefixKeys_filter:
  assumes "ov_inv s" and "p = [] \<or> last p = CHR ''/''"
  shows "prefixKeys s p = filter (prefix p) (ovKeys s)"
proof (cases "p = []")
  case True
  then show ?thesis by (simp add: prefixKeys_def)
next
  case False
  define q where "q = butlast p"
  from False assms(2) have p: "p = q @ ''/''"
    by (metis q_def append_butlast_last_id)
  have sorted: "sorted (ovKeys s)" using assms(1) by (simp add: ov_inv_def)
  let ?stop = "SearchStrings (ovKeys s) (q @ ''0'')" and ?start = "SearchStrings (ovKeys s) p"
  have "drop ?start (take ?stop (ovKeys s))
      = filter (\<lambda>k. p \<le> k) (filter (\<lambda>k. k < q @ ''0'') (ovKeys s))"
  proof -
    have "filter (\<lambda>k. k < p) (ovKeys s)
        = filter (\<lambda>k. k < p) (filter (\<lambda>k. k < q @ ''0'') (ovKeys s))"
    proof -
      have "p < q @ ''0''" unfolding p by (induction q) (simp_all add: less_char_def)
      then have "k < p \<longleftrightarrow> k < p \<and> k < q @ ''0''" for k by (meson order_less_trans)
      then show ?thesis unfolding filter_filter by (intro filter_cong) auto
    qed
    moreover have "drop (length (filter (\<lambda>k. k < p) xs)) xs = filter (\<lambda>k. p \<le> k) xs"
      if "sorted xs" for xs :: "string list"
      using SearchStrings_spec(3) [OF that, of p] by (simp only: SearchStrings_length [OF that])
    ultimately show ?thesis
      using SearchStrings_spec(2) [OF sorted, of "q @ ''0''"]
        sorted_wrt_filter [OF sorted, of "\<lambda>k. k < q @ ''0''"]
      by (simp only: SearchStrings_length [OF sorted, of p])
  qed
  also have "\<dots> = filter (prefix p) (ovKeys s)"
    unfolding filter_filter p by (intro filter_cong refl) (simp only: prefix_range [symmetric] conj_commute)
  finally show ?thesis
    using False by (simp add: prefixKeys_def Let_def flip: q_def)
qed

section \<open>Batches\<close>

text \<open>
  The preflight loop follows the usage of a sequence of \<^verbatim>\<open>insertUnchecked\<close> calls step for
  step, saturation included.
\<close>

lemma replacementLoop_puts:
  assumes "\<forall>k. (case replaced k of Some u \<Rightarrow> u | None \<Rightarrow> oldUsage s k) = oldUsage t k"
  shows "replacementLoop s batch replaced (ovUsage t) = ovUsage (ov.puts t batch)"
  using assms
proof (induction batch arbitrary: replaced t)
  case Nil
  then show ?case by (simp add: ov.puts_def)
next
  case (Cons b batch)
  obtain k e where b: "b = (k, e)" by (cases b)
  let ?t = "insertUnchecked t k e"
  have upd: "\<forall>k'. (case (replaced(k \<mapsto> entryUsage k e)) k' of Some u \<Rightarrow> u | None \<Rightarrow> oldUsage s k')
      = oldUsage ?t k'"
    using Cons.prems by (auto simp: oldUsage_def)
  have "satAdd (satSub (ovUsage t) (case replaced k of Some u \<Rightarrow> u | None \<Rightarrow> oldUsage s k))
      (entryUsage k e) = ovUsage ?t"
    using Cons.prems by (simp add: projectedUsage_def)
  with Cons.IH [where replaced = "replaced(k \<mapsto> entryUsage k e)", OF upd] show ?case
    by (simp add: b Let_def ov.puts_def del: fun_upd_apply)
qed

lemma checkReplacements_puts:
  "checkReplacements s batch limit = None \<longleftrightarrow> ovUsage (ov.puts s batch) \<le> limit"
  using replacementLoop_puts [where replaced = Map.empty and s = s and t = s]
  by (simp add: checkReplacements_def linorder_not_less [symmetric])

lemma total_cost_usage: "ov_inv s \<Longrightarrow> total_cost (ovEntries s) = unat (ovUsage s)"
  by (simp add: ov_inv_def)

section \<open>Properties\<close>

text \<open>
  Memory accounting is exact. With a limit below the maximum of the counter, \<^verbatim>\<open>insert\<close>
  succeeds exactly when the entries, with the new one in place, cost at most the limit; then the
  new state has the entry at the key and all others as before, its charge is the sum of the costs
  of its entries, and its keys are still sorted and complete. Otherwise it reports the limit.
\<close>

theorem insert_accounts:
  assumes "ov_inv s" and "limit < - 1"
  shows "if total_cost ((ovEntries s)(k \<mapsto> e)) \<le> unat limit
    then \<exists>s'. ov_insert s k e limit = Inr s' \<and> ov_inv s' \<and> ovEntries s' = (ovEntries s)(k \<mapsto> e)
      \<and> ovUsage s' \<le> limit
    else ov_insert s k e limit = Inl (ErrMemoryLimit limit)"
proof (cases "projectedUsage s k e \<le> limit")
  case True
  note fits = projectedUsage_below [OF assms(1) True assms(2)]
  then have "total_cost ((ovEntries s)(k \<mapsto> e)) \<le> unat limit"
    using True projectedUsage_exact [OF assms(1) fits] by (simp add: word_le_nat_alt)
  moreover obtain s' where s': "ov_insert s k e limit = Inr s'"
    using True by (auto simp: ov_insert_Inr)
  ultimately show ?thesis using ov_inv_insert [OF assms s'] by auto
next
  case False
  have "unat limit < total_cost ((ovEntries s)(k \<mapsto> e))"
  proof (cases "total_cost ((ovEntries s)(k := None)) + unat (entryUsage k e) < 2 ^ 64")
    case True
    then show ?thesis
      using False projectedUsage_exact [OF assms(1) True] by (simp add: word_le_nat_alt)
  next
    case big: False
    then show ?thesis
      using unsigned_less [of limit, where ?'a = nat] finite_keys [OF assms(1)]
      by (simp add: total_cost_update)
  qed
  then show ?thesis using False by (simp add: ov_insert_Inl not_le)
qed

theorem insert_accounts_witness:
  "\<exists>s'. ov_insert newOverlayState ''a'' (EntDirectory FNaN) 1000 = Inr s' \<and> ov_inv s'
     \<and> ovUsage s' \<le> 1000"
proof -
  have "total_cost ((ovEntries newOverlayState)(''a'' \<mapsto> EntDirectory FNaN)) \<le> unat (1000 :: u64)"
    by (simp add: total_cost_def newOverlayState_def key_cost_def unat_entryUsage)
  then show ?thesis
    using insert_accounts [OF ov_inv_new, of 1000 "''a''" "EntDirectory FNaN"]
    by (auto simp: word_less_nat_alt)
qed

text \<open>
  C20. \<^verbatim>\<open>prefixKeys\<close> returns exactly the keys below a directory, in order: two binary
  searches on the sorted keys find the keys with the prefix, although the upper bound only
  replaces the final slash by the next byte.
\<close>

theorem prefixKeys_exact:
  assumes "ov_inv s" and "p = [] \<or> last p = CHR ''/''"
  shows "prefixKeys s p = filter (prefix p) (ovKeys s)
    \<and> set (prefixKeys s p) = {k \<in> dom (ovEntries s). prefix p k}"
  using assms prefixKeys_filter [OF assms] by (auto simp: ov_inv_def)

theorem prefixKeys_exact_witness:
  "prefixKeys (insertUnchecked (insertUnchecked (insertUnchecked newOverlayState ''a'' EntDeleted)
     ''a-b'' EntDeleted) ''a/b'' EntDeleted) ''a/'' = [''a/b'']"
proof -
  let ?s1 = "insertUnchecked newOverlayState ''a'' EntDeleted"
  let ?s2 = "insertUnchecked ?s1 ''a-b'' EntDeleted"
  let ?s = "insertUnchecked ?s2 ''a/b'' EntDeleted"
  have "ov_inv ?s"
    using ov.inv_puts [of newOverlayState
        "[(''a'', EntDeleted), (''a-b'', EntDeleted), (''a/b'', EntDeleted)]"]
    by (simp add: ov_inv_new ov.puts_def ov.batch_cost_def unat_entryUsage)
       (simp add: newOverlayState_def)
  then have "prefixKeys ?s ''a/'' = filter (prefix ''a/'') (ovKeys ?s)"
    using prefixKeys_exact [of ?s "''a/''"] by simp
  moreover have "ovKeys ?s = [''a'', ''a-b'', ''a/b'']" by code_simp
  ultimately show ?thesis by simp
qed

text \<open>
  C21. The preflight of a batch is exact. For a batch whose costs fit the counter beside the
  current usage, \<^verbatim>\<open>checkReplacements\<close> accepts exactly when the state with every entry of the
  batch written, the last one for each key, costs at most the limit.
\<close>

theorem checkReplacements_exact:
  assumes "ov_inv s"
    and "unat (ovUsage s) + (\<Sum>(k, e)\<leftarrow>batch. unat (entryUsage k e)) < 2 ^ 64"
  shows "checkReplacements s batch limit = None
    \<longleftrightarrow> total_cost (ovEntries s ++ map_of (rev batch)) \<le> unat limit"
proof -
  have "ov_inv (ov.puts s batch)"
    using ov.inv_puts [OF assms(1)] assms(2) by (simp add: ov.batch_cost_def)
  from total_cost_usage [OF this] show ?thesis
    by (simp add: checkReplacements_puts ov.get_puts word_le_nat_alt)
qed

theorem checkReplacements_exact_witness:
  "checkReplacements newOverlayState [(''a'', EntDeleted), (''a'', EntDirectory FNaN)] 400 = None"
proof -
  have u: "unat (entryUsage ''a'' e) = 305" if "e \<in> {EntDeleted, EntDirectory FNaN}" for e
    using that by (auto simp: unat_entryUsage)
  then show ?thesis
    using checkReplacements_exact [OF ov_inv_new,
        of "[(''a'', EntDeleted), (''a'', EntDirectory FNaN)]" 400]
    by (simp add: newOverlayState_def total_cost_def key_cost_def)
qed

end
