(* ===== verification/Host.thy ===== *)
theory Host
  imports OverlayState
begin

text \<open>
  Access to the host directory of a mount: \<^verbatim>\<open>internal/mountfs/host.go\<close>. The operating
  system behind \<^verbatim>\<open>os.Root\<close> is the record \<open>hostfs\<close> of its operations on a world \<open>'w\<close>, with
  handles \<open>'r\<close> of opened directories and \<open>'f\<close> of opened files. Only the operations that return
  a world can change it.
\<close>

section \<open>The operating system\<close>

datatype ftype = FtDir | FtRegular | FtSymlink | FtOther

type_synonym gotime = "int \<times> nat"

record fileInfo =
  fiType :: ftype
  fiSize :: int
  fiModTime :: gotime

record dirEntry =
  deName :: string
  deType :: ftype

record ('w, 'r, 'f) hostfs =
  hStat :: "'w \<Rightarrow> 'r \<Rightarrow> string \<Rightarrow> oserr + fileInfo"
  hLstat :: "'w \<Rightarrow> 'r \<Rightarrow> string \<Rightarrow> oserr + fileInfo"
  hOpenRoot :: "'w \<Rightarrow> 'r \<Rightarrow> string \<Rightarrow> oserr + 'r"
  hOpenRead :: "'w \<Rightarrow> 'r \<Rightarrow> string \<Rightarrow> oserr + 'f"
  hOpenDir :: "'w \<Rightarrow> 'r \<Rightarrow> string \<Rightarrow> oserr + 'f"
  hOpenWrite :: "'w \<Rightarrow> 'r \<Rightarrow> string \<Rightarrow> bool \<Rightarrow> 'w \<times> (oserr + 'f)"
  hFStat :: "'w \<Rightarrow> 'f \<Rightarrow> oserr + fileInfo"
  hRead :: "'w \<Rightarrow> 'f \<Rightarrow> bytes list \<times> oserr option"
  hReadDir :: "'w \<Rightarrow> 'f \<Rightarrow> dirEntry list \<times> oserr option"
  hWrite :: "'w \<Rightarrow> 'f \<Rightarrow> bytes \<Rightarrow> 'w \<times> oserr option"
  hMkdir :: "'w \<Rightarrow> 'r \<Rightarrow> string \<Rightarrow> 'w \<times> oserr option"
  hRemove :: "'w \<Rightarrow> 'r \<Rightarrow> string \<Rightarrow> 'w \<times> oserr option"
  hRename :: "'w \<Rightarrow> 'r \<Rightarrow> string \<Rightarrow> string \<Rightarrow> 'w \<times> oserr option"
  hNow :: "'w \<Rightarrow> gotime"
  hAlloc :: "'w \<Rightarrow> addr"

text \<open>
  \<open>hOpenRead\<close> opens with \<^verbatim>\<open>O_RDONLY\<close> and \<^verbatim>\<open>O_NONBLOCK\<close>, \<open>hOpenDir\<close> with \<^verbatim>\<open>O_DIRECTORY\<close>,
  and \<open>hOpenWrite\<close> with \<^verbatim>\<open>O_WRONLY|O_CREATE\<close> and \<^verbatim>\<open>O_APPEND\<close> (the flag is set) or
  \<^verbatim>\<open>O_TRUNC\<close>. \<open>hRead\<close> gives the chunks that the successive reads of the file offer and the
  error, if any, that ends them; \<open>hReadDir\<close> likewise for directory entries. \<open>hNow\<close> is the clock
  and \<open>hAlloc\<close> the address of the next allocated handle.
\<close>

section \<open>Budgets\<close>

record memoryBudget =
  mbAvailable :: u64
  mbLimit :: u64

definition listingEntryMemoryUsage :: u64 where
  "listingEntryMemoryUsage = 128"

definition fullBudget :: "u64 \<Rightarrow> memoryBudget" where
  "fullBudget limit = \<lparr>mbAvailable = limit, mbLimit = limit\<rparr>"

definition budget_check :: "memoryBudget \<Rightarrow> u64 \<Rightarrow> mountError option" where
  "budget_check b n = (if mbAvailable b < n then Some (ErrMemoryLimit (mbLimit b)) else None)"

definition budget_shrink :: "memoryBudget \<Rightarrow> u64 \<Rightarrow> memoryBudget mresult" where
  "budget_shrink b n =
     (if mbAvailable b < n then Inl (ErrMemoryLimit (mbLimit b))
      else Inr \<lparr>mbAvailable = mbAvailable b - n, mbLimit = mbLimit b\<rparr>)"

definition budget_halved :: "memoryBudget \<Rightarrow> memoryBudget" where
  "budget_halved b = \<lparr>mbAvailable = mbAvailable b div 2, mbLimit = mbLimit b\<rparr>"

section \<open>Stat results and timestamps\<close>

definition statResult :: "int \<Rightarrow> int \<Rightarrow> int \<Rightarrow> gofloat \<Rightarrow> pyval" where
  "statResult mode nlink sz mtime =
     VNamedTuple ''StatResult''
       [''st_mode'', ''st_ino'', ''st_dev'', ''st_nlink'', ''st_uid'', ''st_gid'', ''st_size'',
        ''st_atime'', ''st_mtime'', ''st_ctime'']
       [VInt GoInt64 mode, VInt GoInt64 0, VInt GoInt64 0, VInt GoInt64 nlink, VInt GoInt64 0,
        VInt GoInt64 0, VInt GoInt64 sz, VFloat64 mtime, VFloat64 mtime, VFloat64 mtime]"

definition fileStat :: "int \<Rightarrow> gofloat \<Rightarrow> pyval" where
  "fileStat sz mtime = statResult 33188 1 sz mtime"

definition dirStat :: "gofloat \<Rightarrow> pyval" where
  "dirStat mtime = statResult 16877 2 4096 mtime"

text \<open>Seconds since the epoch: each conversion, the division and the sum round to \<^verbatim>\<open>float64\<close>.\<close>

definition unixSecs :: "gotime \<Rightarrow> gofloat" where
  "unixSecs t =
     (case t of (s, ns) \<Rightarrow>
        if s < 0 then FFin False 0 0
        else let (p, q) = fl64_frac (nat s, 1);
                 (a, b) = fl64_frac (ns, 1000000000);
                 (m, e) = fl64 (p * b + a * q, q * b)
             in FFin False m e)"

definition currentTimestamp :: "('w, 'r, 'f) hostfs \<Rightarrow> 'w \<Rightarrow> gofloat" where
  "currentTimestamp H w = unixSecs (hNow H w)"

definition mtimeSecs :: "fileInfo \<Rightarrow> gofloat" where
  "mtimeSecs fi = unixSecs (fiModTime fi)"

definition hostDirMtime :: "('w, 'r, 'f) hostfs \<Rightarrow> 'w \<Rightarrow> 'r \<Rightarrow> string \<Rightarrow> gofloat" where
  "hostDirMtime H w dir rel =
     (case hStat H w dir rel of Inr fi \<Rightarrow> mtimeSecs fi | Inl _ \<Rightarrow> currentTimestamp H w)"

section \<open>Queries\<close>

definition hostExists :: "('w, 'r, 'f) hostfs \<Rightarrow> 'w \<Rightarrow> 'r \<Rightarrow> string \<Rightarrow> bool" where
  "hostExists H w dir rel = (case hStat H w dir rel of Inr _ \<Rightarrow> True | Inl _ \<Rightarrow> False)"

definition hostIsDir :: "('w, 'r, 'f) hostfs \<Rightarrow> 'w \<Rightarrow> 'r \<Rightarrow> string \<Rightarrow> bool" where
  "hostIsDir H w dir rel = (case hStat H w dir rel of Inr fi \<Rightarrow> fiType fi = FtDir | Inl _ \<Rightarrow> False)"

definition hostIsFile :: "('w, 'r, 'f) hostfs \<Rightarrow> 'w \<Rightarrow> 'r \<Rightarrow> string \<Rightarrow> bool" where
  "hostIsFile H w dir rel =
     (case hStat H w dir rel of Inr fi \<Rightarrow> fiType fi = FtRegular | Inl _ \<Rightarrow> False)"

definition hostIsSymlink :: "('w, 'r, 'f) hostfs \<Rightarrow> 'w \<Rightarrow> 'r \<Rightarrow> string \<Rightarrow> bool" where
  "hostIsSymlink H w dir rel =
     (case hLstat H w dir rel of Inr fi \<Rightarrow> fiType fi = FtSymlink | Inl _ \<Rightarrow> False)"

definition rejectNonRegular ::
  "('w, 'r, 'f) hostfs \<Rightarrow> 'w \<Rightarrow> 'r \<Rightarrow> string \<Rightarrow> string \<Rightarrow> mountError option" where
  "rejectNonRegular H w dir rel vpath =
     (case hStat H w dir rel of
        Inl _ \<Rightarrow> None
      | Inr fi \<Rightarrow>
          if fiType fi = FtDir then Some (isADirectory vpath)
          else if fiType fi \<noteq> FtRegular then Some (permissionDenied vpath)
          else None)"

definition hostStat :: "('w, 'r, 'f) hostfs \<Rightarrow> 'w \<Rightarrow> 'r \<Rightarrow> string \<Rightarrow> string \<Rightarrow> pyval mresult" where
  "hostStat H w dir rel vpath =
     (case hStat H w dir rel of
        Inl err \<Rightarrow> Inl (mapIO err vpath)
      | Inr fi \<Rightarrow>
          if fiType fi = FtDir then Inr (dirStat (mtimeSecs fi))
          else Inr (fileStat (fiSize fi) (mtimeSecs fi)))"

section \<open>Reading and writing files\<close>

text \<open>The part of \<^verbatim>\<open>openRegular\<close> after the open: only a regular file is handed out.\<close>

definition checkRegular ::
  "('w, 'r, 'f) hostfs \<Rightarrow> 'w \<Rightarrow> string \<Rightarrow> oserr + 'f \<Rightarrow> 'f mresult" where
  "checkRegular H w vpath opened =
     (case opened of
        Inl err \<Rightarrow> Inl (mapIO err vpath)
      | Inr f \<Rightarrow>
          (case hFStat H w f of
             Inl err \<Rightarrow> Inl (mapIO err vpath)
           | Inr fi \<Rightarrow>
               if fiType fi = FtRegular then Inr f
               else if fiType fi = FtDir then Inl (isADirectory vpath)
               else Inl (permissionDenied vpath)))"

text \<open>
  The loop of \<^verbatim>\<open>readAtMost\<close>. \<open>free\<close> is the unused capacity of the buffer; each read returns
  at most \<open>room\<close> bytes of the next chunk that the file offers.
\<close>

function readAtMost :: "nat \<Rightarrow> bytes \<Rightarrow> bytes list \<Rightarrow> oserr option \<Rightarrow> u64 \<Rightarrow> oserr + bytes" where
  "readAtMost free buf chunks fin limit =
     (if length buf < unat limit then
        let free = (if free = 0 then min (max (length buf) 512) (unat limit - length buf) else free);
            room = min free (unat limit - length buf)
        in case chunks of
             [] \<Rightarrow> (case fin of None \<Rightarrow> Inr buf | Some err \<Rightarrow> Inl err)
           | c # cs \<Rightarrow>
               let n = min room (length c)
               in readAtMost (free - n) (buf @ take n c)
                    (if n < length c then drop n c # cs else cs) fin limit
      else Inr buf)"
  by pat_completeness auto
termination
proof (relation "measure (\<lambda>(free, buf, chunks, fin, limit). length chunks + length (concat chunks))")
  fix free fin
  fix buf c :: bytes and chunks cs :: "bytes list" and limit :: u64 and free' room n :: nat
  assume less: "length buf < unat limit" and "chunks = c # cs"
    and free': "free' = (if free = 0 then min (max (length buf) 512) (unat limit - length buf) else free)"
    and room: "room = min free' (unat limit - length buf)" and n: "n = min room (length c)"
  have "0 < free'" unfolding free' using less by (simp add: less_max_iff_disj)
  then have "0 < room" unfolding room using less by simp
  then have n: "n < length c \<longrightarrow> 0 < n" unfolding n by simp
  have "length (if n < length c then drop n c # cs else cs)
      + length (concat (if n < length c then drop n c # cs else cs)) < length chunks + length (concat chunks)"
  proof (cases "n < length c")
    case True
    with n show ?thesis unfolding \<open>chunks = c # cs\<close> by simp
  next
    case False
    then show ?thesis unfolding \<open>chunks = c # cs\<close> by simp
  qed
  then show "((free' - n, buf @ take n c, if n < length c then drop n c # cs else cs, fin, limit),
      free, buf, chunks, fin, limit)
      \<in> measure (\<lambda>(free, buf, chunks, fin, limit). length chunks + length (concat chunks))"
    by (simp only: in_measure prod.case)
qed simp

declare readAtMost.simps [simp del]

definition readFileLimited ::
  "('w, 'r, 'f) hostfs \<Rightarrow> 'w \<Rightarrow> 'r \<Rightarrow> string \<Rightarrow> string \<Rightarrow> memoryBudget \<Rightarrow> bytes mresult" where
  "readFileLimited H w dir rel vpath budget =
     (case rejectNonRegular H w dir rel vpath of
        Some e \<Rightarrow> Inl e
      | None \<Rightarrow>
          (case checkRegular H w vpath (hOpenRead H w dir rel) of
             Inl e \<Rightarrow> Inl e
           | Inr f \<Rightarrow>
               (case hFStat H w f of
                  Inl err \<Rightarrow> Inl (mapIO err vpath)
                | Inr fi \<Rightarrow>
                    let sz = of_int (max (fiSize fi) 0) :: u64
                    in case budget_check budget sz of
                         Some e \<Rightarrow> Inl e
                       | None \<Rightarrow>
                           let limit = satAdd (mbAvailable budget) 1
                           in case readAtMost (unat (min (sz + 1) limit)) []
                                     (fst (hRead H w f)) (snd (hRead H w f)) limit of
                                Inl err \<Rightarrow> Inl (mapIO err vpath)
                              | Inr content \<Rightarrow>
                                  (case budget_check budget (golen content) of
                                     Some e \<Rightarrow> Inl e
                                   | None \<Rightarrow> Inr content))))"

definition writeWithFlags ::
  "('w, 'r, 'f) hostfs \<Rightarrow> 'w \<Rightarrow> 'r \<Rightarrow> string \<Rightarrow> bytes \<Rightarrow> string \<Rightarrow> bool
     \<Rightarrow> 'w \<times> mountError option" where
  "writeWithFlags H w dir rel content vpath app =
     (case rejectNonRegular H w dir rel vpath of
        Some e \<Rightarrow> (w, Some e)
      | None \<Rightarrow>
          (case hOpenWrite H w dir rel app of
             (w1, opened) \<Rightarrow>
               (case checkRegular H w1 vpath opened of
                  Inl e \<Rightarrow> (w1, Some e)
                | Inr f \<Rightarrow>
                    (case hWrite H w1 f content of
                       (w2, Some err) \<Rightarrow> (w2, Some (mapIO err vpath))
                     | (w2, None) \<Rightarrow> (w2, None)))))"

definition writeBytesToFile ::
  "('w, 'r, 'f) hostfs \<Rightarrow> 'w \<Rightarrow> 'r \<Rightarrow> string \<Rightarrow> bytes \<Rightarrow> string \<Rightarrow> 'w \<times> mountError option" where
  "writeBytesToFile H w dir rel content vpath = writeWithFlags H w dir rel content vpath False"

definition appendBytesToFile ::
  "('w, 'r, 'f) hostfs \<Rightarrow> 'w \<Rightarrow> 'r \<Rightarrow> string \<Rightarrow> bytes \<Rightarrow> string \<Rightarrow> 'w \<times> mountError option" where
  "appendBytesToFile H w dir rel content vpath = writeWithFlags H w dir rel content vpath True"

section \<open>Changing the tree\<close>

text \<open>The parent of a relative path, found by scanning for the last slash.\<close>

definition parentRel :: "string \<Rightarrow> string" where
  "parentRel p = (case last_index_byte CHR ''/'' p of Some i \<Rightarrow> take i p | None \<Rightarrow> [])"

lemma last_index_byte_less: "last_index_byte d s = Some i \<Longrightarrow> i < length s"
  by (induction s arbitrary: i) (auto split: option.splits if_splits)

lemma parentRel_shorter: "p \<noteq> [] \<Longrightarrow> length (parentRel p) < length p"
  by (auto simp: parentRel_def dest: last_index_byte_less split: option.splits)

function createDirAll ::
  "('w, 'r, 'f) hostfs \<Rightarrow> 'w \<Rightarrow> 'r \<Rightarrow> string \<Rightarrow> 'w \<times> oserr option" where
  "createDirAll H w dir p =
     (if p = [] then (w, None)
      else case hMkdir H w dir p of
             (w1, None) \<Rightarrow> (w1, None)
           | (w1, Some err) \<Rightarrow>
               if isPathEscape err \<or> ioKindOf err \<noteq> ioNotFound then
                 (if hostIsDir H w1 dir p then (w1, None) else (w1, Some err))
               else case createDirAll H w1 dir (parentRel p) of
                      (w2, Some err2) \<Rightarrow> (w2, Some err2)
                    | (w2, None) \<Rightarrow>
                        (case hMkdir H w2 dir p of
                           (w3, None) \<Rightarrow> (w3, None)
                         | (w3, Some err3) \<Rightarrow>
                             if hostIsDir H w3 dir p then (w3, None) else (w3, Some err3)))"
  by pat_completeness auto
termination
  by (relation "measure (\<lambda>(H, w, dir, p). length p)") (auto simp: parentRel_shorter)

declare createDirAll.simps [simp del]

definition hostMkdir ::
  "('w, 'r, 'f) hostfs \<Rightarrow> 'w \<Rightarrow> 'r \<Rightarrow> string \<Rightarrow> bool \<Rightarrow> bool \<Rightarrow> string
     \<Rightarrow> 'w \<times> mountError option" where
  "hostMkdir H w dir rel parents existOK vpath =
     (let finish = (\<lambda>(w1, err).
            case err of
              None \<Rightarrow> (w1, None)
            | Some e \<Rightarrow>
                if \<not> isPathEscape e \<and> ioKindOf e = ioAlreadyExists \<and> existOK \<and> hostIsDir H w1 dir rel
                then (w1, None) else (w1, Some (mapIO e vpath)))
      in if parents then
           (case hStat H w dir rel of
              Inr fi \<Rightarrow>
                if fiType fi = FtDir \<and> existOK then (w, None) else (w, Some (fileExists vpath))
            | Inl _ \<Rightarrow> finish (createDirAll H w dir rel))
         else finish (hMkdir H w dir rel))"

text \<open>\<^verbatim>\<open>unlinkDirErrno\<close> on Linux.\<close>

definition unlinkDirErrno :: errno where
  "unlinkDirErrno = EISDIR"

definition hostUnlink ::
  "('w, 'r, 'f) hostfs \<Rightarrow> 'w \<Rightarrow> 'r \<Rightarrow> string \<Rightarrow> string \<Rightarrow> 'w \<times> mountError option" where
  "hostUnlink H w dir rel vpath =
     (case hLstat H w dir rel of
        Inl err \<Rightarrow> (w, Some (mapIO err vpath))
      | Inr fi \<Rightarrow>
          if fiType fi = FtDir then (w, Some (mapIO (OsErrno unlinkDirErrno) vpath))
          else case hRemove H w dir rel of
                 (w1, Some err) \<Rightarrow> (w1, Some (mapIO err vpath))
               | (w1, None) \<Rightarrow> (w1, None))"

definition hostRmdir ::
  "('w, 'r, 'f) hostfs \<Rightarrow> 'w \<Rightarrow> 'r \<Rightarrow> string \<Rightarrow> string \<Rightarrow> 'w \<times> mountError option" where
  "hostRmdir H w dir rel vpath =
     (case hLstat H w dir rel of
        Inl err \<Rightarrow> (w, Some (mapIO err vpath))
      | Inr fi \<Rightarrow>
          if fiType fi \<noteq> FtDir then (w, Some (mapIO (OsErrno ENOTDIR) vpath))
          else case hRemove H w dir rel of
                 (w1, Some err) \<Rightarrow> (w1, Some (mapIO err vpath))
               | (w1, None) \<Rightarrow> (w1, None))"

section \<open>Listing directories\<close>

text \<open>
  \<^verbatim>\<open>eachDirEntry\<close> over the entries that the directory offers, however they are batched: the
  callback updates a state and answers with stop or an error, and an error of the directory is
  reported after the entries before it.
\<close>

fun eachDirEntry ::
  "dirEntry list \<Rightarrow> oserr option \<Rightarrow> string \<Rightarrow> (dirEntry \<Rightarrow> 's \<Rightarrow> 's \<times> bool \<times> mountError option) \<Rightarrow> 's
     \<Rightarrow> 's \<times> mountError option" where
  "eachDirEntry [] fin vpath fn s =
     (s, case fin of None \<Rightarrow> None | Some err \<Rightarrow> Some (mapIO err vpath))"
| "eachDirEntry (entry # entries) fin vpath fn s =
     (case fn entry s of
        (s1, stop, e) \<Rightarrow>
          if e \<noteq> None \<or> stop then (s1, e) else eachDirEntry entries fin vpath fn s1)"

text \<open>The callback of \<^verbatim>\<open>hostListVisibleDirEntryNames\<close>, with the names and the usage so far.\<close>

definition listEntry ::
  "('w, 'r, 'f) hostfs \<Rightarrow> 'w \<Rightarrow> 'r \<Rightarrow> string \<Rightarrow> memoryBudget \<Rightarrow> dirEntry \<Rightarrow> string list \<times> u64
     \<Rightarrow> (string list \<times> u64) \<times> bool \<times> mountError option" where
  "listEntry H w dir rel budget entry st =
     (case st of (names, usage) \<Rightarrow>
        if deType entry = FtSymlink \<and> \<not> hostExists H w dir (joinMountRelative rel (deName entry))
        then (st, False, None)
        else
          let name = lossyUTF8 (deName entry);
              usage = satAdd (satAdd usage (golen name)) listingEntryMemoryUsage
          in case budget_check budget usage of
               Some e \<Rightarrow> ((names, usage), True, Some e)
             | None \<Rightarrow> ((names @ [name], usage), False, None))"

definition hostListVisibleDirEntryNames ::
  "('w, 'r, 'f) hostfs \<Rightarrow> 'w \<Rightarrow> 'r \<Rightarrow> string \<Rightarrow> string \<Rightarrow> memoryBudget \<Rightarrow> string list mresult" where
  "hostListVisibleDirEntryNames H w dir rel vpath budget =
     (case hStat H w dir rel of
        Inl err \<Rightarrow> Inl (mapIO err vpath)
      | Inr _ \<Rightarrow>
          (case hOpenDir H w dir rel of
             Inl err \<Rightarrow> Inl (mapIO err vpath)
           | Inr f \<Rightarrow>
               (case eachDirEntry (fst (hReadDir H w f)) (snd (hReadDir H w f)) vpath
                       (listEntry H w dir rel budget) ([], 0) of
                  (_, Some e) \<Rightarrow> Inl e
                | ((names, _), None) \<Rightarrow> Inr names)))"

definition namesUsage :: "u64 \<Rightarrow> string list \<Rightarrow> u64" where
  "namesUsage usage names =
     foldl (\<lambda>u name. satAdd (satAdd u (golen name)) listingEntryMemoryUsage) usage names"

text \<open>The loop that turns names into paths, charging each path to the budget.\<close>

fun listPaths :: "string \<Rightarrow> memoryBudget \<Rightarrow> string list \<Rightarrow> u64 \<Rightarrow> pyval list mresult" where
  "listPaths vpath budget [] usage = Inr []"
| "listPaths vpath budget (name # names) usage =
     (let path = formatChildPath vpath name;
          usage = satAdd (satAdd usage (golen path)) listingEntryMemoryUsage
      in case budget_check budget usage of
           Some e \<Rightarrow> Inl e
         | None \<Rightarrow> map_sum id ((#) (VPath path)) (listPaths vpath budget names usage))"

definition hostIterdir ::
  "('w, 'r, 'f) hostfs \<Rightarrow> 'w \<Rightarrow> 'r \<Rightarrow> string \<Rightarrow> string \<Rightarrow> memoryBudget \<Rightarrow> pyval mresult" where
  "hostIterdir H w dir rel vpath budget =
     (case hostListVisibleDirEntryNames H w dir rel vpath (budget_halved budget) of
        Inl e \<Rightarrow> Inl e
      | Inr names \<Rightarrow>
          map_sum id VList (listPaths vpath budget names (namesUsage 0 names)))"

section \<open>Properties\<close>

text \<open>The reading loop, whatever the sizes of the chunks and of the buffer.\<close>

lemma readAtMost_eq:
  "length buf \<le> unat limit \<Longrightarrow>
     readAtMost free buf chunks fin limit =
       (if length buf + length (concat chunks) < unat limit
        then case fin of None \<Rightarrow> Inr (buf @ concat chunks) | Some err \<Rightarrow> Inl err
        else Inr (take (unat limit) (buf @ concat chunks)))"
proof (induction free buf chunks fin limit rule: readAtMost.induct)
  case (1 free buf chunks fin limit)
  show ?case
  proof (cases "length buf < unat limit")
    case False
    with "1.prems" show ?thesis by (subst readAtMost.simps) simp
  next
    case True
    define free' where
      "free' = (if free = 0 then min (max (length buf) 512) (unat limit - length buf) else free)"
    define room where "room = min free' (unat limit - length buf)"
    show ?thesis
    proof (cases chunks)
      case Nil
      then show ?thesis
        using True by (subst readAtMost.simps) (simp add: Nil Let_def split: option.split)
    next
      case (Cons c cs)
      define n where "n = min room (length c)"
      define rest where "rest = (if n < length c then drop n c # cs else cs)"
      have n: "n \<le> unat limit - length buf" "n \<le> length c" by (simp_all add: n_def room_def)
      then have all: "take n c @ concat rest = concat chunks"
        by (simp add: rest_def Cons)
      have len: "length (buf @ take n c) \<le> unat limit"
        using n True unfolding length_append length_take by linarith
      have step: "readAtMost free buf chunks fin limit
          = readAtMost (free' - n) (buf @ take n c) rest fin limit"
        by (subst readAtMost.simps)
          (simp only: True if_True Let_def Cons list.case free'_def [symmetric]
            room_def [symmetric] n_def [symmetric] rest_def [symmetric])
      have data: "(buf @ take n c) @ concat rest = buf @ concat chunks"
        unfolding all [symmetric] by (rule append_assoc)
      have length: "length (buf @ take n c) + length (concat rest) = length buf + length (concat chunks)"
        unfolding all [symmetric] length_append by (rule add.assoc)
      show ?thesis
        using "1.IH" [OF True free'_def room_def Cons n_def len]
        unfolding step rest_def [symmetric] data length .
    qed
  qed
qed

lemma readFileLimited_Inr:
  assumes "readFileLimited H w dir rel vpath budget = Inr content"
  shows "unat (golen content) \<le> unat (mbAvailable budget)"
    and "\<exists>f. hOpenRead H w dir rel = Inr f \<and> (\<exists>limit fin free.
      readAtMost free [] (fst (hRead H w f)) fin limit = Inr content
      \<and> limit = satAdd (mbAvailable budget) 1)"
  using assms
  by (auto simp: readFileLimited_def checkRegular_def budget_check_def Let_def word_le_nat_alt
      not_less split: option.splits sum.splits if_splits)


text \<open>A host with one regular file, for evaluation.\<close>

definition one_file_host :: "(unit, unit, unit) hostfs" where
  "one_file_host =
     \<lparr>hStat = \<lambda>_ _ p. if p = ''f'' then Inr \<lparr>fiType = FtRegular, fiSize = 3, fiModTime = (- 1, 0)\<rparr>
                else if p = ''.'' then Inr \<lparr>fiType = FtDir, fiSize = 0, fiModTime = (- 1, 0)\<rparr>
                else Inl (OsErrno ENOENT),
      hLstat = \<lambda>_ _ p. if p = ''f'' then Inr \<lparr>fiType = FtRegular, fiSize = 3, fiModTime = (- 1, 0)\<rparr>
                else if p = ''.'' then Inr \<lparr>fiType = FtDir, fiSize = 0, fiModTime = (- 1, 0)\<rparr>
                else Inl (OsErrno ENOENT),
      hOpenRoot = \<lambda>_ _ _. Inl (OsErrno ENOENT),
      hOpenRead = \<lambda>_ _ _. Inr (),
      hOpenDir = \<lambda>_ _ _. Inr (),
      hOpenWrite = \<lambda>w _ _ _. (w, Inl (OsErrno EACCES)),
      hFStat = \<lambda>_ _. Inr \<lparr>fiType = FtRegular, fiSize = 3, fiModTime = (- 1, 0)\<rparr>,
      hRead = \<lambda>_ _. ([[104], [105, 33]], None),
      hReadDir = \<lambda>_ _. ([\<lparr>deName = ''f'', deType = FtRegular\<rparr>], None),
      hWrite = \<lambda>w _ _. (w, Some (OsErrno EACCES)),
      hMkdir = \<lambda>w _ _. (w, Some (OsErrno EACCES)),
      hRemove = \<lambda>w _ _. (w, Some (OsErrno EACCES)),
      hRename = \<lambda>w _ _ _. (w, Some (OsErrno EACCES)),
      hNow = \<lambda>_. (- 1, 0),
      hAlloc = \<lambda>_. 1\<rparr>"


text \<open>
  A listing lists each visible entry once, in the order of the directory, as the child path of
  the listed directory.
\<close>

lemma listPaths_Inr:
  "listPaths vpath budget names usage = Inr vs \<Longrightarrow> vs = map (\<lambda>n. VPath (formatChildPath vpath n)) names"
  by (induction names arbitrary: usage vs)
    (auto simp: Let_def map_sum_def split: option.splits sum.splits)

definition visible :: "('w, 'r, 'f) hostfs \<Rightarrow> 'w \<Rightarrow> 'r \<Rightarrow> string \<Rightarrow> dirEntry \<Rightarrow> bool" where
  "visible H w dir rel entry \<longleftrightarrow>
     deType entry \<noteq> FtSymlink \<or> hostExists H w dir (joinMountRelative rel (deName entry))"

lemma eachDirEntry_list:
  assumes "eachDirEntry entries fin vpath (listEntry H w dir rel budget) (names, usage)
      = ((names', usage'), None)"
  shows "names' = names @ map (lossyUTF8 \<circ> deName) (filter (visible H w dir rel) entries)
    \<and> fin = None"
  using assms
proof (induction entries arbitrary: names usage)
  case Nil
  then show ?case by (auto split: option.splits)
next
  case (Cons e es)
  show ?case
  proof (cases "visible H w dir rel e")
    case False
    then have "listEntry H w dir rel budget e (names, usage) = ((names, usage), False, None)"
      by (simp add: listEntry_def visible_def)
    with Cons.prems Cons.IH [of names usage] False show ?thesis by simp
  next
    case True
    let ?u = "satAdd (satAdd usage (golen (lossyUTF8 (deName e)))) listingEntryMemoryUsage"
    have l: "listEntry H w dir rel budget e (names, usage) =
        (case budget_check budget ?u of
           Some x \<Rightarrow> ((names, ?u), True, Some x)
         | None \<Rightarrow> ((names @ [lossyUTF8 (deName e)], ?u), False, None))"
      using True by (auto simp: listEntry_def visible_def Let_def)
    with Cons.prems have "budget_check budget ?u = None"
      by (cases "budget_check budget ?u") simp_all
    with l Cons.prems Cons.IH [of "names @ [lossyUTF8 (deName e)]" ?u] True show ?thesis by simp
  qed
qed

lemma hostList_Inr:
  assumes "hostListVisibleDirEntryNames H w dir rel vpath budget = Inr names"
  shows "\<exists>f. hOpenDir H w dir rel = Inr f \<and> snd (hReadDir H w f) = None
    \<and> names = map (lossyUTF8 \<circ> deName) (filter (visible H w dir rel) (fst (hReadDir H w f)))"
proof -
  from assms obtain f where f: "hOpenDir H w dir rel = Inr f"
    by (auto simp: hostListVisibleDirEntryNames_def split: sum.splits)
  with assms obtain usage where "eachDirEntry (fst (hReadDir H w f)) (snd (hReadDir H w f)) vpath
      (listEntry H w dir rel budget) ([], 0) = ((names, usage), None)"
    by (auto simp: hostListVisibleDirEntryNames_def split: sum.splits prod.splits option.splits)
  from eachDirEntry_list [OF this] f show ?thesis by auto
qed

text \<open>
  \<^verbatim>\<open>iterdir\<close> on a host directory: a successful listing holds one path for every entry
  of the directory in the directory's order, except the symbolic links that do not resolve
  inside the mount, and each path is the child path of the listed directory.
\<close>

theorem hostIterdir_visible:
  assumes "hostIterdir H w dir rel vpath budget = Inr v"
  shows "\<exists>f. hOpenDir H w dir rel = Inr f
    \<and> v = VList (map (\<lambda>e. VPath (formatChildPath vpath (lossyUTF8 (deName e))))
        (filter (visible H w dir rel) (fst (hReadDir H w f))))"
proof -
  from assms obtain names vs where
    n: "hostListVisibleDirEntryNames H w dir rel vpath (budget_halved budget) = Inr names"
    and vs: "listPaths vpath budget names (namesUsage 0 names) = Inr vs" "v = VList vs"
    by (auto simp: hostIterdir_def map_sum_def split: sum.splits)
  from hostList_Inr [OF n] listPaths_Inr [OF vs(1)] vs(2) show ?thesis by (auto simp: comp_def)
qed

theorem hostIterdir_visible_witness:
  "hostIterdir one_file_host () () ''.'' ''/mnt'' (fullBudget 1000) = Inr (VList [VPath ''/mnt/f''])
   \<and> filter (visible one_file_host () () ''.'') (fst (hReadDir one_file_host () ())) \<noteq> []"
proof -
  have v: "hostIterdir one_file_host () () ''.'' ''/mnt'' (fullBudget 1000)
      = Inr (VList [VPath ''/mnt/f''])" by code_simp
  from hostIterdir_visible [OF v] v show ?thesis by auto
qed

end
