(* ===== verification/OsCall.thy ===== *)
theory OsCall
  imports PathPolicy
begin

text \<open>
  OS calls as the sandbox sends them: the call type and its predicates in
  \<^verbatim>\<open>internal/wire/oscall.go\<close>.
\<close>

section \<open>Data\<close>

text \<open>\<open>OpUnset\<close> is the zero value of \<^verbatim>\<open>OsOp\<close>; \<open>opNum\<close> gives the field numbers.\<close>

datatype osOp =
    OpUnset
  | OpExists | OpIsFile | OpIsDir | OpIsSymlink | OpReadText | OpReadBytes | OpStat | OpIterdir
  | OpResolve | OpAbsolute | OpUnlink | OpRmdir | OpWriteText | OpAppendText | OpWriteBytes
  | OpAppendBytes | OpOpen | OpMkdir | OpRename | OpGetenv | OpGetEnviron | OpDateToday
  | OpDateTimeNow

fun opNum :: "osOp \<Rightarrow> nat" where
  "opNum OpUnset = 0"
| "opNum OpExists = 2" | "opNum OpIsFile = 3" | "opNum OpIsDir = 4" | "opNum OpIsSymlink = 5"
| "opNum OpReadText = 6" | "opNum OpReadBytes = 7" | "opNum OpStat = 8" | "opNum OpIterdir = 9"
| "opNum OpResolve = 10" | "opNum OpAbsolute = 11" | "opNum OpUnlink = 12" | "opNum OpRmdir = 13"
| "opNum OpWriteText = 14" | "opNum OpAppendText = 15" | "opNum OpWriteBytes = 16"
| "opNum OpAppendBytes = 17" | "opNum OpOpen = 18" | "opNum OpMkdir = 19" | "opNum OpRename = 20"
| "opNum OpGetenv = 21" | "opNum OpGetEnviron = 22" | "opNum OpDateToday = 23"
| "opNum OpDateTimeNow = 24"

fun opName :: "osOp \<Rightarrow> string" where
  "opName OpUnset = []"
| "opName OpExists = ''Path.exists''" | "opName OpIsFile = ''Path.is_file''"
| "opName OpIsDir = ''Path.is_dir''" | "opName OpIsSymlink = ''Path.is_symlink''"
| "opName OpReadText = ''Path.read_text''" | "opName OpReadBytes = ''Path.read_bytes''"
| "opName OpStat = ''Path.stat''" | "opName OpIterdir = ''Path.iterdir''"
| "opName OpResolve = ''Path.resolve''" | "opName OpAbsolute = ''Path.absolute''"
| "opName OpUnlink = ''Path.unlink''" | "opName OpRmdir = ''Path.rmdir''"
| "opName OpWriteText = ''Path.write_text''" | "opName OpAppendText = ''Path.append_text''"
| "opName OpWriteBytes = ''Path.write_bytes''" | "opName OpAppendBytes = ''Path.append_bytes''"
| "opName OpOpen = ''open''" | "opName OpMkdir = ''Path.mkdir''"
| "opName OpRename = ''Path.rename''" | "opName OpGetenv = ''os.getenv''"
| "opName OpGetEnviron = ''os.environ''" | "opName OpDateToday = ''date.today''"
| "opName OpDateTimeNow = ''datetime.now''"

text \<open>\<^verbatim>\<open>PayloadErr\<close> is only ever set for an invalid open mode; \<open>ocPayloadErr\<close> is that mode.\<close>

record osCall =
  ocCallID :: "32 word"
  ocOp :: osOp
  ocPath :: string
  ocDst :: string
  ocText :: string
  ocData :: bytes
  ocMode :: string
  ocParents :: bool
  ocExistOK :: bool
  ocKey :: string
  ocDefault :: pyval
  ocHasTZ :: bool
  ocTZ :: pyTimeZone
  ocPayloadErr :: "string option"

section \<open>Operations\<close>

definition IsFS :: "osCall \<Rightarrow> bool" where
  "IsFS c \<longleftrightarrow> opNum OpExists \<le> opNum (ocOp c) \<and> opNum (ocOp c) \<le> opNum OpRename"

definition IsExistenceCheck :: "osCall \<Rightarrow> bool" where
  "IsExistenceCheck c \<longleftrightarrow> opNum OpExists \<le> opNum (ocOp c) \<and> opNum (ocOp c) \<le> opNum OpIsSymlink"

definition IsWrite :: "osCall \<Rightarrow> bool" where
  "IsWrite c \<longleftrightarrow>
     (if ocOp c \<in> {OpWriteText, OpWriteBytes, OpAppendText, OpAppendBytes, OpMkdir, OpUnlink, OpRmdir,
        OpRename} then True
      else if ocOp c = OpOpen then
        0 < length (ocMode c) \<and> (hd (ocMode c) = CHR ''w'' \<or> hd (ocMode c) = CHR ''a'')
      else False)"

definition NullMessage :: "osCall \<Rightarrow> bool \<Rightarrow> string" where
  "NullMessage c dst =
     (case ocOp c of
        OpMkdir \<Rightarrow> ''mkdir: embedded null character in path''
      | OpUnlink \<Rightarrow> ''unlink: embedded null character in path''
      | OpRmdir \<Rightarrow> ''rmdir: embedded null character in path''
      | OpStat \<Rightarrow> ''stat: embedded null character in path''
      | OpIterdir \<Rightarrow> ''scandir: embedded null character in path''
      | OpResolve \<Rightarrow> ''lstat: embedded null character in path''
      | OpRename \<Rightarrow>
          if dst then ''rename: embedded null character in dst''
          else ''rename: embedded null character in src''
      | _ \<Rightarrow> ''embedded null byte'')"

definition argPath :: "string \<Rightarrow> pyval" where
  "argPath p = (if p = [] then VPath [] else VPath (NormalizeVirtualPath p))"

definition OsCall_Args :: "osCall \<Rightarrow> pyval list \<times> (pyval \<times> pyval) list" where
  "OsCall_Args c =
     (if opNum OpExists \<le> opNum (ocOp c) \<and> opNum (ocOp c) \<le> opNum OpRmdir then
        ([argPath (ocPath c)], [])
      else case ocOp c of
        OpWriteText \<Rightarrow> ([argPath (ocPath c), VStr (ocText c)], [])
      | OpAppendText \<Rightarrow> ([argPath (ocPath c), VStr (ocText c)], [])
      | OpWriteBytes \<Rightarrow> ([argPath (ocPath c), VBytes (ocData c)], [])
      | OpAppendBytes \<Rightarrow> ([argPath (ocPath c), VBytes (ocData c)], [])
      | OpOpen \<Rightarrow> ([argPath (ocPath c), VStr (ocMode c)], [])
      | OpMkdir \<Rightarrow>
          ([argPath (ocPath c)],
           [(VStr ''parents'', VBool (ocParents c)), (VStr ''exist_ok'', VBool (ocExistOK c))])
      | OpRename \<Rightarrow> ([argPath (ocPath c), argPath (ocDst c)], [])
      | OpGetenv \<Rightarrow> ([VStr (ocKey c), ocDefault c], [])
      | OpDateTimeNow \<Rightarrow> (if ocHasTZ c then [VTimeZone (ocTZ c)] else [VNone], [])
      | _ \<Rightarrow> ([], []))"

end
