(* ===== verification/Overlay.thy ===== *)
theory Overlay
  imports Host OsCall
begin

text \<open>
  Overlay mounts: \<^verbatim>\<open>internal/mountfs/overlay.go\<close>. Reads fall through to the host directory,
  writes stay in the overlay state. No operation here returns a world, so none of them can change
  the host. Every function takes the operating system \<open>H\<close> and the world \<open>w\<close> it reads.
\<close>

section \<open>Data\<close>

record 'r root =
  rootVirtualPath :: string
  rootHostPath :: string
  rootDir :: 'r
  rootClosed :: bool

record 'r mount =
  mRoot :: "'r root"
  mMode :: mode
  mWriteUsed :: u64
  mWriteLimit :: "u64 option"
  mMemLimit :: u64
  mOverlay :: overlayState

abbreviation mVirtual :: "'r mount \<Rightarrow> string" where
  "mVirtual m \<equiv> rootVirtualPath (mRoot m)"

abbreviation mDir :: "'r mount \<Rightarrow> 'r" where
  "mDir m \<equiv> rootDir (mRoot m)"

datatype realTarget = TargetDir | TargetFile | TargetSymlink | TargetAbsent

record 'r componentWalk =
  cwRoot :: 'r
  cwCurrent :: "'r option"
  cwExhausted :: bool

datatype lookupFailure = LookupMissing | LookupPropagate

section \<open>Write limits\<close>

definition checkWriteLimit :: "'r mount \<Rightarrow> u64 \<Rightarrow> mountError option" where
  "checkWriteLimit m n =
     (case mWriteLimit m of
        None \<Rightarrow> None
      | Some limit \<Rightarrow>
          if limit < satAdd (mWriteUsed m) n then Some (ErrWriteLimit limit) else None)"

definition commitWriteBytes :: "'r mount \<Rightarrow> u64 \<Rightarrow> 'r mount" where
  "commitWriteBytes m n =
     (case mWriteLimit m of
        None \<Rightarrow> m
      | Some _ \<Rightarrow> m\<lparr>mWriteUsed := satAdd (mWriteUsed m) n\<rparr>)"

definition fileHandle :: "('w, 'r, 'f) hostfs \<Rightarrow> 'w \<Rightarrow> string \<Rightarrow> string \<Rightarrow> pyval" where
  "fileHandle H w path mode = VFileHandle (hAlloc H w) (NormalizeVirtualPath path) mode 0"

section \<open>Walking the real tree\<close>

definition notFoundErr :: "oserr \<Rightarrow> bool" where
  "notFoundErr err \<longleftrightarrow> \<not> isPathEscape err \<and> ioKindOf err = ioNotFound"

definition classifyTarget ::
  "('w, 'r, 'f) hostfs \<Rightarrow> 'w \<Rightarrow> 'r \<Rightarrow> string \<Rightarrow> string \<Rightarrow> realTarget mresult" where
  "classifyTarget H w dir rel vpath =
     (case hLstat H w dir rel of
        Inl err \<Rightarrow> if notFoundErr err then Inr TargetAbsent else Inl (mapIO err vpath)
      | Inr fi \<Rightarrow>
          if fiType fi = FtSymlink then Inr TargetSymlink
          else if fiType fi = FtDir then Inr TargetDir
          else Inr TargetFile)"

definition walk_here :: "'r componentWalk \<Rightarrow> 'r" where
  "walk_here wk = (case cwCurrent wk of Some r \<Rightarrow> r | None \<Rightarrow> cwRoot wk)"

definition walk_step ::
  "('w, 'r, 'f) hostfs \<Rightarrow> 'w \<Rightarrow> 'r componentWalk \<Rightarrow> string \<Rightarrow> string
     \<Rightarrow> 'r componentWalk \<times> realTarget mresult" where
  "walk_step H w wk component vpath =
     (if cwExhausted wk then (wk, Inr TargetAbsent)
      else case classifyTarget H w (walk_here wk) component vpath of
             Inl e \<Rightarrow> (wk, Inl e)
           | Inr target \<Rightarrow>
               if target \<noteq> TargetDir then (wk\<lparr>cwExhausted := True\<rparr>, Inr target)
               else case hOpenRoot H w (walk_here wk) component of
                      Inl err \<Rightarrow>
                        if notFoundErr err then (wk\<lparr>cwExhausted := True\<rparr>, Inr TargetAbsent)
                        else (wk, Inl (mapIO err vpath))
                    | Inr nxt \<Rightarrow> (wk\<lparr>cwCurrent := Some nxt\<rparr>, Inr target))"

definition new_walk :: "'r \<Rightarrow> 'r componentWalk" where
  "new_walk dir = \<lparr>cwRoot = dir, cwCurrent = None, cwExhausted = False\<rparr>"

fun symlinkLoop ::
  "('w, 'r, 'f) hostfs \<Rightarrow> 'w \<Rightarrow> 'r componentWalk \<Rightarrow> string list \<Rightarrow> string \<Rightarrow> mountError option" where
  "symlinkLoop H w wk [] vpath = None"
| "symlinkLoop H w wk (component # rest) vpath =
     (case walk_step H w wk component vpath of
        (wk1, Inl e) \<Rightarrow> Some e
      | (wk1, Inr TargetSymlink) \<Rightarrow> Some (ErrPathEscape vpath)
      | (wk1, Inr TargetAbsent) \<Rightarrow> None
      | (wk1, Inr TargetFile) \<Rightarrow> None
      | (wk1, Inr TargetDir) \<Rightarrow> symlinkLoop H w wk1 rest vpath)"

definition rejectSymlinkChain ::
  "('w, 'r, 'f) hostfs \<Rightarrow> 'w \<Rightarrow> 'r \<Rightarrow> string \<Rightarrow> string \<Rightarrow> mountError option" where
  "rejectSymlinkChain H w dir rel vpath =
     (if rel = [] \<or> rel = ''.'' then None
      else symlinkLoop H w (new_walk dir) (split_on CHR ''/'' rel) vpath)"

definition directoryPrefix :: "string \<Rightarrow> string" where
  "directoryPrefix rel = (if rel = [] then [] else rel @ ''/'')"

definition resolveReal :: "('w, 'r, 'f) hostfs \<Rightarrow> 'w \<Rightarrow> 'r mount \<Rightarrow> string \<Rightarrow> string mresult" where
  "resolveReal H w m vpath =
     (case resolveVirtualPath vpath (mVirtual m) of
        Inl e \<Rightarrow> Inl e
      | Inr rel \<Rightarrow>
          (case rejectSymlinkChain H w (mDir m) (dirOp rel) vpath of
             Some e \<Rightarrow> Inl e
           | None \<Rightarrow> Inr rel))"

definition checkedRefPath ::
  "('w, 'r, 'f) hostfs \<Rightarrow> 'w \<Rightarrow> 'r mount \<Rightarrow> string \<Rightarrow> string \<Rightarrow> string mresult" where
  "checkedRefPath H w m relative vpath =
     (case rejectSymlinkChain H w (mDir m) relative vpath of
        Some e \<Rightarrow> Inl e
      | None \<Rightarrow> Inr relative)"

definition availableMemory :: "'r mount \<Rightarrow> memoryBudget mresult" where
  "availableMemory m =
     (let usage = memoryUsage (mOverlay m)
      in if mMemLimit m < usage then Inl (ErrMemoryLimit (mMemLimit m))
         else Inr \<lparr>mbAvailable = mMemLimit m - usage, mbLimit = mMemLimit m\<rparr>)"

text \<open>The result is the spelling for the host when the real path is present.\<close>

definition resolveRealPathState ::
  "('w, 'r, 'f) hostfs \<Rightarrow> 'w \<Rightarrow> 'r mount \<Rightarrow> string \<Rightarrow> lookupFailure \<Rightarrow> string option mresult" where
  "resolveRealPathState H w m vpath onFailure =
     (case resolveReal H w m vpath of
        Inl e \<Rightarrow> if onFailure = LookupMissing then Inr None else Inl e
      | Inr target \<Rightarrow>
          let rel = dirOp target
          in case hStat H w (mDir m) rel of
               Inr _ \<Rightarrow> Inr (Some rel)
             | Inl err \<Rightarrow>
                 if notFoundErr err \<or> onFailure = LookupMissing then Inr None
                 else Inl (mapIO err vpath))"

section \<open>Parents and targets\<close>

fun parentLoop ::
  "('w, 'r, 'f) hostfs \<Rightarrow> 'w \<Rightarrow> overlayState \<Rightarrow> 'r componentWalk \<Rightarrow> string \<Rightarrow> string list \<Rightarrow> string
     \<Rightarrow> mountError option" where
  "parentLoop H w st wk current [] vpath = None"
| "parentLoop H w st wk current (component # rest) vpath =
     (let current = (if current \<noteq> [] then current @ ''/'' else current) @ component
      in case walk_step H w wk component vpath of
           (wk1, Inl e) \<Rightarrow> Some e
         | (wk1, Inr found) \<Rightarrow>
             (case ov_get st current of
                Some (EntDirectory _) \<Rightarrow> parentLoop H w st wk1 current rest vpath
              | Some _ \<Rightarrow> Some (notFound vpath)
              | None \<Rightarrow>
                  (case found of
                     TargetDir \<Rightarrow> parentLoop H w st wk1 current rest vpath
                   | TargetSymlink \<Rightarrow> Some (ErrPathEscape vpath)
                   | _ \<Rightarrow> Some (notFound vpath))))"

definition ensureParentExists ::
  "('w, 'r, 'f) hostfs \<Rightarrow> 'w \<Rightarrow> 'r mount \<Rightarrow> string \<Rightarrow> string \<Rightarrow> mountError option" where
  "ensureParentExists H w m rel vpath =
     (case last_index_byte CHR ''/'' rel of
        None \<Rightarrow> None
      | Some i \<Rightarrow>
          parentLoop H w (mOverlay m) (new_walk (mDir m)) [] (split_on CHR ''/'' (take i rel)) vpath)"

definition rejectDirectoryTarget ::
  "('w, 'r, 'f) hostfs \<Rightarrow> 'w \<Rightarrow> 'r mount \<Rightarrow> string \<Rightarrow> string \<Rightarrow> mountError option" where
  "rejectDirectoryTarget H w m rel vpath =
     (case ov_get (mOverlay m) rel of
        Some (EntDirectory _) \<Rightarrow> Some (isADirectory vpath)
      | Some _ \<Rightarrow> None
      | None \<Rightarrow>
          (case resolveReal H w m vpath of
             Inl e \<Rightarrow> Some e
           | Inr target \<Rightarrow>
               (case classifyTarget H w (mDir m) (dirOp target) vpath of
                  Inl e \<Rightarrow> Some e
                | Inr TargetDir \<Rightarrow> Some (isADirectory vpath)
                | Inr TargetSymlink \<Rightarrow> Some (ErrPathEscape vpath)
                | Inr _ \<Rightarrow> None)))"

section \<open>Queries\<close>

definition overlayPredicate ::
  "('w, 'r, 'f) hostfs \<Rightarrow> 'w \<Rightarrow> 'r mount \<Rightarrow> string \<Rightarrow> string \<Rightarrow> (overlayEntry \<Rightarrow> bool)
     \<Rightarrow> ('r \<Rightarrow> string \<Rightarrow> bool) \<Rightarrow> pyval mresult" where
  "overlayPredicate H w m rel vpath byKind host =
     (case ov_get (mOverlay m) rel of
        Some entry \<Rightarrow> Inr (VBool (byKind entry))
      | None \<Rightarrow>
          (case resolveRealPathState H w m vpath LookupMissing of
             Inl e \<Rightarrow> Inl e
           | Inr None \<Rightarrow> Inr (VBool False)
           | Inr (Some found) \<Rightarrow> Inr (VBool (host (mDir m) found))))"

definition overlayIsSymlink ::
  "('w, 'r, 'f) hostfs \<Rightarrow> 'w \<Rightarrow> 'r mount \<Rightarrow> string \<Rightarrow> string \<Rightarrow> bool" where
  "overlayIsSymlink H w m rel vpath =
     (if ov_get (mOverlay m) rel \<noteq> None then False
      else case resolveVirtualPath vpath (mVirtual m) of
             Inl e \<Rightarrow> False
           | Inr target \<Rightarrow>
               let op = dirOp target;
                   parent = (case last_index_byte CHR ''/'' op of Some i \<Rightarrow> take i op | None \<Rightarrow> [])
               in rejectSymlinkChain H w (mDir m) parent vpath = None
                  \<and> hostIsSymlink H w (mDir m) op)"

definition overlayRead ::
  "('w, 'r, 'f) hostfs \<Rightarrow> 'w \<Rightarrow> 'r mount \<Rightarrow> string \<Rightarrow> string \<Rightarrow> bytes mresult" where
  "overlayRead H w m rel vpath =
     (case ov_get (mOverlay m) rel of
        None \<Rightarrow>
          (case resolveReal H w m vpath of
             Inl e \<Rightarrow> Inl e
           | Inr target \<Rightarrow>
               (case availableMemory m of
                  Inl e \<Rightarrow> Inl e
                | Inr budget \<Rightarrow> readFileLimited H w (mDir m) (dirOp target) vpath budget))
      | Some (EntFile content _) \<Rightarrow>
          (case availableMemory m of
             Inl e \<Rightarrow> Inl e
           | Inr budget \<Rightarrow>
               (case budget_check budget (golen content) of
                  Some e \<Rightarrow> Inl e
                | None \<Rightarrow> Inr content))
      | Some (EntRealFileRef relative _ _) \<Rightarrow>
          (case checkedRefPath H w m relative vpath of
             Inl e \<Rightarrow> Inl e
           | Inr ref \<Rightarrow>
               (case availableMemory m of
                  Inl e \<Rightarrow> Inl e
                | Inr budget \<Rightarrow> readFileLimited H w (mDir m) ref vpath budget))
      | Some (EntDirectory _) \<Rightarrow> Inl (isADirectory vpath)
      | Some EntDeleted \<Rightarrow> Inl (notFound vpath))"

definition overlayStat ::
  "('w, 'r, 'f) hostfs \<Rightarrow> 'w \<Rightarrow> 'r mount \<Rightarrow> string \<Rightarrow> string \<Rightarrow> pyval mresult" where
  "overlayStat H w m rel vpath =
     (case ov_get (mOverlay m) rel of
        None \<Rightarrow>
          (case resolveReal H w m vpath of
             Inl e \<Rightarrow> Inl e
           | Inr target \<Rightarrow> hostStat H w (mDir m) (dirOp target) vpath)
      | Some (EntFile content mtime) \<Rightarrow> Inr (fileStat (int (length content)) mtime)
      | Some (EntRealFileRef relative mtime sz) \<Rightarrow>
          (case checkedRefPath H w m relative vpath of
             Inl e \<Rightarrow> Inl e
           | Inr _ \<Rightarrow> Inr (fileStat sz mtime))
      | Some (EntDirectory mtime) \<Rightarrow> Inr (dirStat mtime)
      | Some EntDeleted \<Rightarrow> Inl (notFound vpath))"

section \<open>Writing\<close>

definition overlayWrite ::
  "('w, 'r, 'f) hostfs \<Rightarrow> 'w \<Rightarrow> 'r mount \<Rightarrow> string \<Rightarrow> bytes \<Rightarrow> int \<Rightarrow> 'r mount \<times> pyval mresult" where
  "overlayWrite H w m vpath data result =
     (let n = golen data
      in case checkWriteLimit m n of
           Some e \<Rightarrow> (m, Inl e)
         | None \<Rightarrow>
             (case resolveVirtualPath vpath (mVirtual m) of
                Inl e \<Rightarrow> (m, Inl e)
              | Inr rel \<Rightarrow>
                  (case ensureParentExists H w m rel vpath of
                     Some e \<Rightarrow> (m, Inl e)
                   | None \<Rightarrow>
                       (case rejectDirectoryTarget H w m rel vpath of
                          Some e \<Rightarrow> (m, Inl e)
                        | None \<Rightarrow>
                            (case checkFileReplacement (mOverlay m) rel n (mMemLimit m) of
                               Some e \<Rightarrow> (m, Inl e)
                             | None \<Rightarrow>
                                 (case ov_insert (mOverlay m) rel
                                         (EntFile data (currentTimestamp H w)) (mMemLimit m) of
                                    Inl e \<Rightarrow> (m, Inl e)
                                  | Inr st \<Rightarrow>
                                      (commitWriteBytes (m\<lparr>mOverlay := st\<rparr>) n,
                                       Inr (VInt GoInt64 result))))))))"

definition hostFileLen ::
  "('w, 'r, 'f) hostfs \<Rightarrow> 'w \<Rightarrow> 'r mount \<Rightarrow> string \<Rightarrow> string \<Rightarrow> u64 mresult" where
  "hostFileLen H w m rel vpath =
     (case hStat H w (mDir m) rel of
        Inl err \<Rightarrow> Inl (mapIO err vpath)
      | Inr fi \<Rightarrow> Inr (of_int (max (fiSize fi) 0)))"

definition existingFileLen ::
  "('w, 'r, 'f) hostfs \<Rightarrow> 'w \<Rightarrow> 'r mount \<Rightarrow> string \<Rightarrow> string \<Rightarrow> u64 mresult" where
  "existingFileLen H w m rel vpath =
     (case ov_get (mOverlay m) rel of
        None \<Rightarrow>
          (case resolveRealPathState H w m vpath LookupPropagate of
             Inl e \<Rightarrow> Inl e
           | Inr None \<Rightarrow> Inr 0
           | Inr (Some found) \<Rightarrow> hostFileLen H w m found vpath)
      | Some (EntFile content _) \<Rightarrow> Inr (golen content)
      | Some (EntRealFileRef relative _ _) \<Rightarrow>
          (case checkedRefPath H w m relative vpath of
             Inl e \<Rightarrow> Inl e
           | Inr ref \<Rightarrow> hostFileLen H w m ref vpath)
      | Some (EntDirectory _) \<Rightarrow> Inl (isADirectory vpath)
      | Some EntDeleted \<Rightarrow> Inr 0)"

definition existingFileBytes ::
  "('w, 'r, 'f) hostfs \<Rightarrow> 'w \<Rightarrow> 'r mount \<Rightarrow> string \<Rightarrow> string \<Rightarrow> memoryBudget \<Rightarrow> bytes mresult" where
  "existingFileBytes H w m rel vpath budget =
     (case ov_get (mOverlay m) rel of
        None \<Rightarrow>
          (case resolveRealPathState H w m vpath LookupPropagate of
             Inl e \<Rightarrow> Inl e
           | Inr None \<Rightarrow> Inr []
           | Inr (Some found) \<Rightarrow> readFileLimited H w (mDir m) found vpath budget)
      | Some (EntFile content _) \<Rightarrow>
          (case budget_check budget (golen content) of
             Some e \<Rightarrow> Inl e
           | None \<Rightarrow> Inr content)
      | Some (EntRealFileRef relative _ _) \<Rightarrow>
          (case checkedRefPath H w m relative vpath of
             Inl e \<Rightarrow> Inl e
           | Inr ref \<Rightarrow> readFileLimited H w (mDir m) ref vpath budget)
      | Some (EntDirectory _) \<Rightarrow> Inl (isADirectory vpath)
      | Some EntDeleted \<Rightarrow> Inr [])"

text \<open>
  \<^verbatim>\<open>overlayAppend\<close> in two steps: \<open>appendCopy\<close> is the block after \<^verbatim>\<open>if !appended\<close>, which
  pulls the existing content into the overlay.
\<close>

definition appendCopy ::
  "('w, 'r, 'f) hostfs \<Rightarrow> 'w \<Rightarrow> 'r mount \<Rightarrow> string \<Rightarrow> string \<Rightarrow> bytes \<Rightarrow> u64 \<Rightarrow> overlayState mresult" where
  "appendCopy H w m rel vpath data existingLen =
     (let n = golen data; finalLen = satAdd existingLen n
      in case checkFileReplacement (mOverlay m) rel finalLen (mMemLimit m) of
           Some e \<Rightarrow> Inl e
         | None \<Rightarrow>
             (case availableMemory m of
                Inl e \<Rightarrow> Inl e
              | Inr budget \<Rightarrow>
                  (case budget_check budget finalLen of
                     Some e \<Rightarrow> Inl e
                   | None \<Rightarrow>
                       (case budget_shrink budget n of
                          Inl e \<Rightarrow> Inl e
                        | Inr shrunk \<Rightarrow>
                            (case existingFileBytes H w m rel vpath shrunk of
                               Inl e \<Rightarrow> Inl e
                             | Inr content \<Rightarrow>
                                 ov_insert (mOverlay m) rel
                                   (EntFile (content @ data) (currentTimestamp H w)) (mMemLimit m))))))"

definition overlayAppend ::
  "('w, 'r, 'f) hostfs \<Rightarrow> 'w \<Rightarrow> 'r mount \<Rightarrow> string \<Rightarrow> bytes \<Rightarrow> 'r mount \<times> mountError option" where
  "overlayAppend H w m vpath data =
     (case resolveVirtualPath vpath (mVirtual m) of
        Inl e \<Rightarrow> (m, Some e)
      | Inr rel \<Rightarrow>
          (case ensureParentExists H w m rel vpath of
             Some e \<Rightarrow> (m, Some e)
           | None \<Rightarrow>
               (case rejectDirectoryTarget H w m rel vpath of
                  Some e \<Rightarrow> (m, Some e)
                | None \<Rightarrow>
                    let targetIsOverlayFile =
                          (case ov_get (mOverlay m) rel of Some (EntFile _ _) \<Rightarrow> True | _ \<Rightarrow> False)
                    in case existingFileLen H w m rel vpath of
                         Inl e \<Rightarrow> (m, Some e)
                       | Inr existingLen \<Rightarrow>
                           let n = golen data;
                               charged = (if mWriteLimit m \<noteq> None \<and> \<not> targetIsOverlayFile
                                          then satAdd existingLen n else n)
                           in case checkWriteLimit m charged of
                                Some e \<Rightarrow> (m, Some e)
                              | None \<Rightarrow>
                                  (case appendFile (mOverlay m) rel data (currentTimestamp H w)
                                          (mMemLimit m) of
                                     Inl e \<Rightarrow> (m, Some e)
                                   | Inr (st, True) \<Rightarrow>
                                       (commitWriteBytes (m\<lparr>mOverlay := st\<rparr>) charged, None)
                                   | Inr (st, False) \<Rightarrow>
                                       (case appendCopy H w m rel vpath data existingLen of
                                          Inl e \<Rightarrow> (m, Some e)
                                        | Inr st1 \<Rightarrow>
                                            (commitWriteBytes (m\<lparr>mOverlay := st1\<rparr>) charged,
                                             None))))))"

section \<open>Directories\<close>

text \<open>
  The loop of \<^verbatim>\<open>createOverlayParents\<close>. The directories inserted before a failure stay, so
  the state is returned with the error.
\<close>

fun createParentsLoop ::
  "('w, 'r, 'f) hostfs \<Rightarrow> 'w \<Rightarrow> 'r mount \<Rightarrow> overlayState \<Rightarrow> 'r componentWalk \<Rightarrow> string \<Rightarrow> string list
     \<Rightarrow> overlayState \<times> mountError option" where
  "createParentsLoop H w m st wk current [] = (st, None)"
| "createParentsLoop H w m st wk current (component # rest) =
     (let current = (if current \<noteq> [] then current @ ''/'' else current) @ component;
          currentVpath = formatChildPath (mVirtual m) current
      in case walk_step H w wk component currentVpath of
           (wk1, Inl e) \<Rightarrow> (st, Some e)
         | (wk1, Inr found) \<Rightarrow>
             (let insert_here =
                    (case ov_insert st current (EntDirectory (currentTimestamp H w)) (mMemLimit m) of
                       Inl e \<Rightarrow> (st, Some e)
                     | Inr st1 \<Rightarrow> createParentsLoop H w m st1 wk1 current rest)
              in case ov_get st current of
                   Some (EntFile _ _) \<Rightarrow> (st, Some (notADirectory currentVpath))
                 | Some (EntRealFileRef _ _ _) \<Rightarrow> (st, Some (notADirectory currentVpath))
                 | Some EntDeleted \<Rightarrow> insert_here
                 | Some (EntDirectory _) \<Rightarrow> createParentsLoop H w m st wk1 current rest
                 | None \<Rightarrow>
                     (case found of
                        TargetDir \<Rightarrow> createParentsLoop H w m st wk1 current rest
                      | TargetSymlink \<Rightarrow> (st, Some (ErrPathEscape currentVpath))
                      | TargetFile \<Rightarrow> (st, Some (notADirectory currentVpath))
                      | TargetAbsent \<Rightarrow> insert_here)))"

definition createOverlayParents ::
  "('w, 'r, 'f) hostfs \<Rightarrow> 'w \<Rightarrow> 'r mount \<Rightarrow> string \<Rightarrow> overlayState \<times> mountError option" where
  "createOverlayParents H w m rel =
     createParentsLoop H w m (mOverlay m) (new_walk (mDir m)) [] (split_on CHR ''/'' rel)"

text \<open>The block of \<^verbatim>\<open>overlayMkdir\<close> after the checks of the target.\<close>

definition mkdirInsert ::
  "('w, 'r, 'f) hostfs \<Rightarrow> 'w \<Rightarrow> 'r mount \<Rightarrow> string \<Rightarrow> bool \<Rightarrow> string \<Rightarrow> 'r mount \<times> mountError option" where
  "mkdirInsert H w m rel parents vpath =
     (case (if parents then createOverlayParents H w m rel
            else (mOverlay m, ensureParentExists H w m rel vpath)) of
        (st, Some e) \<Rightarrow> (m\<lparr>mOverlay := st\<rparr>, Some e)
      | (st, None) \<Rightarrow>
          (case ov_insert st rel (EntDirectory (currentTimestamp H w)) (mMemLimit m) of
             Inl e \<Rightarrow> (m\<lparr>mOverlay := st\<rparr>, Some e)
           | Inr st1 \<Rightarrow> (m\<lparr>mOverlay := st1\<rparr>, None)))"

definition overlayMkdir ::
  "('w, 'r, 'f) hostfs \<Rightarrow> 'w \<Rightarrow> 'r mount \<Rightarrow> string \<Rightarrow> bool \<Rightarrow> bool \<Rightarrow> string
     \<Rightarrow> 'r mount \<times> mountError option" where
  "overlayMkdir H w m rel parents existOK vpath =
     (case ov_get (mOverlay m) rel of
        Some (EntDirectory _) \<Rightarrow> (m, if existOK then None else Some (fileExists vpath))
      | Some (EntFile _ _) \<Rightarrow> (m, Some (fileExists vpath))
      | Some (EntRealFileRef _ _ _) \<Rightarrow> (m, Some (fileExists vpath))
      | Some EntDeleted \<Rightarrow> mkdirInsert H w m rel parents vpath
      | None \<Rightarrow>
          (case resolveReal H w m vpath of
             Inl e \<Rightarrow> (m, Some e)
           | Inr target \<Rightarrow>
               (case classifyTarget H w (mDir m) (dirOp target) vpath of
                  Inl e \<Rightarrow> (m, Some e)
                | Inr TargetDir \<Rightarrow> (m, if existOK then None else Some (fileExists vpath))
                | Inr TargetFile \<Rightarrow> (m, Some (fileExists vpath))
                | Inr TargetSymlink \<Rightarrow> (m, Some (ErrPathEscape vpath))
                | Inr TargetAbsent \<Rightarrow> mkdirInsert H w m rel parents vpath)))"

text \<open>Marking a key as deleted, with its result as the operations return it.\<close>

definition mark :: "'r mount \<Rightarrow> string \<Rightarrow> overlayEntry \<Rightarrow> 'r mount \<times> mountError option" where
  "mark m rel e =
     (case ov_insert (mOverlay m) rel e (mMemLimit m) of
        Inl err \<Rightarrow> (m, Some err)
      | Inr st \<Rightarrow> (m\<lparr>mOverlay := st\<rparr>, None))"

definition overlayUnlink ::
  "('w, 'r, 'f) hostfs \<Rightarrow> 'w \<Rightarrow> 'r mount \<Rightarrow> string \<Rightarrow> string \<Rightarrow> 'r mount \<times> mountError option" where
  "overlayUnlink H w m rel vpath =
     (case ov_get (mOverlay m) rel of
        Some (EntFile _ _) \<Rightarrow> mark m rel EntDeleted
      | Some (EntRealFileRef _ _ _) \<Rightarrow> mark m rel EntDeleted
      | Some (EntDirectory _) \<Rightarrow> (m, Some (isADirectory vpath))
      | Some EntDeleted \<Rightarrow> (m, Some (notFound vpath))
      | None \<Rightarrow>
          (case ensureParentExists H w m rel vpath of
             Some e \<Rightarrow> (m, Some e)
           | None \<Rightarrow>
               (case resolveReal H w m vpath of
                  Inl e \<Rightarrow> (m, Some e)
                | Inr target \<Rightarrow>
                    (case classifyTarget H w (mDir m) (dirOp target) vpath of
                       Inl e \<Rightarrow> (m, Some e)
                     | Inr TargetFile \<Rightarrow> mark m rel EntDeleted
                     | Inr TargetDir \<Rightarrow> (m, Some (isADirectory vpath))
                     | Inr TargetSymlink \<Rightarrow> (m, Some (ErrPathEscape vpath))
                     | Inr TargetAbsent \<Rightarrow> (m, Some (notFound vpath))))))"

definition live_key :: "overlayState \<Rightarrow> string \<Rightarrow> bool" where
  "live_key st key \<longleftrightarrow> ov_get st key \<noteq> None \<and> ov_get st key \<noteq> Some EntDeleted"

definition overlayDirectoryHasChildren :: "overlayState \<Rightarrow> string \<Rightarrow> bool" where
  "overlayDirectoryHasChildren st rel \<longleftrightarrow>
     list_ex (\<lambda>key. key \<noteq> rel \<and> live_key st key) (prefixKeys st (directoryPrefix rel))"

definition realDirectoryHasVisibleChildren ::
  "('w, 'r, 'f) hostfs \<Rightarrow> 'w \<Rightarrow> 'r mount \<Rightarrow> string \<Rightarrow> string \<Rightarrow> string \<Rightarrow> bool mresult" where
  "realDirectoryHasVisibleChildren H w m rel op vpath =
     (case hOpenDir H w (mDir m) op of
        Inl err \<Rightarrow> Inl (mapIO err vpath)
      | Inr f \<Rightarrow>
          Inr (list_ex
                 (\<lambda>entry. ov_get (mOverlay m) (directoryPrefix rel @ lossyUTF8 (deName entry))
                            \<noteq> Some EntDeleted)
                 (fst (hReadDir H w f))))"

definition overlayRmdir ::
  "('w, 'r, 'f) hostfs \<Rightarrow> 'w \<Rightarrow> 'r mount \<Rightarrow> string \<Rightarrow> string \<Rightarrow> 'r mount \<times> mountError option" where
  "overlayRmdir H w m rel vpath =
     (if rel = [] then (m, Some (ErrPathEscape vpath))
      else case ov_get (mOverlay m) rel of
        Some (EntDirectory _) \<Rightarrow>
          if overlayDirectoryHasChildren (mOverlay m) rel then (m, Some (directoryNotEmpty vpath))
          else mark m rel EntDeleted
      | Some (EntFile _ _) \<Rightarrow> (m, Some (notADirectory vpath))
      | Some (EntRealFileRef _ _ _) \<Rightarrow> (m, Some (notADirectory vpath))
      | Some EntDeleted \<Rightarrow> (m, Some (notFound vpath))
      | None \<Rightarrow>
          (case ensureParentExists H w m rel vpath of
             Some e \<Rightarrow> (m, Some e)
           | None \<Rightarrow>
               (case resolveReal H w m vpath of
                  Inl e \<Rightarrow> (m, Some e)
                | Inr target \<Rightarrow>
                    let op = dirOp target
                    in if \<not> hostIsDir H w (mDir m) op then
                         (m, Some (if hostExists H w (mDir m) op then notADirectory vpath
                                   else notFound vpath))
                       else case realDirectoryHasVisibleChildren H w m rel op vpath of
                              Inl e \<Rightarrow> (m, Some e)
                            | Inr vis \<Rightarrow>
                                if vis \<or> overlayDirectoryHasChildren (mOverlay m) rel
                                then (m, Some (directoryNotEmpty vpath))
                                else mark m rel EntDeleted)))"

section \<open>Listing\<close>

text \<open>The loop over the overlay's keys: the paths, the names seen and the usage.\<close>

fun iterOverlay ::
  "overlayState \<Rightarrow> string \<Rightarrow> string \<Rightarrow> memoryBudget \<Rightarrow> string list \<Rightarrow> pyval list \<Rightarrow> string set \<Rightarrow> u64
     \<Rightarrow> (pyval list \<times> string set \<times> u64) mresult" where
  "iterOverlay st pre vpath budget [] entries seen usage = Inr (entries, seen, usage)"
| "iterOverlay st pre vpath budget (key # keys) entries seen usage =
     (let rest = drop (length pre) key
      in if rest = [] \<or> CHR ''/'' \<in> set rest then
           iterOverlay st pre vpath budget keys entries seen usage
         else
           let usage = satAdd (satAdd usage (satMul (golen rest) 2)) listingEntryMemoryUsage
           in case budget_check budget usage of
                Some e \<Rightarrow> Inl e
              | None \<Rightarrow>
                  if live_key st key then
                    let child = formatChildPath vpath rest;
                        usage = satAdd (satAdd usage (golen child)) listingEntryMemoryUsage
                    in case budget_check budget usage of
                         Some e \<Rightarrow> Inl e
                       | None \<Rightarrow>
                           iterOverlay st pre vpath budget keys (entries @ [VPath child])
                             (insert rest seen) usage
                  else iterOverlay st pre vpath budget keys entries (insert rest seen) usage)"

text \<open>The part of \<^verbatim>\<open>overlayIterdir\<close> before the listing: the host directory to merge, if any.\<close>

definition iterHostDir ::
  "('w, 'r, 'f) hostfs \<Rightarrow> 'w \<Rightarrow> 'r mount \<Rightarrow> string \<Rightarrow> string \<Rightarrow> string option mresult" where
  "iterHostDir H w m rel vpath =
     (case ov_get (mOverlay m) rel of
        Some (EntFile _ _) \<Rightarrow> Inl (notADirectory vpath)
      | Some (EntRealFileRef _ _ _) \<Rightarrow> Inl (notADirectory vpath)
      | Some EntDeleted \<Rightarrow> Inl (notFound vpath)
      | Some (EntDirectory _) \<Rightarrow> Inr None
      | None \<Rightarrow>
          (case resolveReal H w m vpath of
             Inl e \<Rightarrow> Inl e
           | Inr target \<Rightarrow>
               let op = dirOp target
               in if hostIsDir H w (mDir m) op then Inr (Some op)
                  else if \<not> hostExists H w (mDir m) op then Inl (notFound vpath)
                  else Inl (notADirectory vpath)))"

definition overlayIterdir ::
  "('w, 'r, 'f) hostfs \<Rightarrow> 'w \<Rightarrow> 'r mount \<Rightarrow> string \<Rightarrow> string \<Rightarrow> pyval mresult" where
  "overlayIterdir H w m rel vpath =
     (case iterHostDir H w m rel vpath of
        Inl e \<Rightarrow> Inl e
      | Inr hostDir \<Rightarrow>
          (case availableMemory m of
             Inl e \<Rightarrow> Inl e
           | Inr budget \<Rightarrow>
               let pre = directoryPrefix rel
               in case iterOverlay (mOverlay m) pre vpath budget (prefixKeys (mOverlay m) pre) [] {} 0 of
                    Inl e \<Rightarrow> Inl e
                  | Inr (entries, seen, usage) \<Rightarrow>
                      (case hostDir of
                         None \<Rightarrow> Inr (VList entries)
                       | Some op \<Rightarrow>
                           (case budget_shrink budget usage of
                              Inl e \<Rightarrow> Inl e
                            | Inr remaining \<Rightarrow>
                                (case hostListVisibleDirEntryNames H w (mDir m) op vpath
                                        (budget_halved remaining) of
                                   Inl e \<Rightarrow> Inl e
                                 | Inr names \<Rightarrow>
                                     map_sum id (\<lambda>host. VList (entries @ host))
                                       (listPaths vpath budget
                                          (filter (\<lambda>name. name \<notin> seen) names)
                                          (namesUsage usage names)))))))"

section \<open>Renaming\<close>

definition fileRefFromRelative ::
  "('w, 'r, 'f) hostfs \<Rightarrow> 'w \<Rightarrow> 'r \<Rightarrow> string \<Rightarrow> overlayEntry option" where
  "fileRefFromRelative H w dir rel =
     (case hLstat H w dir rel of
        Inl _ \<Rightarrow> None
      | Inr fi \<Rightarrow>
          if fiType fi \<noteq> FtRegular then None
          else Some (EntRealFileRef rel (mtimeSecs fi) (fiSize fi)))"

definition rejectRenameTypeMismatch ::
  "('w, 'r, 'f) hostfs \<Rightarrow> 'w \<Rightarrow> 'r mount \<Rightarrow> string \<Rightarrow> bool \<Rightarrow> string \<Rightarrow> mountError option" where
  "rejectRenameTypeMismatch H w m dstRel srcIsDir dstV =
     (let (known, dstIsDir) =
            (case ov_get (mOverlay m) dstRel of
               Some (EntDirectory _) \<Rightarrow> (True, True)
             | Some (EntFile _ _) \<Rightarrow> (True, False)
             | Some (EntRealFileRef _ _ _) \<Rightarrow> (True, False)
             | Some EntDeleted \<Rightarrow> (False, False)
             | None \<Rightarrow>
                 (case resolveVirtualPath dstV (mVirtual m) of
                    Inl _ \<Rightarrow> (False, False)
                  | Inr target \<Rightarrow>
                      let op = dirOp target
                      in if hostIsDir H w (mDir m) op then (True, True)
                         else if hostExists H w (mDir m) op then (True, False)
                         else (False, False)))
      in if known \<and> dstIsDir \<and> \<not> srcIsDir then Some (isADirectory dstV)
         else if known \<and> \<not> dstIsDir \<and> srcIsDir then Some (notADirectory dstV)
         else None)"

text \<open>The host directory at a virtual path, as the rename checks look it up.\<close>

definition hostDirAt ::
  "('w, 'r, 'f) hostfs \<Rightarrow> 'w \<Rightarrow> 'r mount \<Rightarrow> string mresult \<Rightarrow> string option" where
  "hostDirAt H w m resolved =
     (case resolved of
        Inl _ \<Rightarrow> None
      | Inr target \<Rightarrow> if hostIsDir H w (mDir m) (dirOp target) then Some (dirOp target) else None)"

definition rejectRenameOntoNonemptyDir ::
  "('w, 'r, 'f) hostfs \<Rightarrow> 'w \<Rightarrow> 'r mount \<Rightarrow> string \<Rightarrow> string \<Rightarrow> mountError option" where
  "rejectRenameOntoNonemptyDir H w m dstRel dstV =
     (let hostDst = hostDirAt H w m (resolveVirtualPath dstV (mVirtual m));
          applies = (case ov_get (mOverlay m) dstRel of
                       Some (EntDirectory _) \<Rightarrow> True
                     | Some _ \<Rightarrow> False
                     | None \<Rightarrow> hostDst \<noteq> None)
      in if \<not> applies then None
         else if overlayDirectoryHasChildren (mOverlay m) dstRel then Some (directoryNotEmpty dstV)
         else case hostDst of
                None \<Rightarrow> None
              | Some op \<Rightarrow>
                  (case realDirectoryHasVisibleChildren H w m dstRel op dstV of
                     Inl e \<Rightarrow> Some e
                   | Inr vis \<Rightarrow> if vis then Some (directoryNotEmpty dstV) else None))"

text \<open>
  The callback of \<^verbatim>\<open>collectRealDescendants\<close>. The state is the list of captured entries with
  their keys, the stack of directories still to visit, and the usage. \<open>ValidString\<close> is
  \<^verbatim>\<open>utf8.ValidString\<close>.
\<close>

definition ValidString :: "string \<Rightarrow> bool" where
  "ValidString s = snd (snd (utf8Check (bytes_of_string s)))"

type_synonym captured = "string \<times> overlayEntry"
type_synonym collectState = "captured list \<times> (string \<times> string) list \<times> u64"

definition collectEntry ::
  "('w, 'r, 'f) hostfs \<Rightarrow> 'w \<Rightarrow> 'r mount \<Rightarrow> string list \<Rightarrow> string \<Rightarrow> memoryBudget
     \<Rightarrow> string \<times> string \<Rightarrow> dirEntry \<Rightarrow> collectState \<Rightarrow> collectState \<times> bool \<times> mountError option" where
  "collectEntry H w m handled vpath budget current entry s =
     (case s of (result, dirs, usage) \<Rightarrow>
        let name = deName entry
        in if \<not> ValidString name then
             (s, True, Some (ErrIO ioInvalidData
                ''directory contains an entry with a non-UTF-8 name'' vpath))
           else
             let key = snd current @ name
             in if key \<in> set handled \<or> ov_get (mOverlay m) key \<noteq> None then (s, False, None)
                else if deType entry = FtSymlink then (s, True, Some (ErrPathEscape vpath))
                else
                  let childRel = joinMountRelative (fst current) name
                  in case deType entry of
                       FtRegular \<Rightarrow>
                         (case fileRefFromRelative H w (mDir m) childRel of
                            None \<Rightarrow> (s, False, None)
                          | Some ref \<Rightarrow>
                              let usage = satAdd (satAdd (satAdd usage (golen key))
                                            (golen (entRelative ref))) realDescendantMemoryUsage
                              in case budget_check budget usage of
                                   Some e \<Rightarrow> ((result, dirs, usage), True, Some e)
                                 | None \<Rightarrow> ((result @ [(key, ref)], dirs, usage), False, None))
                     | FtDir \<Rightarrow>
                         (let usage = satAdd (satAdd (satAdd usage (satMul (golen key) 2))
                                        (golen childRel)) realDescendantMemoryUsage
                          in case budget_check budget usage of
                               Some e \<Rightarrow> ((result, dirs, usage), True, Some e)
                             | None \<Rightarrow>
                                 ((result @ [(key, EntDirectory (hostDirMtime H w (mDir m) childRel))],
                                   dirs @ [(childRel, key @ ''/'')], usage), False, None))
                     | _ \<Rightarrow> (s, False, None))"

text \<open>
  The outer loop, with fuel: \<open>None\<close> means that the fuel ran out. The stack is popped from the
  end, as the source does.
\<close>

fun collectLoop ::
  "nat \<Rightarrow> ('w, 'r, 'f) hostfs \<Rightarrow> 'w \<Rightarrow> 'r mount \<Rightarrow> string list \<Rightarrow> string \<Rightarrow> memoryBudget \<Rightarrow> collectState
     \<Rightarrow> captured list mresult option" where
  "collectLoop 0 H w m handled vpath budget s = None"
| "collectLoop (Suc fuel) H w m handled vpath budget (result, dirs, usage) =
     (if dirs = [] then Some (Inr result)
      else
        let current = last dirs
        in case hOpenDir H w (mDir m) (fst current) of
             Inl err \<Rightarrow> Some (Inl (mapIO err vpath))
           | Inr f \<Rightarrow>
               (case eachDirEntry (fst (hReadDir H w f)) (snd (hReadDir H w f)) vpath
                       (collectEntry H w m handled vpath budget current)
                       (result, butlast dirs, usage) of
                  (_, Some e) \<Rightarrow> Some (Inl e)
                | (s, None) \<Rightarrow> collectLoop fuel H w m handled vpath budget s))"

definition collectRealDescendants ::
  "nat \<Rightarrow> ('w, 'r, 'f) hostfs \<Rightarrow> 'w \<Rightarrow> 'r mount \<Rightarrow> string \<Rightarrow> string \<Rightarrow> string list \<Rightarrow> string
     \<Rightarrow> memoryBudget \<Rightarrow> captured list mresult option" where
  "collectRealDescendants fuel H w m rootRel pre handled vpath budget =
     collectLoop fuel H w m handled vpath budget
       ([], [(rootRel, pre)], satAdd (golen rootRel) (golen pre))"

section \<open>The rename plan\<close>

text \<open>
  The checks of \<^verbatim>\<open>overlayRename\<close> up to the source entry: the two keys, whether the source
  is a directory, whether it is in the overlay, and its entry.
\<close>

record renameOrigin =
  rsSrc :: string
  rsDst :: string
  rsIsDir :: bool
  rsOverlay :: bool
  rsEntry :: overlayEntry

definition renameRealSource ::
  "('w, 'r, 'f) hostfs \<Rightarrow> 'w \<Rightarrow> 'r mount \<Rightarrow> string \<Rightarrow> overlayEntry mresult" where
  "renameRealSource H w m srcV =
     (case resolveReal H w m srcV of
        Inl e \<Rightarrow> Inl e
      | Inr target \<Rightarrow>
          let op = dirOp target
          in case classifyTarget H w (mDir m) op srcV of
               Inl e \<Rightarrow> Inl e
             | Inr TargetFile \<Rightarrow>
                 (case fileRefFromRelative H w (mDir m) op of
                    None \<Rightarrow> Inl (notFound srcV)
                  | Some e \<Rightarrow> Inr e)
             | Inr TargetDir \<Rightarrow> Inr (EntDirectory (hostDirMtime H w (mDir m) op))
             | Inr TargetSymlink \<Rightarrow> Inl (ErrPathEscape srcV)
             | Inr TargetAbsent \<Rightarrow> Inl (notFound srcV))"

definition renameSrcIsDir ::
  "('w, 'r, 'f) hostfs \<Rightarrow> 'w \<Rightarrow> 'r mount \<Rightarrow> string \<Rightarrow> string \<Rightarrow> bool mresult" where
  "renameSrcIsDir H w m srcRel srcV =
     (case ov_get (mOverlay m) srcRel of
        Some (EntDirectory _) \<Rightarrow> Inr True
      | Some _ \<Rightarrow> Inr False
      | None \<Rightarrow> map_sum id (\<lambda>target. hostIsDir H w (mDir m) (dirOp target)) (resolveReal H w m srcV))"

definition renameSource ::
  "('w, 'r, 'f) hostfs \<Rightarrow> 'w \<Rightarrow> 'r mount \<Rightarrow> string \<Rightarrow> string \<Rightarrow> renameOrigin mresult" where
  "renameSource H w m srcV dstV =
     (case resolveVirtualPath srcV (mVirtual m) of
        Inl e \<Rightarrow> Inl e
      | Inr srcRel \<Rightarrow>
      case resolveVirtualPath dstV (mVirtual m) of
        Inl e \<Rightarrow> Inl e
      | Inr dstRel \<Rightarrow>
      if srcRel = [] then Inl (ErrPathEscape srcV)
      else if dstRel = [] then Inl (ErrPathEscape dstV)
      else
      case ensureParentExists H w m dstRel dstV of
        Some e \<Rightarrow> Inl e
      | None \<Rightarrow>
      case (if ov_get (mOverlay m) dstRel = None then map_sum id (\<lambda>_. ()) (resolveReal H w m dstV)
            else Inr ()) of
        Inl e \<Rightarrow> Inl e
      | Inr _ \<Rightarrow>
      case ensureParentExists H w m srcRel srcV of
        Some e \<Rightarrow> Inl e
      | None \<Rightarrow>
      if ov_get (mOverlay m) srcRel = Some EntDeleted then Inl (notFound srcV)
      else
      case renameSrcIsDir H w m srcRel srcV of
        Inl e \<Rightarrow> Inl e
      | Inr srcIsDir \<Rightarrow>
      case rejectRenameTypeMismatch H w m dstRel srcIsDir dstV of
        Some e \<Rightarrow> Inl e
      | None \<Rightarrow>
      case (if srcIsDir then rejectRenameOntoNonemptyDir H w m dstRel dstV else None) of
        Some e \<Rightarrow> Inl e
      | None \<Rightarrow>
      if srcIsDir \<and> prefix (srcRel @ ''/'') dstRel then
        Inl (ErrIO ioInvalidInput ''Invalid argument'' srcV)
      else
      case ov_get (mOverlay m) srcRel of
        Some entry \<Rightarrow>
          Inr \<lparr>rsSrc = srcRel, rsDst = dstRel, rsIsDir = srcIsDir, rsOverlay = True,
               rsEntry = entry\<rparr>
      | None \<Rightarrow>
          map_sum id (\<lambda>entry.
              \<lparr>rsSrc = srcRel, rsDst = dstRel, rsIsDir = srcIsDir, rsOverlay = False,
               rsEntry = entry\<rparr>)
            (renameRealSource H w m srcV))"

text \<open>The memory that the plan itself takes, charged before the descendants are collected.\<close>

definition planUsage :: "string \<Rightarrow> string \<Rightarrow> string list \<Rightarrow> u64" where
  "planUsage srcPrefix dstPrefix childKeys =
     foldl (\<lambda>u key.
         let suffix = golen key - golen srcPrefix;
             u = satAdd u (satMul (golen key) 2);
             u = satAdd u (satAdd (golen dstPrefix) suffix)
         in satAdd u entryMemoryUsage) 0 childKeys"

definition fatalCollect :: "mountError \<Rightarrow> bool" where
  "fatalCollect e \<longleftrightarrow>
     (case e of
        ErrMemoryLimit _ \<Rightarrow> True
      | ErrPathEscape _ \<Rightarrow> True
      | ErrIO k _ _ \<Rightarrow> k = ioInvalidData
      | _ \<Rightarrow> False)"

type_synonym overlayMove = "string \<times> string"
type_synonym realMove = "string \<times> string \<times> overlayEntry"

definition renameRealMoves ::
  "nat \<Rightarrow> ('w, 'r, 'f) hostfs \<Rightarrow> 'w \<Rightarrow> 'r mount \<Rightarrow> string \<Rightarrow> string \<Rightarrow> string \<Rightarrow> string list
     \<Rightarrow> memoryBudget \<Rightarrow> realMove list mresult option" where
  "renameRealMoves fuel H w m srcV srcPrefix dstPrefix handled remaining =
     (case hostDirAt H w m (resolveReal H w m srcV) of
        None \<Rightarrow> Some (Inr [])
      | Some op \<Rightarrow>
          (case collectRealDescendants fuel H w m op srcPrefix handled srcV remaining of
             None \<Rightarrow> None
           | Some (Inl e) \<Rightarrow> if fatalCollect e then Some (Inl e) else Some (Inr [])
           | Some (Inr children) \<Rightarrow>
               Some (Inr (map (\<lambda>(key, e). (key, dstPrefix @ trim_prefix srcPrefix key, e)) children))))"

definition renameMoves ::
  "nat \<Rightarrow> ('w, 'r, 'f) hostfs \<Rightarrow> 'w \<Rightarrow> 'r mount \<Rightarrow> string \<Rightarrow> renameOrigin
     \<Rightarrow> (overlayMove list \<times> realMove list) mresult option" where
  "renameMoves fuel H w m srcV rs =
     (if \<not> rsIsDir rs then Some (Inr ([], []))
      else
        let srcPrefix = rsSrc rs @ ''/''; dstPrefix = rsDst rs @ ''/'';
            childKeys = prefixKeys (mOverlay m) srcPrefix
        in case availableMemory m of
             Inl e \<Rightarrow> Some (Inl e)
           | Inr available \<Rightarrow>
               (case budget_shrink available (planUsage srcPrefix dstPrefix childKeys) of
                  Inl e \<Rightarrow> Some (Inl e)
                | Inr remaining \<Rightarrow>
                    let overlayMoves =
                          map (\<lambda>key. (key, dstPrefix @ drop (length srcPrefix) key)) childKeys
                    in map_option (map_sum id (Pair overlayMoves))
                         (renameRealMoves fuel H w m srcV srcPrefix dstPrefix childKeys remaining)))"

definition renameBatch ::
  "overlayState \<Rightarrow> renameOrigin \<Rightarrow> overlayMove list \<Rightarrow> realMove list \<Rightarrow> replacement list" where
  "renameBatch st rs overlayMoves realMoves =
     [(rsSrc rs, EntDeleted), (rsDst rs, rsEntry rs)]
     @ concat (map (\<lambda>(old, new).
          case ov_get st old of Some e \<Rightarrow> [(old, EntDeleted), (new, e)] | None \<Rightarrow> []) overlayMoves)
     @ concat (map (\<lambda>(old, new, e). [(old, EntDeleted), (new, e)]) realMoves)"

text \<open>
  The loop that takes the moved entries out of the overlay. The keys come from the overlay, so
  each of them is present.
\<close>

fun removeMoves :: "overlayState \<Rightarrow> overlayMove list \<Rightarrow> overlayState \<times> realMove list" where
  "removeMoves st [] = (st, [])"
| "removeMoves st ((old, new) # moves) =
     (case ov_remove st old of
        (st1, Some e) \<Rightarrow>
          (case removeMoves st1 moves of (st2, ds) \<Rightarrow> (st2, (old, new, e) # ds))
      | (st1, None) \<Rightarrow> removeMoves st1 moves)"

definition insertMoves :: "overlayState \<Rightarrow> realMove list \<Rightarrow> overlayState" where
  "insertMoves st moves =
     foldl (\<lambda>st (old, new, e). insertUnchecked (insertUnchecked st old EntDeleted) new e) st moves"

text \<open>The mutations of \<^verbatim>\<open>overlayRename\<close>, after every check has passed.\<close>

definition applyRename ::
  "overlayState \<Rightarrow> renameOrigin \<Rightarrow> overlayMove list \<Rightarrow> realMove list \<Rightarrow> overlayState" where
  "applyRename st rs overlayMoves realMoves =
     (let st1 = (if rsOverlay rs then fst (ov_remove st (rsSrc rs)) else st);
          (st2, moved) = removeMoves st1 overlayMoves;
          st3 = insertUnchecked st2 (rsSrc rs) EntDeleted;
          st4 = insertUnchecked st3 (rsDst rs) (rsEntry rs)
      in insertMoves st4 (moved @ realMoves))"

definition overlayRename ::
  "nat \<Rightarrow> ('w, 'r, 'f) hostfs \<Rightarrow> 'w \<Rightarrow> 'r mount \<Rightarrow> string \<Rightarrow> string
     \<Rightarrow> ('r mount \<times> mountError option) option" where
  "overlayRename fuel H w m srcV dstV =
     (case renameSource H w m srcV dstV of
        Inl e \<Rightarrow> Some (m, Some e)
      | Inr rs \<Rightarrow>
          (case renameMoves fuel H w m srcV rs of
             None \<Rightarrow> None
           | Some (Inl e) \<Rightarrow> Some (m, Some e)
           | Some (Inr (overlayMoves, realMoves)) \<Rightarrow>
               (case checkReplacements (mOverlay m)
                       (renameBatch (mOverlay m) rs overlayMoves realMoves) (mMemLimit m) of
                  Some e \<Rightarrow> Some (m, Some e)
                | None \<Rightarrow>
                    Some (m\<lparr>mOverlay := applyRename (mOverlay m) rs overlayMoves realMoves\<rparr>, None))))"

section \<open>Opening\<close>

definition ensureAppendTargetExists ::
  "('w, 'r, 'f) hostfs \<Rightarrow> 'w \<Rightarrow> 'r mount \<Rightarrow> string \<Rightarrow> 'r mount \<times> mountError option" where
  "ensureAppendTargetExists H w m vpath =
     (case resolveVirtualPath vpath (mVirtual m) of
        Inl e \<Rightarrow> (m, Some e)
      | Inr rel \<Rightarrow>
          let create = (case ensureParentExists H w m rel vpath of
                          Some e \<Rightarrow> (m, Some e)
                        | None \<Rightarrow> mark m rel (EntFile [] (currentTimestamp H w)))
          in case ov_get (mOverlay m) rel of
               Some (EntFile _ _) \<Rightarrow> (m, None)
             | Some (EntRealFileRef _ _ _) \<Rightarrow> (m, None)
             | Some (EntDirectory _) \<Rightarrow> (m, Some (isADirectory vpath))
             | Some EntDeleted \<Rightarrow> create
             | None \<Rightarrow>
                 (case resolveReal H w m vpath of
                    Inl e \<Rightarrow> (m, Some e)
                  | Inr target \<Rightarrow>
                      (case classifyTarget H w (mDir m) (dirOp target) vpath of
                         Inl e \<Rightarrow> (m, Some e)
                       | Inr TargetDir \<Rightarrow> (m, Some (isADirectory vpath))
                       | Inr TargetSymlink \<Rightarrow> (m, Some (ErrPathEscape vpath))
                       | Inr TargetFile \<Rightarrow> (m, ensureParentExists H w m rel vpath)
                       | Inr TargetAbsent \<Rightarrow> create)))"

definition overlayOpenRead ::
  "('w, 'r, 'f) hostfs \<Rightarrow> 'w \<Rightarrow> 'r mount \<Rightarrow> string \<Rightarrow> mountError option" where
  "overlayOpenRead H w m path =
     (case resolveVirtualPath path (mVirtual m) of
        Inl e \<Rightarrow> Some e
      | Inr rel \<Rightarrow>
          (case ov_get (mOverlay m) rel of
             Some (EntDirectory _) \<Rightarrow> Some (isADirectory path)
           | Some EntDeleted \<Rightarrow> Some (notFound path)
           | Some _ \<Rightarrow> None
           | None \<Rightarrow>
               (case resolveRealPathState H w m path LookupPropagate of
                  Inl e \<Rightarrow> Some e
                | Inr None \<Rightarrow> Some (notFound path)
                | Inr (Some found) \<Rightarrow>
                    if hostIsDir H w (mDir m) found then Some (isADirectory path) else None)))"

definition overlayOpen ::
  "('w, 'r, 'f) hostfs \<Rightarrow> 'w \<Rightarrow> 'r mount \<Rightarrow> string \<Rightarrow> string \<Rightarrow> 'r mount \<times> pyval mresult" where
  "overlayOpen H w m path mode =
     (if hd mode = CHR ''r'' then
        (case overlayOpenRead H w m path of
           Some e \<Rightarrow> (m, Inl e)
         | None \<Rightarrow> (m, Inr (fileHandle H w path mode)))
      else if hd mode = CHR ''w'' then
        (case overlayWrite H w m path [] 0 of
           (m1, Inl e) \<Rightarrow> (m1, Inl e)
         | (m1, Inr _) \<Rightarrow> (m1, Inr (fileHandle H w path mode)))
      else if hd mode = CHR ''a'' then
        (case ensureAppendTargetExists H w m path of
           (m1, Some e) \<Rightarrow> (m1, Inl e)
         | (m1, None) \<Rightarrow> (m1, Inr (fileHandle H w path mode)))
      else (m, Inr (fileHandle H w path mode)))"

section \<open>Dispatch\<close>

definition RuneCount :: "string \<Rightarrow> int" where
  "RuneCount s = int (length (runes s))"

text \<open>An operation that returns nothing but an error answers with \<^verbatim>\<open>nil\<close>.\<close>

definition unit_result :: "'m \<times> mountError option \<Rightarrow> 'm \<times> pyval mresult" where
  "unit_result r = (case r of (m, Some e) \<Rightarrow> (m, Inl e) | (m, None) \<Rightarrow> (m, Inr VNone))"

definition int_result :: "int \<Rightarrow> 'm \<times> mountError option \<Rightarrow> 'm \<times> pyval mresult" where
  "int_result n r = (case r of (m, Some e) \<Rightarrow> (m, Inl e) | (m, None) \<Rightarrow> (m, Inr (VInt GoInt64 n)))"

text \<open>The second switch of \<^verbatim>\<open>overlayExecute\<close>, on a resolved path.\<close>

definition overlayExecuteRel ::
  "('w, 'r, 'f) hostfs \<Rightarrow> 'w \<Rightarrow> 'r mount \<Rightarrow> osCall \<Rightarrow> string \<Rightarrow> 'r mount \<times> pyval mresult" where
  "overlayExecuteRel H w m call rel =
     (let path = ocPath call
      in case ocOp call of
           OpExists \<Rightarrow> (m, overlayPredicate H w m rel path (\<lambda>e. e \<noteq> EntDeleted) (hostExists H w))
         | OpIsFile \<Rightarrow>
             (m, overlayPredicate H w m rel path
                   (\<lambda>e. case e of EntFile _ _ \<Rightarrow> True | EntRealFileRef _ _ _ \<Rightarrow> True | _ \<Rightarrow> False)
                   (hostIsFile H w))
         | OpIsDir \<Rightarrow>
             (m, overlayPredicate H w m rel path
                   (\<lambda>e. case e of EntDirectory _ \<Rightarrow> True | _ \<Rightarrow> False) (hostIsDir H w))
         | OpIsSymlink \<Rightarrow> (m, Inr (VBool (overlayIsSymlink H w m rel path)))
         | OpReadText \<Rightarrow>
             (case overlayRead H w m rel path of
                Inl e \<Rightarrow> (m, Inl e)
              | Inr content \<Rightarrow> (m, map_sum id VStr (bytesToUTF8 content)))
         | OpReadBytes \<Rightarrow> (m, map_sum id VBytes (overlayRead H w m rel path))
         | OpMkdir \<Rightarrow> unit_result (overlayMkdir H w m rel (ocParents call) (ocExistOK call) path)
         | OpUnlink \<Rightarrow> unit_result (overlayUnlink H w m rel path)
         | OpRmdir \<Rightarrow> unit_result (overlayRmdir H w m rel path)
         | OpIterdir \<Rightarrow> (m, overlayIterdir H w m rel path)
         | OpStat \<Rightarrow> (m, overlayStat H w m rel path)
         | _ \<Rightarrow> (m, Inr VNone))"

definition overlayExecute ::
  "nat \<Rightarrow> ('w, 'r, 'f) hostfs \<Rightarrow> 'w \<Rightarrow> 'r mount \<Rightarrow> osCall \<Rightarrow> string
     \<Rightarrow> ('r mount \<times> pyval mresult) option" where
  "overlayExecute fuel H w m call mode =
     (let path = ocPath call; text = ocText call
      in case ocOp call of
           OpResolve \<Rightarrow> Some (m, Inr (VPath (NormalizeVirtualPath path)))
         | OpAbsolute \<Rightarrow> Some (m, Inr (VPath (NormalizeVirtualPath path)))
         | OpWriteText \<Rightarrow>
             Some (overlayWrite H w m path (bytes_of_string text) (RuneCount text))
         | OpWriteBytes \<Rightarrow>
             Some (overlayWrite H w m path (ocData call) (int (length (ocData call))))
         | OpAppendText \<Rightarrow>
             Some (int_result (RuneCount text) (overlayAppend H w m path (bytes_of_string text)))
         | OpAppendBytes \<Rightarrow>
             Some (int_result (int (length (ocData call))) (overlayAppend H w m path (ocData call)))
         | OpRename \<Rightarrow> map_option unit_result (overlayRename fuel H w m path (ocDst call))
         | OpOpen \<Rightarrow> Some (overlayOpen H w m path mode)
         | _ \<Rightarrow>
             (case resolveVirtualPath path (mVirtual m) of
                Inl e \<Rightarrow> Some (m, Inl e)
              | Inr rel \<Rightarrow> Some (overlayExecuteRel H w m call rel)))"

end
