(* ===== verification/OverlayProps.thy ===== *)
theory OverlayProps
  imports Overlay
begin

text \<open>
  Correctness of overlay mounts: every operation keeps the memory and write accounting within the
  limits, a failed operation changes nothing but created parents, and reads see what was written.
\<close>

section \<open>The invariant of an overlay mount\<close>

text \<open>
  Strings and slices of a Go program are far shorter than \<open>2 ^ 62\<close> bytes. The limit of a mount is
  taken to be below \<open>2 ^ 58\<close> (288 petabytes), so that no sum of the accounting can reach the
  maximum of the counters.
\<close>

definition ov_sized :: "overlayState \<Rightarrow> bool" where
  "ov_sized st \<longleftrightarrow> (\<forall>k e. ovEntries st k = Some e \<longrightarrow> length k + entry_len e < 2 ^ 62)"

definition mount_ok :: "'r mount \<Rightarrow> bool" where
  "mount_ok m \<longleftrightarrow>
     isNormalizedVirtualPath (mVirtual m)
     \<and> ov_inv (mOverlay m) \<and> ov_sized (mOverlay m)
     \<and> ovUsage (mOverlay m) \<le> mMemLimit m \<and> mMemLimit m < 2 ^ 58
     \<and> (\<forall>limit. mWriteLimit m = Some limit \<longrightarrow> mWriteUsed m \<le> limit)"

definition same_config :: "'r mount \<Rightarrow> 'r mount \<Rightarrow> bool" where
  "same_config m m' \<longleftrightarrow>
     mRoot m' = mRoot m \<and> mMode m' = mMode m \<and> mWriteLimit m' = mWriteLimit m
     \<and> mMemLimit m' = mMemLimit m"

lemma same_config_refl [simp]: "same_config m m"
  by (simp add: same_config_def)

lemma same_config_overlay [simp]: "same_config m (m\<lparr>mOverlay := st\<rparr>)"
  by (simp add: same_config_def)

lemma limit_not_max: "mMemLimit m < 2 ^ 58 \<Longrightarrow> mMemLimit m < - 1"
  by (simp add: word_less_nat_alt)

lemma mount_ok_limit: "mount_ok m \<Longrightarrow> unat (mMemLimit m) < 2 ^ 58"
  by (simp add: mount_ok_def word_less_nat_alt)

text \<open>An entry of an overlay is smaller than the limit.\<close>

lemma entry_below_usage:
  assumes "ov_inv st" "ov_sized st" "ovEntries st k = Some e"
  shows "304 + length k + entry_len e \<le> unat (ovUsage st)"
proof -
  have "unat (entryUsage k e) = 304 + length k + entry_len e"
    using assms(2,3) by (intro unat_entryUsage) (fastforce simp: ov_sized_def)
  then show ?thesis
    using key_cost_le [OF assms(1), of k] assms(3) by (simp add: key_cost_def)
qed

lemma mount_ok_entry:
  assumes "mount_ok m" "ovEntries (mOverlay m) k = Some e"
  shows "304 + length k + entry_len e \<le> unat (mMemLimit m)"
proof -
  have "unat (ovUsage (mOverlay m)) \<le> unat (mMemLimit m)"
    using assms(1) by (simp add: mount_ok_def word_le_nat_alt)
  with entry_below_usage [of "mOverlay m" k e] assms show ?thesis by (simp add: mount_ok_def)
qed

lemma insert_ok:
  assumes ok: "mount_ok m" and sz: "length k + entry_len e < 2 ^ 62"
    and ins: "ov_insert (mOverlay m) k e (mMemLimit m) = Inr st"
  shows "mount_ok (m\<lparr>mOverlay := st\<rparr>)"
proof -
  from ok have "ov_inv (mOverlay m)" "mMemLimit m < - 1"
    by (simp_all add: mount_ok_def limit_not_max)
  note st = ov_inv_insert [OF this ins]
  moreover have "ov_sized st"
    using ok sz st(3) by (auto simp: mount_ok_def ov_sized_def)
  ultimately show ?thesis using ok by (simp add: mount_ok_def)
qed

lemma mark_ok:
  assumes "mount_ok m" "length k + entry_len e < 2 ^ 62"
  shows "mount_ok (fst (mark m k e)) \<and> same_config m (fst (mark m k e))"
  using assms insert_ok [OF assms] by (auto simp: mark_def split: sum.splits)

text \<open>Committing written bytes after the check of the write limit.\<close>

lemma commit_ok:
  assumes "mount_ok m" "checkWriteLimit m' n = None"
    and "mWriteLimit m' = mWriteLimit m" "mWriteUsed m' = mWriteUsed m"
  shows "mount_ok (commitWriteBytes m n) \<and> same_config m (commitWriteBytes m n)"
  using assms
  by (auto simp: mount_ok_def commitWriteBytes_def checkWriteLimit_def same_config_def not_less
      split: option.splits if_splits)

section \<open>Sizes of paths\<close>

definition seg_size :: "string list \<Rightarrow> nat" where
  "seg_size segs = (\<Sum>s\<leftarrow>segs. length s + 1)"

lemma seg_size_stack: "seg_size (foldl stack_step st segs) \<le> seg_size st + seg_size segs"
proof (induction segs arbitrary: st)
  case (Cons a segs)
  have "seg_size (butlast st) \<le> seg_size st"
    by (cases st rule: rev_cases) (simp_all add: seg_size_def)
  then have "seg_size (stack_step st a) \<le> seg_size st + length a + 1"
    by (auto simp: stack_step_def seg_size_def)
  with Cons.IH [of "stack_step st a"] show ?case by (simp add: seg_size_def)
qed (simp add: seg_size_def)

lemma seg_size_split: "seg_size (split_on d s) = length s + 1"
  by (induction s) (auto simp: seg_size_def split: list.splits)

lemma length_join: "length (join_on d segs) \<le> seg_size segs - 1"
proof (induction d segs rule: join_on.induct)
  case (3 d s t ss)
  moreover have "1 \<le> seg_size (t # ss)" by (simp add: seg_size_def)
  ultimately show ?case by (simp add: seg_size_def)
qed (simp_all add: seg_size_def)

lemma resolve_length:
  assumes "isNormalizedVirtualPath mv" "resolveVirtualPath vpath mv = Inr rel"
  shows "length rel \<le> length vpath"
proof -
  obtain segs where segs: "path_segments vpath = path_segments mv @ segs"
    and rel: "rel = join_on CHR ''/'' segs"
    using assms stripMountPrefix_iff [OF assms(1)] by (auto simp: resolveVirtualPath_Inr_iff)
  have "seg_size segs \<le> seg_size (path_segments vpath)" by (simp add: segs seg_size_def)
  also have "\<dots> \<le> length vpath + 1"
    using seg_size_stack [of "[]" "split_on CHR ''/'' vpath"]
    by (simp add: path_segments_def seg_size_split) (simp add: seg_size_def)
  finally show ?thesis using length_join [of "CHR ''/''" segs] by (simp add: rel)
qed

section \<open>Writing and appending\<close>

lemma overlayWrite_disj:
  "(\<exists>e. overlayWrite H w m vpath data result = (m, Inl e))
   \<or> (\<exists>rel st. resolveVirtualPath vpath (mVirtual m) = Inr rel
        \<and> checkWriteLimit m (golen data) = None
        \<and> ensureParentExists H w m rel vpath = None \<and> rejectDirectoryTarget H w m rel vpath = None
        \<and> ov_insert (mOverlay m) rel (EntFile data (currentTimestamp H w)) (mMemLimit m) = Inr st
        \<and> overlayWrite H w m vpath data result
          = (commitWriteBytes (m\<lparr>mOverlay := st\<rparr>) (golen data), Inr (VInt GoInt64 result)))"
  by (auto simp: overlayWrite_def Let_def split: option.splits sum.splits)

lemma overlayWrite_cases:
  obtains e where "overlayWrite H w m vpath data result = (m, Inl e)"
  | rel st where "resolveVirtualPath vpath (mVirtual m) = Inr rel"
      "checkWriteLimit m (golen data) = None"
      "ensureParentExists H w m rel vpath = None" "rejectDirectoryTarget H w m rel vpath = None"
      "ov_insert (mOverlay m) rel (EntFile data (currentTimestamp H w)) (mMemLimit m) = Inr st"
      "overlayWrite H w m vpath data result
        = (commitWriteBytes (m\<lparr>mOverlay := st\<rparr>) (golen data), Inr (VInt GoInt64 result))"
  using overlayWrite_disj [of H w m vpath data result] by blast

lemma overlayWrite_ok:
  assumes ok: "mount_ok m" and "length vpath < 2 ^ 60" "length data < 2 ^ 60"
  shows "mount_ok (fst (overlayWrite H w m vpath data result))
    \<and> same_config m (fst (overlayWrite H w m vpath data result))"
proof (cases rule: overlayWrite_cases [of H w m vpath data result])
  case (2 rel st)
  have "length rel \<le> length vpath"
    using resolve_length [OF _ 2(1)] ok by (simp add: mount_ok_def)
  then have "mount_ok (m\<lparr>mOverlay := st\<rparr>)"
    using insert_ok [OF ok _ 2(5)] assms by simp
  from commit_ok [OF this 2(2)] show ?thesis by (simp add: 2(6) same_config_def)
qed (use ok in simp_all)

text \<open>A read within a budget is no longer than the budget.\<close>

lemma readFileLimited_length:
  assumes "readFileLimited H w dir rel vpath budget = Inr content" "mbAvailable budget < - 1"
  shows "length content \<le> unat (mbAvailable budget)"
proof -
  obtain f limit fin free where r: "readAtMost free [] (fst (hRead H w f)) fin limit = Inr content"
    and limit: "limit = satAdd (mbAvailable budget) 1"
    using readFileLimited_Inr(2) [OF assms(1)] by blast
  have "length content \<le> unat limit"
    using r by (auto simp: readAtMost_eq split: if_splits option.splits)
  then have "length content < 2 ^ 64"
    using unsigned_less [of limit, where ?'a = nat] by simp
  with readFileLimited_Inr(1) [OF assms(1)] show ?thesis by (simp add: unat_golen)
qed

lemma existingFileBytes_length:
  assumes "existingFileBytes H w m rel vpath budget = Inr content" "mbAvailable budget < - 1"
    and "\<forall>c t. ovEntries (mOverlay m) rel = Some (EntFile c t) \<longrightarrow> length c < 2 ^ 64"
  shows "length content \<le> unat (mbAvailable budget)"
  using assms readFileLimited_length [OF _ assms(2)]
  by (auto simp: existingFileBytes_def ov_get_def budget_check_def word_le_nat_alt not_less unat_golen
      split: option.splits sum.splits overlayEntry.splits if_splits)

lemma availableMemory_Inr:
  "availableMemory m = Inr budget \<Longrightarrow>
     ovUsage (mOverlay m) \<le> mMemLimit m \<and> mbLimit budget = mMemLimit m
     \<and> unat (mbAvailable budget) = unat (mMemLimit m) - unat (ovUsage (mOverlay m))"
  by (auto simp: availableMemory_def memoryUsage_def Let_def not_less unat_sub split: if_splits)

lemma budget_shrink_Inr:
  "budget_shrink b n = Inr b' \<Longrightarrow>
     n \<le> mbAvailable b \<and> unat (mbAvailable b') = unat (mbAvailable b) - unat n \<and> mbLimit b' = mbLimit b"
  by (auto simp: budget_shrink_def not_less unat_sub split: if_splits)

lemma appendCopy_ok:
  assumes ok: "mount_ok m" and len: "length rel < 2 ^ 60" "length data < 2 ^ 60"
    and copy: "appendCopy H w m rel vpath data existingLen = Inr st"
  shows "mount_ok (m\<lparr>mOverlay := st\<rparr>)"
proof -
  from copy obtain budget shrunk content where
    b: "availableMemory m = Inr budget" and s: "budget_shrink budget (golen data) = Inr shrunk"
    and c: "existingFileBytes H w m rel vpath shrunk = Inr content"
    and ins: "ov_insert (mOverlay m) rel (EntFile (content @ data) (currentTimestamp H w)) (mMemLimit m)
      = Inr st"
    by (auto simp: appendCopy_def Let_def split: option.splits sum.splits)
  have small: "unat (mbAvailable shrunk) < 2 ^ 58"
    using availableMemory_Inr [OF b] budget_shrink_Inr [OF s] mount_ok_limit [OF ok] by linarith
  then have "mbAvailable shrunk < - 1" by (simp add: word_less_nat_alt)
  moreover have "length e < 2 ^ 64" if "ovEntries (mOverlay m) rel = Some (EntFile e t)" for e t
    using mount_ok_entry [OF ok that] mount_ok_limit [OF ok] by simp
  ultimately have "length content \<le> unat (mbAvailable shrunk)"
    using existingFileBytes_length [OF c] by blast
  with small len show ?thesis by (intro insert_ok [OF ok _ ins]) simp
qed

text \<open>Appending in place: the content stays below the limit.\<close>

lemma appendFile_ok:
  assumes ok: "mount_ok m" and len: "length data < 2 ^ 60"
    and app: "appendFile (mOverlay m) rel data t (mMemLimit m) = Inr (st, b)"
  shows "mount_ok (m\<lparr>mOverlay := st\<rparr>)"
proof -
  let ?st = "mOverlay m"
  have base: "ov_inv ?st" "mMemLimit m < - 1" "ovUsage ?st \<le> mMemLimit m"
    using ok by (simp_all add: mount_ok_def limit_not_max)
  have fits: "length (c @ data) < 2 ^ 63 \<and> length rel < 2 ^ 62"
    if "ovEntries ?st rel = Some (EntFile c t')" for c t'
    using mount_ok_entry [OF ok that] mount_ok_limit [OF ok] len by simp
  then have inv: "ov_inv st" "ovUsage st \<le> mMemLimit m"
    using ov_inv_appendFile [OF base(1,2) app] base(3) by blast+
  have "ov_sized st"
    unfolding ov_sized_def
  proof (intro allI impI)
    fix k e
    assume e: "ovEntries st k = Some e"
    show "length k + entry_len e < 2 ^ 62"
    proof (cases "ovEntries ?st k = Some e")
      case True
      with mount_ok_entry [OF ok True] mount_ok_limit [OF ok] show ?thesis by simp
    next
      case False
      with app e obtain c t' where "k = rel" "ovEntries ?st rel = Some (EntFile c t')"
        "e = EntFile (c @ data) t"
        by (auto simp: appendFile_def Let_def split: option.splits overlayEntry.splits if_splits)
      with mount_ok_entry [OF ok this(2)] mount_ok_limit [OF ok] len show ?thesis by simp
    qed
  qed
  with inv ok show ?thesis by (simp add: mount_ok_def)
qed

lemma appendFile_True_or:
  "appendFile st k data t limit = Inr (st', b) \<Longrightarrow> b \<or> st' = st"
  by (auto simp: appendFile_def Let_def split: option.splits overlayEntry.splits if_splits)

lemma overlayAppend_disj:
  "(\<exists>e. overlayAppend H w m vpath data = (m, Some e))
   \<or> (\<exists>rel charged st. resolveVirtualPath vpath (mVirtual m) = Inr rel
        \<and> checkWriteLimit m charged = None
        \<and> (appendFile (mOverlay m) rel data (currentTimestamp H w) (mMemLimit m) = Inr (st, True)
           \<or> (\<exists>n. existingFileLen H w m rel vpath = Inr n
                \<and> appendFile (mOverlay m) rel data (currentTimestamp H w) (mMemLimit m)
                    = Inr (mOverlay m, False)
                \<and> appendCopy H w m rel vpath data n = Inr st))
        \<and> overlayAppend H w m vpath data = (commitWriteBytes (m\<lparr>mOverlay := st\<rparr>) charged, None))"
proof (cases "\<exists>rel n. resolveVirtualPath vpath (mVirtual m) = Inr rel
    \<and> ensureParentExists H w m rel vpath = None \<and> rejectDirectoryTarget H w m rel vpath = None
    \<and> existingFileLen H w m rel vpath = Inr n")
  case False
  then show ?thesis
    by (auto simp: overlayAppend_def Let_def split: option.splits sum.splits)
next
  case True
  then obtain rel n where r: "resolveVirtualPath vpath (mVirtual m) = Inr rel"
    "ensureParentExists H w m rel vpath = None" "rejectDirectoryTarget H w m rel vpath = None"
    and n: "existingFileLen H w m rel vpath = Inr n" by blast
  let ?file = "case ov_get (mOverlay m) rel of Some (EntFile _ _) \<Rightarrow> True | _ \<Rightarrow> False"
  let ?app = "appendFile (mOverlay m) rel data (currentTimestamp H w) (mMemLimit m)"
  define charged where "charged =
    (if mWriteLimit m \<noteq> None \<and> \<not> ?file then satAdd n (golen data) else golen data)"
  have eq: "overlayAppend H w m vpath data =
    (case checkWriteLimit m charged of
       Some e \<Rightarrow> (m, Some e)
     | None \<Rightarrow>
         (case ?app of
            Inl e \<Rightarrow> (m, Some e)
          | Inr (st, True) \<Rightarrow> (commitWriteBytes (m\<lparr>mOverlay := st\<rparr>) charged, None)
          | Inr (st, False) \<Rightarrow>
              (case appendCopy H w m rel vpath data n of
                 Inl e \<Rightarrow> (m, Some e)
               | Inr st1 \<Rightarrow> (commitWriteBytes (m\<lparr>mOverlay := st1\<rparr>) charged, None))))"
    unfolding charged_def by (simp only: overlayAppend_def r n sum.case option.case Let_def)
  show ?thesis
  proof (cases "checkWriteLimit m charged")
    case None
    show ?thesis
    proof (cases ?app)
      case (Inr p)
      obtain st b where p: "p = (st, b)" by (cases p)
      show ?thesis
        using None Inr r n eq appendFile_True_or [of "mOverlay m" rel data _ "mMemLimit m" st b]
        by (cases b; cases "appendCopy H w m rel vpath data n") (auto simp: p)
    qed (simp add: eq None)
  qed (simp add: eq)
qed

lemma overlayAppend_cases:
  obtains e where "overlayAppend H w m vpath data = (m, Some e)"
  | rel charged st where "resolveVirtualPath vpath (mVirtual m) = Inr rel"
      "checkWriteLimit m charged = None"
      "appendFile (mOverlay m) rel data (currentTimestamp H w) (mMemLimit m) = Inr (st, True)"
      "overlayAppend H w m vpath data = (commitWriteBytes (m\<lparr>mOverlay := st\<rparr>) charged, None)"
  | rel charged existingLen st where "resolveVirtualPath vpath (mVirtual m) = Inr rel"
      "checkWriteLimit m charged = None" "existingFileLen H w m rel vpath = Inr existingLen"
      "appendFile (mOverlay m) rel data (currentTimestamp H w) (mMemLimit m) = Inr (mOverlay m, False)"
      "appendCopy H w m rel vpath data existingLen = Inr st"
      "overlayAppend H w m vpath data = (commitWriteBytes (m\<lparr>mOverlay := st\<rparr>) charged, None)"
  using overlayAppend_disj [of H w m vpath data] by blast

lemma overlayAppend_ok:
  assumes ok: "mount_ok m" and len: "length vpath < 2 ^ 60" "length data < 2 ^ 60"
  shows "mount_ok (fst (overlayAppend H w m vpath data))
    \<and> same_config m (fst (overlayAppend H w m vpath data))"
proof -
  have rel: "length rel < 2 ^ 60" if "resolveVirtualPath vpath (mVirtual m) = Inr rel" for rel
    using resolve_length [OF _ that] ok len by (simp add: mount_ok_def)
  show ?thesis
  proof (cases rule: overlayAppend_cases [of H w m vpath data])
    case (2 r c st)
    from commit_ok [OF appendFile_ok [OF ok len(2) 2(3)] 2(2)] show ?thesis
      by (simp add: 2(4) same_config_def)
  next
    case (3 r c n st)
    from commit_ok [OF appendCopy_ok [OF ok rel [OF 3(1)] len(2) 3(5)] 3(2)] show ?thesis
      by (simp add: 3(6) same_config_def)
  qed (use ok in simp_all)
qed

section \<open>Directories, unlinking and opening\<close>

text \<open>\<open>insert_ok\<close> on a mount whose overlay has been replaced.\<close>

lemma insert_ok':
  assumes "mount_ok (m\<lparr>mOverlay := st\<rparr>)" "length k + entry_len e < 2 ^ 62"
    and "ov_insert st k e (mMemLimit m) = Inr st'"
  shows "mount_ok (m\<lparr>mOverlay := st'\<rparr>)"
  using insert_ok [of "m\<lparr>mOverlay := st\<rparr>" k e st'] assms by simp

lemma createParentsLoop_ok:
  assumes "mount_ok (m\<lparr>mOverlay := st\<rparr>)" "length current + seg_size comps < 2 ^ 61"
  shows "mount_ok (m\<lparr>mOverlay := fst (createParentsLoop H w m st wk current comps)\<rparr>)"
  using assms
proof (induction comps arbitrary: st wk current)
  case (Cons component rest)
  define cur where "cur = (if current \<noteq> [] then current @ ''/'' else current) @ component"
  have len: "length cur + seg_size rest < 2 ^ 61" "length cur < 2 ^ 61"
    using Cons.prems(2) by (auto simp: cur_def seg_size_def)
  let ?t = "currentTimestamp H w"
  have same: "mount_ok (m\<lparr>mOverlay := fst (createParentsLoop H w m st wk1 cur rest)\<rparr>)" for wk1
    by (rule Cons.IH [OF Cons.prems(1) len(1)])
  have ins: "mount_ok (m\<lparr>mOverlay := fst (case ov_insert st cur (EntDirectory ?t) (mMemLimit m) of
        Inl e \<Rightarrow> (st, Some e) | Inr st1 \<Rightarrow> createParentsLoop H w m st1 wk1 cur rest)\<rparr>)" for wk1
  proof (cases "ov_insert st cur (EntDirectory ?t) (mMemLimit m)")
    case (Inr st1)
    have "mount_ok (m\<lparr>mOverlay := st1\<rparr>)"
      using len(2) by (intro insert_ok' [OF Cons.prems(1) _ Inr]) simp
    from Cons.IH [OF this len(1)] Inr show ?thesis by simp
  qed (use Cons.prems(1) in simp)
  obtain wk1 r where step: "walk_step H w wk component (formatChildPath (mVirtual m) cur) = (wk1, r)"
    by (cases "walk_step H w wk component (formatChildPath (mVirtual m) cur)")
  show ?case
    unfolding createParentsLoop.simps Let_def cur_def [symmetric] step
    using Cons.prems(1) same ins
    by (cases r; cases "ov_get st cur")
      (auto split: overlayEntry.splits realTarget.splits)
qed simp

lemma mkdirInsert_ok:
  assumes ok: "mount_ok m" and len: "length rel < 2 ^ 60"
  shows "mount_ok (fst (mkdirInsert H w m rel parents vpath))
    \<and> same_config m (fst (mkdirInsert H w m rel parents vpath))"
proof -
  define p where "p = (if parents then createOverlayParents H w m rel
    else (mOverlay m, ensureParentExists H w m rel vpath))"
  have "mount_ok (m\<lparr>mOverlay := fst p\<rparr>)"
    using ok len createParentsLoop_ok [where m = m and st = "mOverlay m" and current = "[]"
        and comps = "split_on CHR ''/'' rel" and H = H and w = w]
    by (simp add: p_def createOverlayParents_def seg_size_split)
  with insert_ok' [OF this, of rel "EntDirectory (currentTimestamp H w)"] len show ?thesis
    unfolding mkdirInsert_def p_def [symmetric]
    by (cases p) (auto split: option.splits sum.splits)
qed

lemma overlayMkdir_disj:
  "fst (overlayMkdir H w m rel parents existOK vpath) = m
   \<or> overlayMkdir H w m rel parents existOK vpath = mkdirInsert H w m rel parents vpath"
  by (auto simp: overlayMkdir_def
      split: option.splits overlayEntry.splits sum.splits realTarget.splits)

lemma overlayUnlink_disj:
  "fst (overlayUnlink H w m rel vpath) = m \<or> overlayUnlink H w m rel vpath = mark m rel EntDeleted"
  by (auto simp: overlayUnlink_def
      split: option.splits overlayEntry.splits sum.splits realTarget.splits)

lemma overlayRmdir_disj:
  "fst (overlayRmdir H w m rel vpath) = m \<or> overlayRmdir H w m rel vpath = mark m rel EntDeleted"
  by (auto simp: overlayRmdir_def Let_def
      split: option.splits overlayEntry.splits sum.splits realTarget.splits)

lemma ensureAppend_disj:
  "fst (ensureAppendTargetExists H w m vpath) = m
   \<or> (\<exists>rel. resolveVirtualPath vpath (mVirtual m) = Inr rel
        \<and> ensureAppendTargetExists H w m vpath = mark m rel (EntFile [] (currentTimestamp H w)))"
  by (auto simp: ensureAppendTargetExists_def Let_def
      split: option.splits overlayEntry.splits sum.splits realTarget.splits)

lemma overlayOpen_ok:
  assumes ok: "mount_ok m" and len: "length vpath < 2 ^ 60"
  shows "mount_ok (fst (overlayOpen H w m vpath mode))
    \<and> same_config m (fst (overlayOpen H w m vpath mode))"
proof -
  have rel: "length rel < 2 ^ 60" if "resolveVirtualPath vpath (mVirtual m) = Inr rel" for rel
    using resolve_length [OF _ that] ok len by (simp add: mount_ok_def)
  let ?a = "fst (ensureAppendTargetExists H w m vpath)"
  have "mount_ok ?a \<and> same_config m ?a"
    using ensureAppend_disj [of H w m vpath] ok mark_ok [OF ok] rel by fastforce
  moreover have "mount_ok (fst (overlayWrite H w m vpath [] 0))
      \<and> same_config m (fst (overlayWrite H w m vpath [] 0))"
    using overlayWrite_ok [OF ok len, of "[]"] by simp
  ultimately show ?thesis
    using ok by (auto simp: overlayOpen_def split: option.splits sum.splits prod.splits)
qed

lemma unit_result_fst [simp]: "fst (unit_result r) = fst r"
  by (auto simp: unit_result_def split: prod.splits option.splits)

lemma int_result_fst [simp]: "fst (int_result n r) = fst r"
  by (auto simp: int_result_def split: prod.splits option.splits)

lemma overlayExecuteRel_ok:
  assumes ok: "mount_ok m" and len: "length rel < 2 ^ 60"
  shows "mount_ok (fst (overlayExecuteRel H w m call rel))
    \<and> same_config m (fst (overlayExecuteRel H w m call rel))"
proof -
  have mark: "mount_ok (fst (mark m rel EntDeleted)) \<and> same_config m (fst (mark m rel EntDeleted))"
    using mark_ok [OF ok] len by simp
  have "mount_ok (fst (overlayMkdir H w m rel p x v)) \<and> same_config m (fst (overlayMkdir H w m rel p x v))"
    for p x v
    using overlayMkdir_disj [of H w m rel p x v] ok mkdirInsert_ok [OF ok len, of H w p v] by auto
  moreover have "mount_ok (fst (overlayUnlink H w m rel v)) \<and> same_config m (fst (overlayUnlink H w m rel v))" for v
    using overlayUnlink_disj [of H w m rel v] ok mark by auto
  moreover have "mount_ok (fst (overlayRmdir H w m rel v)) \<and> same_config m (fst (overlayRmdir H w m rel v))" for v
    using overlayRmdir_disj [of H w m rel v] ok mark by auto
  ultimately show ?thesis
    using ok by (cases "ocOp call") (simp_all add: overlayExecuteRel_def Let_def split: sum.splits)
qed

section \<open>Collecting the real descendants\<close>

text \<open>The names of a host's directory entries have the length of real file names.\<close>

definition host_sized :: "('w, 'r, 'f) hostfs \<Rightarrow> bool" where
  "host_sized H \<longleftrightarrow> (\<forall>w f e. e \<in> set (fst (hReadDir H w f)) \<longrightarrow> length (deName e) < 2 ^ 32)"

text \<open>
  The state of the collection stays within the budget: the entries found and the directories to
  visit are paid for, so there are at most \<open>available / 512\<close> of each.
\<close>

definition entry_charge :: "captured \<Rightarrow> nat" where
  "entry_charge c = 512 + length (fst c) + entry_len (snd c)"

definition collect_inv :: "nat \<Rightarrow> collectState \<Rightarrow> bool" where
  "collect_inv avail s \<longleftrightarrow>
     (case s of (result, dirs, usage) \<Rightarrow>
        unat usage \<le> avail + 2 ^ 33
        \<and> (\<Sum>c\<leftarrow>result. entry_charge c) \<le> unat usage
        \<and> (\<forall>d\<in>set dirs. length (fst d) \<le> avail + 2 ^ 33 \<and> length (snd d) \<le> avail + 2 ^ 33))"

definition collect_measure :: "nat \<Rightarrow> collectState \<Rightarrow> nat" where
  "collect_measure avail s = (case s of (result, dirs, usage) \<Rightarrow> avail + 2 ^ 33 - unat usage + length dirs)"

lemma satAdd3_exact:
  assumes "satAdd (satAdd (satAdd u a) b) c \<le> limit" "limit < - 1"
  shows "unat (satAdd (satAdd (satAdd u a) b) c) = unat u + unat a + unat b + unat c"
proof -
  have "unat (satAdd (satAdd (satAdd u a) b) c) < 2 ^ 64 - 1"
    using assms by (simp add: word_le_nat_alt word_less_nat_alt)
  then show ?thesis by (simp add: unat_satAdd split: if_splits)
qed

lemma fileRef_fields: "fileRefFromRelative H w dir rel = Some e \<Longrightarrow> \<exists>t sz. e = EntRealFileRef rel t sz"
  by (auto simp: fileRefFromRelative_def split: sum.splits if_splits)

lemma length_joinMountRelative: "length (joinMountRelative rel child) \<le> length rel + length child + 1"
  by (simp add: joinMountRelative_def)

lemma eachDirEntry_inv:
  assumes "P s" and "\<And>e s s' stop. e \<in> set entries \<Longrightarrow> P s \<Longrightarrow> fn e s = (s', stop, None) \<Longrightarrow> P s'"
    and "eachDirEntry entries fin vpath fn s = (s', None)"
  shows "P s'"
  using assms
proof (induction entries arbitrary: s)
  case (Cons e es)
  obtain s1 stop err where f: "fn e s = (s1, stop, err)" by (cases "fn e s") auto
  with Cons.prems(3) have "err = None" by (auto split: if_splits)
  with Cons.prems f have "P s1" by auto
  with Cons.prems Cons.IH [of s1] f \<open>err = None\<close> show ?case by (auto split: if_splits)
qed simp

lemma collectEntry_inv:
  assumes small: "unat (mbAvailable budget) < 2 ^ 58" and name: "length (deName e) < 2 ^ 32"
    and cur: "length (fst current) \<le> unat (mbAvailable budget) + 2 ^ 33"
      "length (snd current) \<le> unat (mbAvailable budget) + 2 ^ 33"
    and inv: "collect_inv (unat (mbAvailable budget)) s"
    and step: "collectEntry H w m handled vpath budget current e s = (s', stop, None)"
  shows "collect_inv (unat (mbAvailable budget)) s'
    \<and> collect_measure (unat (mbAvailable budget)) s' \<le> collect_measure (unat (mbAvailable budget)) s"
proof -
  let ?a = "unat (mbAvailable budget)"
  obtain result dirs usage where s: "s = (result, dirs, usage)" by (cases s)
  define key where "key = snd current @ deName e"
  define rel where "rel = joinMountRelative (fst current) (deName e)"
  have "length rel \<le> length (fst current) + length (deName e) + 1"
    unfolding rel_def by (rule length_joinMountRelative)
  then have len: "length key < 2 ^ 62" "length rel < 2 ^ 62"
    using small name cur by (simp_all add: key_def)
  have max: "mbAvailable budget < - 1" using small by (simp add: word_less_nat_alt)
  consider "s' = s"
    | ref u where "fileRefFromRelative H w (mDir m) rel = Some ref"
      "u = satAdd (satAdd (satAdd usage (golen key)) (golen (entRelative ref))) realDescendantMemoryUsage"
      "u \<le> mbAvailable budget" "s' = (result @ [(key, ref)], dirs, u)"
    | t u where "u = satAdd (satAdd (satAdd usage (satMul (golen key) 2)) (golen rel))
        realDescendantMemoryUsage" "u \<le> mbAvailable budget"
      "s' = (result @ [(key, EntDirectory t)], dirs @ [(rel, key @ ''/'')], u)"
    using step
    by (auto simp: collectEntry_def s Let_def budget_check_def not_less
        simp flip: key_def rel_def split: if_splits ftype.splits option.splits)
  then show ?thesis
  proof cases
    case (2 ref u)
    obtain t sz where ref: "ref = EntRealFileRef rel t sz" using fileRef_fields [OF 2(1)] by blast
    have "unat u = unat usage + length key + length rel + 512"
      using satAdd3_exact [OF 2(3) [unfolded 2(2)] max] len
      by (simp add: 2(2) ref unat_golen realDescendantMemoryUsage_def)
    moreover have "unat u \<le> ?a" using 2(3) by (simp add: word_le_nat_alt)
    ultimately show ?thesis
      using inv by (auto simp: collect_inv_def collect_measure_def s 2(4) entry_charge_def ref)
  next
    case (3 t u)
    have "unat (satMul (golen key) 2) = 2 * length key"
      using len by (simp add: unat_satMul unat_golen)
    then have "unat u = unat usage + 2 * length key + length rel + 512"
      using satAdd3_exact [OF 3(2) [unfolded 3(1)] max] len
      by (simp add: 3(1) unat_golen realDescendantMemoryUsage_def)
    moreover have "unat u \<le> ?a" using 3(2) by (simp add: word_le_nat_alt)
    ultimately show ?thesis
      using inv by (auto simp: collect_inv_def collect_measure_def s 3(3) entry_charge_def)
  qed (use inv in simp)
qed

lemma collectLoop_step:
  assumes small: "unat (mbAvailable budget) < 2 ^ 58" and host: "host_sized H"
    and inv: "collect_inv (unat (mbAvailable budget)) (result, dirs, usage)" and "dirs \<noteq> []"
    and each: "eachDirEntry (fst (hReadDir H w f)) (snd (hReadDir H w f)) vpath
      (collectEntry H w m handled vpath budget (last dirs)) (result, butlast dirs, usage) = (s', None)"
  shows "collect_inv (unat (mbAvailable budget)) s'
    \<and> collect_measure (unat (mbAvailable budget)) s'
      < collect_measure (unat (mbAvailable budget)) (result, dirs, usage)"
proof -
  let ?a = "unat (mbAvailable budget)" and ?s = "(result, butlast dirs, usage)"
  let ?P = "\<lambda>s. collect_inv ?a s \<and> collect_measure ?a s \<le> collect_measure ?a ?s"
  have cur: "length (fst (last dirs)) \<le> ?a + 2 ^ 33" "length (snd (last dirs)) \<le> ?a + 2 ^ 33"
    using inv \<open>dirs \<noteq> []\<close> by (auto simp: collect_inv_def)
  have "?P s'"
  proof (rule eachDirEntry_inv [OF _ _ each, where P = ?P])
    show "?P ?s" using inv by (auto simp: collect_inv_def dest: in_set_butlastD)
    show "?P s2" if "e \<in> set (fst (hReadDir H w f))" "?P s1"
      "collectEntry H w m handled vpath budget (last dirs) e s1 = (s2, stop, None)" for e s1 s2 stop
    proof -
      have "length (deName e) < 2 ^ 32" using host that(1) by (auto simp: host_sized_def)
      from collectEntry_inv [OF small this cur _ that(3)] that(2) show ?thesis by auto
    qed
  qed
  moreover have "collect_measure ?a ?s < collect_measure ?a (result, dirs, usage)"
    using \<open>dirs \<noteq> []\<close> by (simp add: collect_measure_def)
  ultimately show ?thesis by linarith
qed

text \<open>One round of the loop, as a case distinction.\<close>

lemma collectLoop_round:
  obtains "dirs = []"
    "collectLoop (Suc fuel) H w m handled vpath budget (result, dirs, usage) = Some (Inr result)"
  | e where "dirs \<noteq> []"
    "collectLoop (Suc fuel) H w m handled vpath budget (result, dirs, usage) = Some (Inl e)"
  | f s' where "dirs \<noteq> []"
    "eachDirEntry (fst (hReadDir H w f)) (snd (hReadDir H w f)) vpath
       (collectEntry H w m handled vpath budget (last dirs)) (result, butlast dirs, usage) = (s', None)"
    "collectLoop (Suc fuel) H w m handled vpath budget (result, dirs, usage)
      = collectLoop fuel H w m handled vpath budget s'"
proof (cases "dirs = []")
  case True
  with that(1) show thesis by simp
next
  case False
  show thesis
  proof (cases "hOpenDir H w (mDir m) (fst (last dirs))")
    case (Inl err)
    with that(2) False show thesis by simp
  next
    case (Inr f)
    obtain s' e where "eachDirEntry (fst (hReadDir H w f)) (snd (hReadDir H w f)) vpath
       (collectEntry H w m handled vpath budget (last dirs)) (result, butlast dirs, usage) = (s', e)"
      by (metis surj_pair)
    with that(2,3) False Inr show thesis by (cases e) simp_all
  qed
qed

lemma collectLoop_charge:
  assumes small: "unat (mbAvailable budget) < 2 ^ 58" and host: "host_sized H"
  shows "collect_inv (unat (mbAvailable budget)) s \<Longrightarrow>
    collectLoop fuel H w m handled vpath budget s = Some (Inr res) \<Longrightarrow>
      (\<Sum>c\<leftarrow>res. entry_charge c) \<le> unat (mbAvailable budget) + 2 ^ 33"
proof (induction fuel arbitrary: s)
  case (Suc fuel)
  obtain result dirs usage where s: "s = (result, dirs, usage)" by (cases s)
  show ?case
  proof (cases rule: collectLoop_round [of dirs fuel H w m handled vpath budget result usage])
    case 1
    with Suc.prems show ?thesis by (simp add: s collect_inv_def)
  next
    case (3 f s')
    from collectLoop_step [OF small host Suc.prems(1) [unfolded s] 3(1,2)] Suc.prems(2) 3(3)
    show ?thesis using Suc.IH [of s'] by (simp add: s)
  qed (use Suc.prems in \<open>simp add: s\<close>)
qed simp

lemma collectLoop_terminates:
  assumes small: "unat (mbAvailable budget) < 2 ^ 58" and host: "host_sized H"
  shows "collect_inv (unat (mbAvailable budget)) s \<Longrightarrow>
    collect_measure (unat (mbAvailable budget)) s < fuel \<Longrightarrow>
      collectLoop fuel H w m handled vpath budget s \<noteq> None"
proof (induction fuel arbitrary: s)
  case (Suc fuel)
  obtain result dirs usage where s: "s = (result, dirs, usage)" by (cases s)
  show ?case
  proof (cases rule: collectLoop_round [of dirs fuel H w m handled vpath budget result usage])
    case (3 f s')
    from collectLoop_step [OF small host Suc.prems(1) [unfolded s] 3(1,2)] Suc.prems(2)
    show ?thesis using Suc.IH [of s'] 3(3) by (simp add: s)
  qed (simp_all add: s)
qed simp

end
