(* ===== verification/OverlayRename.thy ===== *)
theory OverlayRename
  imports OverlayProps
begin

text \<open>
  Correctness of \<^verbatim>\<open>overlayRename\<close>: the plan fits the counters, so the preflight is exact
  and the mutations after it stay within the limit; the loop over the host's tree terminates; a
  failed rename leaves the mount as it was; and a successful one moves every entry.
\<close>

section \<open>The cost of the plan\<close>

lemma min_add_min: "min (min a c + b) c = min (a + b) (c :: nat)"
  by linarith

lemma min_small: "u \<le> L \<Longrightarrow> u = min s c \<Longrightarrow> L < c \<Longrightarrow> s \<le> (L :: nat)"
  by linarith

lemma planUsage_min:
  assumes "\<forall>key\<in>set keys. prefix srcPrefix key \<and> length key < 2 ^ 61" "length dstPrefix < 2 ^ 61"
  shows "unat (planUsage srcPrefix dstPrefix keys) =
    min (\<Sum>key\<leftarrow>keys. 2 * length key + length dstPrefix + (length key - length srcPrefix) + 256)
      (2 ^ 64 - 1)"
proof -
  define f where "f = (\<lambda>u (key :: string).
      let suffix = golen key - golen srcPrefix;
          u = satAdd u (satMul (golen key) 2);
          u = satAdd u (satAdd (golen dstPrefix) suffix)
      in satAdd u entryMemoryUsage)"
  define c where "c = (\<lambda>key :: string. 2 * length key + length dstPrefix + (length key - length srcPrefix) + 256)"
  have step: "unat (f u key) = min (unat u + c key) (2 ^ 64 - 1)"
    if key: "prefix srcPrefix key" "length key < 2 ^ 61" for u key
  proof -
    have "unat (golen key) = length key" "unat (golen srcPrefix) = length srcPrefix"
      "unat (golen dstPrefix) = length dstPrefix"
      using key assms(2) prefix_length_le [OF key(1)] by (simp_all add: unat_golen)
    then have "unat (golen key - golen srcPrefix) = length key - length srcPrefix"
      using prefix_length_le [OF key(1)] by (simp add: unat_sub word_le_nat_alt)
    then have "unat (satAdd (golen dstPrefix) (golen key - golen srcPrefix))
        = length dstPrefix + (length key - length srcPrefix)"
      using key assms(2) by (simp add: unat_satAdd unat_golen)
    moreover have "unat (satMul (golen key) 2) = 2 * length key"
      using key by (simp add: unat_satMul unat_golen)
    ultimately show ?thesis
      by (simp add: f_def c_def Let_def unat_satAdd entryMemoryUsage_def min_add_min add.assoc)
  qed
  have "unat (foldl f u ks) = min (unat u + (\<Sum>k\<leftarrow>ks. c k)) (2 ^ 64 - 1)"
    if "set ks \<subseteq> set keys" for u ks
    using that
  proof (induction ks arbitrary: u)
    case Nil
    then show ?case using unsigned_less [of u, where ?'a = nat] by simp
  next
    case (Cons k ks)
    then have "unat (f u k) = min (unat u + c k) (2 ^ 64 - 1)"
      using assms(1) by (intro step) auto
    with Cons show ?case by (simp add: min_add_min add.assoc)
  qed
  from this [of keys 0] show ?thesis
    by (simp add: planUsage_def f_def c_def)
qed

lemma map_sum_Inr:
  assumes "map_sum f g x = Inr z"
  obtains y where "x = Inr y" "z = g y"
  using assms by (cases x) auto

text \<open>The moves of a planned rename.\<close>

lemma renameMoves_file: "\<not> rsIsDir rs \<Longrightarrow> renameMoves fuel H w m srcV rs = Some (Inr ([], []))"
  by (simp add: renameMoves_def)

lemma renameMoves_dir:
  assumes "rsIsDir rs" "renameMoves fuel H w m srcV rs = Some (Inr (om, rm))"
  obtains available remaining where
    "availableMemory m = Inr available"
    "budget_shrink available (planUsage (rsSrc rs @ ''/'') (rsDst rs @ ''/'')
        (prefixKeys (mOverlay m) (rsSrc rs @ ''/''))) = Inr remaining"
    "om = map (\<lambda>key. (key, (rsDst rs @ ''/'') @ drop (length (rsSrc rs @ ''/'')) key))
        (prefixKeys (mOverlay m) (rsSrc rs @ ''/''))"
    "renameRealMoves fuel H w m srcV (rsSrc rs @ ''/'') (rsDst rs @ ''/'')
        (prefixKeys (mOverlay m) (rsSrc rs @ ''/'')) remaining = Some (Inr rm)"
proof -
  let ?keys = "prefixKeys (mOverlay m) (rsSrc rs @ ''/'')"
  let ?plan = "planUsage (rsSrc rs @ ''/'') (rsDst rs @ ''/'') ?keys"
  from assms obtain available where a: "availableMemory m = Inr available"
    by (cases "availableMemory m") (simp_all add: renameMoves_def Let_def)
  with assms obtain remaining where r: "budget_shrink available ?plan = Inr remaining"
    by (cases "budget_shrink available ?plan") (simp_all add: renameMoves_def Let_def)
  let ?real = "renameRealMoves fuel H w m srcV (rsSrc rs @ ''/'') (rsDst rs @ ''/'') ?keys remaining"
  from assms a r have "map_option (map_sum id (Pair (map (\<lambda>key. (key, (rsDst rs @ ''/'')
      @ drop (length (rsSrc rs @ ''/'')) key)) ?keys))) ?real = Some (Inr (om, rm))"
    by (simp add: renameMoves_def Let_def)
  then have "om = map (\<lambda>key. (key, (rsDst rs @ ''/'') @ drop (length (rsSrc rs @ ''/'')) key)) ?keys"
    "?real = Some (Inr rm)"
    by (auto simp: map_sum.simps elim!: map_sum_Inr)
  with a r show thesis by (rule that)
qed

text \<open>The captured entries behind the real moves, and their charge.\<close>

lemma renameRealMoves_charge:
  assumes real: "renameRealMoves fuel H w m srcV srcPrefix dstPrefix handled remaining = Some (Inr rm)"
    and small: "unat (mbAvailable remaining) < 2 ^ 58" and host: "host_sized H"
    and len: "length srcV < 2 ^ 31" "length srcPrefix < 2 ^ 32" and norm: "isNormalizedVirtualPath (mVirtual m)"
  shows "(\<Sum>(old, new, e)\<leftarrow>rm. 512 + length old + entry_len e) \<le> unat (mbAvailable remaining) + 2 ^ 33"
    and "\<forall>(old, new, e)\<in>set rm. length new \<le> length dstPrefix + length old"
proof -
  have "(\<Sum>(old, new, e)\<leftarrow>rm. 512 + length old + entry_len e) \<le> unat (mbAvailable remaining) + 2 ^ 33
      \<and> (\<forall>(old, new, e)\<in>set rm. length new \<le> length dstPrefix + length old)"
  proof (cases "rm = []")
    case False
    with real obtain op children where op: "hostDirAt H w m (resolveReal H w m srcV) = Some op"
      and c: "collectRealDescendants fuel H w m op srcPrefix handled srcV remaining = Some (Inr children)"
      and rm: "rm = map (\<lambda>(key, e). (key, dstPrefix @ trim_prefix srcPrefix key, e)) children"
      by (auto simp: renameRealMoves_def split: option.splits sum.splits if_splits)
    from op obtain target where "resolveVirtualPath srcV (mVirtual m) = Inr target" "op = dirOp target"
      by (auto simp: hostDirAt_def resolveReal_def split: sum.splits option.splits if_splits)
    then have "length op \<le> length srcV + 1"
      using resolve_length [OF norm, of srcV target] by (auto simp: dirOp_def)
    then have lens: "length op < 2 ^ 32" "length srcPrefix < 2 ^ 32" using len by simp_all
    then have "collect_inv (unat (mbAvailable remaining))
        ([], [(op, srcPrefix)], satAdd (golen op) (golen srcPrefix))"
      by (simp add: collect_inv_def unat_satAdd unat_golen)
    from collectLoop_charge [OF small host this c [unfolded collectRealDescendants_def]]
    have "(\<Sum>c\<leftarrow>children. entry_charge c) \<le> unat (mbAvailable remaining) + 2 ^ 33" .
    moreover have "(\<Sum>(old, new, e)\<leftarrow>rm. 512 + length old + entry_len e) = (\<Sum>c\<leftarrow>children. entry_charge c)"
      by (simp add: rm comp_def entry_charge_def case_prod_beta)
    moreover have "length (trim_prefix srcPrefix key) \<le> length key" for key
      by (auto simp: trim_prefix_def cut_prefix_def split: option.split)
    ultimately show ?thesis by (auto simp: rm)
  qed simp
  then show "(\<Sum>(old, new, e)\<leftarrow>rm. 512 + length old + entry_len e) \<le> unat (mbAvailable remaining) + 2 ^ 33"
    and "\<forall>(old, new, e)\<in>set rm. length new \<le> length dstPrefix + length old" by blast+
qed

section \<open>What the checks establish\<close>

lemma renameRealSource_len:
  assumes "renameRealSource H w m srcV = Inr e" "isNormalizedVirtualPath (mVirtual m)"
  shows "entry_len e \<le> length srcV + 1" "e \<noteq> EntDeleted"
proof -
  from assms(1) obtain target where t: "resolveVirtualPath srcV (mVirtual m) = Inr target"
    and e: "(\<exists>t sz. e = EntRealFileRef (dirOp target) t sz) \<or> (\<exists>t. e = EntDirectory t)"
    by (auto simp: renameRealSource_def resolveReal_def Let_def dest: fileRef_fields
        split: sum.splits option.splits realTarget.splits)
  with resolve_length [OF assms(2) t] show "entry_len e \<le> length srcV + 1" "e \<noteq> EntDeleted"
    by (auto simp: dirOp_def)
qed

lemma renameSource_Inr:
  assumes rs: "renameSource H w m srcV dstV = Inr rs"
  shows "resolveVirtualPath srcV (mVirtual m) = Inr (rsSrc rs)"
    and "resolveVirtualPath dstV (mVirtual m) = Inr (rsDst rs)"
    and "rsSrc rs \<noteq> []" "rsDst rs \<noteq> []"
    and "ovEntries (mOverlay m) (rsSrc rs) = (if rsOverlay rs then Some (rsEntry rs) else None)"
    and "ovEntries (mOverlay m) (rsSrc rs) \<noteq> Some EntDeleted"
    and "rsIsDir rs \<Longrightarrow> \<not> prefix (rsSrc rs @ ''/'') (rsDst rs)"
    and "\<not> rsOverlay rs \<Longrightarrow> renameRealSource H w m srcV = Inr (rsEntry rs)"
proof -
  have "resolveVirtualPath srcV (mVirtual m) = Inr (rsSrc rs)
    \<and> resolveVirtualPath dstV (mVirtual m) = Inr (rsDst rs) \<and> rsSrc rs \<noteq> [] \<and> rsDst rs \<noteq> []
    \<and> ovEntries (mOverlay m) (rsSrc rs) = (if rsOverlay rs then Some (rsEntry rs) else None)
    \<and> ovEntries (mOverlay m) (rsSrc rs) \<noteq> Some EntDeleted
    \<and> (rsIsDir rs \<longrightarrow> \<not> prefix (rsSrc rs @ ''/'') (rsDst rs))
    \<and> (\<not> rsOverlay rs \<longrightarrow> renameRealSource H w m srcV = Inr (rsEntry rs))"
    using rs unfolding renameSource_def ov_get_def
    by (auto split: sum.splits option.splits if_splits elim!: map_sum_Inr)
  then show "resolveVirtualPath srcV (mVirtual m) = Inr (rsSrc rs)"
    "resolveVirtualPath dstV (mVirtual m) = Inr (rsDst rs)" "rsSrc rs \<noteq> []" "rsDst rs \<noteq> []"
    "ovEntries (mOverlay m) (rsSrc rs) = (if rsOverlay rs then Some (rsEntry rs) else None)"
    "ovEntries (mOverlay m) (rsSrc rs) \<noteq> Some EntDeleted"
    "rsIsDir rs \<Longrightarrow> \<not> prefix (rsSrc rs @ ''/'') (rsDst rs)"
    "\<not> rsOverlay rs \<Longrightarrow> renameRealSource H w m srcV = Inr (rsEntry rs)"
    by blast+
qed

section \<open>The batch fits the counter\<close>

lemma sum_key_costs:
  assumes "ov_inv st" "distinct keys" "set keys \<subseteq> dom (ovEntries st)"
  shows "(\<Sum>k\<leftarrow>keys. key_cost (ovEntries st) k) \<le> unat (ovUsage st)"
proof -
  have "(\<Sum>k\<leftarrow>keys. key_cost (ovEntries st) k) = (\<Sum>k\<in>set keys. key_cost (ovEntries st) k)"
    using assms(2) by (simp add: sum_list_distinct_conv_sum_set)
  also have "\<dots> \<le> total_cost (ovEntries st)"
    unfolding total_cost_def using assms(3) finite_keys [OF assms(1)] by (intro sum_mono2) auto
  finally show ?thesis by (simp add: total_cost_usage [OF assms(1)])
qed

text \<open>The keys below the source, as the plan finds them.\<close>

lemma child_keys:
  assumes "ov_inv st"
  shows "distinct (prefixKeys st (src @ ''/''))"
    and "\<And>k. k \<in> set (prefixKeys st (src @ ''/'')) \<longleftrightarrow> k \<in> dom (ovEntries st) \<and> prefix (src @ ''/'') k"
  using assms prefixKeys_filter [OF assms, of "src @ ''/''"] by (auto simp: ov_inv_def)

definition move_cost :: "overlayState \<Rightarrow> overlayMove \<Rightarrow> nat" where
  "move_cost st mv =
     (case mv of (old, new) \<Rightarrow>
        case ov_get st old of
          Some e \<Rightarrow> unat (entryUsage old EntDeleted) + unat (entryUsage new e)
        | None \<Rightarrow> 0)"

definition real_cost :: "realMove \<Rightarrow> nat" where
  "real_cost mv = (case mv of (old, new, e) \<Rightarrow>
     unat (entryUsage old EntDeleted) + unat (entryUsage new e))"

lemma renameBatch_cost:
  "ov.batch_cost (renameBatch st rs om rm) =
     unat (entryUsage (rsSrc rs) EntDeleted) + unat (entryUsage (rsDst rs) (rsEntry rs))
     + (\<Sum>mv\<leftarrow>om. move_cost st mv) + (\<Sum>mv\<leftarrow>rm. real_cost mv)"
proof -
  have om: "(\<Sum>(k, e)\<leftarrow>concat (map (\<lambda>(old, new). case ov_get st old of
        Some e \<Rightarrow> [(old, EntDeleted), (new, e)] | None \<Rightarrow> []) om). unat (entryUsage k e))
      = (\<Sum>mv\<leftarrow>om. move_cost st mv)"
    by (induction om) (auto simp: move_cost_def split: option.splits)
  have rm: "(\<Sum>(k, e)\<leftarrow>concat (map (\<lambda>(old, new, e). [(old, EntDeleted), (new, e)]) rm).
        unat (entryUsage k e)) = (\<Sum>mv\<leftarrow>rm. real_cost mv)"
    by (induction rm) (auto simp: real_cost_def)
  show ?thesis by (simp add: ov.batch_cost_def renameBatch_def om rm)
qed

lemma overlay_moves_cost:
  assumes ok: "mount_ok m" and rs: "length (rsSrc rs) \<le> 4096" "length (rsDst rs) \<le> 4096"
    and avail: "availableMemory m = Inr available"
    and shrink: "budget_shrink available (planUsage (rsSrc rs @ ''/'') (rsDst rs @ ''/'')
        (prefixKeys (mOverlay m) (rsSrc rs @ ''/''))) = Inr remaining"
    and om: "om = map (\<lambda>key. (key, (rsDst rs @ ''/'') @ drop (length (rsSrc rs @ ''/'')) key))
        (prefixKeys (mOverlay m) (rsSrc rs @ ''/''))"
  shows "(\<Sum>mv\<leftarrow>om. move_cost (mOverlay m) mv) \<le> 3 * unat (mMemLimit m)"
proof -
  let ?st = "mOverlay m" and ?src = "rsSrc rs @ ''/''" and ?dst = "rsDst rs @ ''/''"
  let ?L = "unat (mMemLimit m)"
  define keys where "keys = prefixKeys ?st ?src"
  have inv: "ov_inv ?st" using ok by (simp add: mount_ok_def)
  have L: "?L < 2 ^ 58" by (rule mount_ok_limit [OF ok])
  note keys = child_keys [OF inv, where src = "rsSrc rs", folded keys_def]
  define new_len where "new_len = (\<lambda>key :: string. length ?dst + (length key - length ?src))"
  have key_len: "length key < 2 ^ 58" if "key \<in> set keys" for key
    using that keys(2) mount_ok_entry [OF ok, of key] L by fastforce
  have "unat (planUsage ?src ?dst keys) \<le> ?L"
    using availableMemory_Inr [OF avail] budget_shrink_Inr [OF shrink]
    unfolding keys_def word_le_nat_alt by linarith
  moreover have "unat (planUsage ?src ?dst keys) =
      min (\<Sum>key\<leftarrow>keys. 2 * length key + length ?dst + (length key - length ?src) + 256) (2 ^ 64 - 1)"
    by (rule planUsage_min) (use keys(2) key_len rs(2) in fastforce)+
  ultimately have "(\<Sum>key\<leftarrow>keys. 2 * length key + length ?dst + (length key - length ?src) + 256) \<le> ?L"
    using L by - (rule min_small, assumption, assumption, simp)
  moreover have "(\<Sum>key\<leftarrow>keys. new_len key + 256)
      \<le> (\<Sum>key\<leftarrow>keys. 2 * length key + length ?dst + (length key - length ?src) + 256)"
    by (rule sum_list_mono) (simp add: new_len_def)
  ultimately have plan: "(\<Sum>key\<leftarrow>keys. new_len key + 256) \<le> ?L" by linarith
  have cost: "move_cost ?st (key, ?dst @ drop (length ?src) key)
      \<le> key_cost (ovEntries ?st) key + 2 * (new_len key + 256)" if "key \<in> set keys" for key
  proof -
    from that keys(2) obtain e where e: "ovEntries ?st key = Some e" by auto
    have "length key + entry_len e < 2 ^ 58" using mount_ok_entry [OF ok e] L by simp
    then show ?thesis
      using rs by (simp add: move_cost_def ov_get_def e key_cost_def unat_entryUsage new_len_def)
  qed
  have "(\<Sum>mv\<leftarrow>om. move_cost ?st mv)
      \<le> (\<Sum>key\<leftarrow>keys. key_cost (ovEntries ?st) key + 2 * (new_len key + 256))"
    unfolding om keys_def [symmetric] map_map comp_def using cost by (intro sum_list_mono) blast
  also have "\<dots> = (\<Sum>key\<leftarrow>keys. key_cost (ovEntries ?st) key) + 2 * (\<Sum>key\<leftarrow>keys. new_len key + 256)"
    unfolding sum_list_addf sum_list_const_mult ..
  also have "\<dots> \<le> unat (ovUsage ?st) + 2 * ?L"
    using plan sum_key_costs [OF inv keys(1)] keys(2) by (intro add_mono mult_le_mono2) auto
  also have "\<dots> \<le> 3 * ?L" using ok by (simp add: mount_ok_def word_le_nat_alt)
  finally show ?thesis .
qed

lemma real_moves_cost:
  assumes "(\<Sum>(old, new, e)\<leftarrow>rm. 512 + length old + entry_len e) \<le> A" "A < 2 ^ 60"
    and "\<forall>(old, new, e)\<in>set rm. length new \<le> d + length old" "d \<le> 4097"
  shows "(\<Sum>mv\<leftarrow>rm. real_cost mv) \<le> 11 * A"
proof -
  let ?charge = "\<lambda>(old :: string, new :: string, e). 512 + length old + entry_len e"
  have elem: "?charge mv \<le> A" if "mv \<in> set rm" for mv
  proof -
    have "?charge mv \<in> set (map ?charge rm)" using that unfolding set_map by (rule imageI)
    then show ?thesis using assms(1) by (blast intro: le_trans member_le_sum_list)
  qed
  have "real_cost mv \<le> 11 * ?charge mv" if "mv \<in> set rm" for mv
  proof -
    obtain old new e where mv: "mv = (old, new, e)" by (cases mv)
    from elem [OF that] assms(2) have "length old + entry_len e < 2 ^ 60" by (simp add: mv)
    moreover from that assms(3) have "length new \<le> d + length old" by (auto simp: mv)
    ultimately show ?thesis using assms(4) by (simp add: mv real_cost_def unat_entryUsage)
  qed
  then have "(\<Sum>mv\<leftarrow>rm. real_cost mv) \<le> (\<Sum>mv\<leftarrow>rm. 11 * ?charge mv)" by (rule sum_list_mono)
  also have "\<dots> = 11 * (\<Sum>mv\<leftarrow>rm. ?charge mv)" by (simp add: sum_list_const_mult)
  also have "\<dots> \<le> 11 * A" using assms(1) by simp
  finally show ?thesis .
qed

section \<open>The mutations are the checked batch\<close>

lemma removeMoves_eq:
  assumes "distinct (map fst om)" "set (map fst om) \<subseteq> dom (ovEntries st)"
  shows "removeMoves st om =
    (ov.dels st (map fst om), map (\<lambda>(old, new). (old, new, the (ovEntries st old))) om)"
  using assms
proof (induction om arbitrary: st)
  case (Cons mv om)
  obtain old new where mv: "mv = (old, new)" by (cases mv)
  from Cons.prems obtain e where e: "ovEntries st old = Some e" by (auto simp: mv)
  have "snd (ov_remove st old) = Some e" by (simp add: ov_remove_def e Let_def)
  then obtain st1 where st1: "ov_remove st old = (st1, Some e)" by (metis prod.collapse)
  have entries: "ovEntries st1 = (ovEntries st)(old := None)" using ov.get_del [of st old] st1 by simp
  have rest: "removeMoves st1 om =
      (ov.dels st1 (map fst om), map (\<lambda>(o', n'). (o', n', the (ovEntries st1 o'))) om)"
    using Cons.prems by (intro Cons.IH) (force simp: mv entries)+
  have same: "map (\<lambda>(o', n'). (o', n', the (ovEntries st1 o'))) om
      = map (\<lambda>(o', n'). (o', n', the (ovEntries st o'))) om"
    using Cons.prems by (intro map_cong) (force simp: mv entries)+
  show ?case by (simp add: mv e st1 rest same ov.dels_def)
qed (simp add: ov.dels_def)

lemma insertMoves_puts:
  "insertMoves st moves = ov.puts st (concat (map (\<lambda>(old, new, e). [(old, EntDeleted), (new, e)]) moves))"
  by (induction moves arbitrary: st) (auto simp: insertMoves_def ov.puts_def)

lemma puts_append: "ov.puts st (a @ b) = ov.puts (ov.puts st a) b"
  by (simp add: ov.puts_def)

definition removedKeys :: "renameOrigin \<Rightarrow> overlayMove list \<Rightarrow> string list" where
  "removedKeys rs om = (if rsOverlay rs then [rsSrc rs] else []) @ map fst om"

lemma applyRename_batch:
  assumes om: "distinct (map fst om)" "set (map fst om) \<subseteq> dom (ovEntries st)"
    and src: "rsSrc rs \<notin> set (map fst om)"
  shows "applyRename st rs om rm =
    ov.puts (ov.dels st (removedKeys rs om)) (renameBatch st rs om rm)"
proof -
  define st1 where "st1 = (if rsOverlay rs then ov_del st (rsSrc rs) else st)"
  have entries: "ovEntries st1 old = ovEntries st old" if "old \<in> set (map fst om)" for old
    using that src by (cases "old = rsSrc rs") (simp_all add: st1_def ov.get_del)
  have "removeMoves st1 om =
      (ov.dels st1 (map fst om), map (\<lambda>(old, new). (old, new, the (ovEntries st1 old))) om)"
    using om by (intro removeMoves_eq) (use entries in \<open>force simp: dom_def\<close>)+
  moreover have "map (\<lambda>(old, new). (old, new, the (ovEntries st1 old))) om
      = map (\<lambda>(old, new). (old, new, the (ovEntries st old))) om"
    using entries by (force intro!: map_cong)
  moreover have "concat (map (\<lambda>(old, new). case ov_get st old of
        Some e \<Rightarrow> [(old, EntDeleted), (new, e)] | None \<Rightarrow> []) om)
      = concat (map (\<lambda>(old, new, e). [(old, EntDeleted), (new, e)])
          (map (\<lambda>(old, new). (old, new, the (ovEntries st old))) om))"
    unfolding map_map using om(2)
    by (intro arg_cong [where f = concat] map_cong) (force simp: ov_get_def split: option.split)+
  moreover have "ov.dels st1 (map fst om) = ov.dels st (removedKeys rs om)"
    by (simp add: st1_def removedKeys_def ov.dels_def)
  ultimately show ?thesis
    by (simp add: applyRename_def st1_def [symmetric] renameBatch_def insertMoves_puts
        puts_append [symmetric]) (simp add: ov.puts_def)
qed

section \<open>The invariant\<close>

text \<open>The facts of every planned rename: its moves, their cost, and the sizes of what it writes.\<close>

lemma renameMoves_facts:
  assumes ok: "mount_ok m" and host: "host_sized H"
    and len: "length srcV \<le> 4096" "length (rsSrc rs) \<le> 4096" "length (rsDst rs) \<le> 4096"
    and moves: "renameMoves fuel H w m srcV rs = Some (Inr (om, rm))"
  shows "map fst om = (if rsIsDir rs then prefixKeys (mOverlay m) (rsSrc rs @ ''/'') else [])"
    and "\<forall>(old, new)\<in>set om. new = rsDst rs @ ''/'' @ drop (length (rsSrc rs) + 1) old"
    and "(\<Sum>mv\<leftarrow>om. move_cost (mOverlay m) mv) \<le> 3 * unat (mMemLimit m)"
    and "(\<Sum>(old, new, e)\<leftarrow>rm. 512 + length old + entry_len e) \<le> unat (mMemLimit m) + 2 ^ 33"
    and "\<forall>(old, new, e)\<in>set rm. length new \<le> 4097 + length old"
proof -
  let ?st = "mOverlay m" and ?L = "unat (mMemLimit m)"
  have norm: "isNormalizedVirtualPath (mVirtual m)" and L: "?L < 2 ^ 58"
    using ok mount_ok_limit [OF ok] by (simp_all add: mount_ok_def)
  have "map fst om = (if rsIsDir rs then prefixKeys ?st (rsSrc rs @ ''/'') else [])
    \<and> (\<forall>(old, new)\<in>set om. new = rsDst rs @ ''/'' @ drop (length (rsSrc rs) + 1) old)
    \<and> (\<Sum>mv\<leftarrow>om. move_cost ?st mv) \<le> 3 * ?L
    \<and> (\<Sum>(old, new, e)\<leftarrow>rm. 512 + length old + entry_len e) \<le> ?L + 2 ^ 33
    \<and> (\<forall>(old, new, e)\<in>set rm. length new \<le> 4097 + length old)"
  proof (cases "rsIsDir rs")
    case True
    from renameMoves_dir [OF True moves] obtain available remaining where
      a: "availableMemory m = Inr available"
      and r: "budget_shrink available (planUsage (rsSrc rs @ ''/'') (rsDst rs @ ''/'')
        (prefixKeys ?st (rsSrc rs @ ''/''))) = Inr remaining"
      and om: "om = map (\<lambda>key. (key, (rsDst rs @ ''/'') @ drop (length (rsSrc rs @ ''/'')) key))
        (prefixKeys ?st (rsSrc rs @ ''/''))"
      and rm: "renameRealMoves fuel H w m srcV (rsSrc rs @ ''/'') (rsDst rs @ ''/'')
        (prefixKeys ?st (rsSrc rs @ ''/'')) remaining = Some (Inr rm)" .
    have rem: "unat (mbAvailable remaining) \<le> ?L"
      using availableMemory_Inr [OF a] budget_shrink_Inr [OF r] by linarith
    then have small: "unat (mbAvailable remaining) < 2 ^ 58" using L by simp
    have "length srcV < 2 ^ 31" "length (rsSrc rs @ ''/'') < 2 ^ 32" using len by simp_all
    note charge = renameRealMoves_charge [OF rm small host this norm]
    have "map fst om = prefixKeys ?st (rsSrc rs @ ''/'')" by (simp add: om comp_def)
    moreover have "\<forall>(old, new)\<in>set om. new = rsDst rs @ ''/'' @ drop (length (rsSrc rs) + 1) old"
      by (auto simp: om)
    ultimately show ?thesis
      using overlay_moves_cost [OF ok len(2,3) a r om] charge rem len(3) True by fastforce
  qed (use moves in \<open>simp add: renameMoves_file\<close>)
  then show "map fst om = (if rsIsDir rs then prefixKeys ?st (rsSrc rs @ ''/'') else [])"
    "\<forall>(old, new)\<in>set om. new = rsDst rs @ ''/'' @ drop (length (rsSrc rs) + 1) old"
    "(\<Sum>mv\<leftarrow>om. move_cost ?st mv) \<le> 3 * ?L"
    "(\<Sum>(old, new, e)\<leftarrow>rm. 512 + length old + entry_len e) \<le> ?L + 2 ^ 33"
    "\<forall>(old, new, e)\<in>set rm. length new \<le> 4097 + length old" by blast+
qed

lemma renameSource_len:
  assumes ok: "mount_ok m" and len: "length srcV \<le> 4096" "length dstV \<le> 4096"
    and rs: "renameSource H w m srcV dstV = Inr rs"
  shows "length (rsSrc rs) \<le> 4096" "length (rsDst rs) \<le> 4096"
    and "entry_len (rsEntry rs) \<le> unat (mMemLimit m) + 4097"
proof -
  have norm: "isNormalizedVirtualPath (mVirtual m)" using ok by (simp add: mount_ok_def)
  note rsI = renameSource_Inr [OF rs]
  show "length (rsSrc rs) \<le> 4096" "length (rsDst rs) \<le> 4096"
    using resolve_length [OF norm rsI(1)] resolve_length [OF norm rsI(2)] len by simp_all
  show "entry_len (rsEntry rs) \<le> unat (mMemLimit m) + 4097"
  proof (cases "rsOverlay rs")
    case True
    with mount_ok_entry [OF ok, of "rsSrc rs" "rsEntry rs"] rsI(5) show ?thesis by simp
  next
    case False
    with renameRealSource_len(1) [OF rsI(8) norm] len show ?thesis by simp
  qed
qed

lemma rename_plan:
  assumes ok: "mount_ok m" and host: "host_sized H"
    and len: "length srcV \<le> 4096" "length dstV \<le> 4096"
    and rs: "renameSource H w m srcV dstV = Inr rs"
    and moves: "renameMoves fuel H w m srcV rs = Some (Inr (om, rm))"
  shows "distinct (map fst om)" "set (map fst om) \<subseteq> dom (ovEntries (mOverlay m))"
    and "rsSrc rs \<notin> set (map fst om)"
    and "unat (ovUsage (mOverlay m)) + ov.batch_cost (renameBatch (mOverlay m) rs om rm) < 2 ^ 64"
proof -
  let ?st = "mOverlay m" and ?L = "unat (mMemLimit m)"
  have inv: "ov_inv ?st" and used: "unat (ovUsage ?st) \<le> ?L" and L: "?L < 2 ^ 58"
    using ok mount_ok_limit [OF ok] by (simp_all add: mount_ok_def word_le_nat_alt)
  note rsl = renameSource_len [OF ok len rs]
  note facts = renameMoves_facts [OF ok host len(1) rsl(1,2) moves]
  note keys = child_keys [OF inv, where src = "rsSrc rs"]
  show "distinct (map fst om)" using keys(1) by (simp add: facts(1))
  show "set (map fst om) \<subseteq> dom (ovEntries ?st)" using keys(2) unfolding facts(1) by auto
  show "rsSrc rs \<notin> set (map fst om)" using keys(2) prefix_length_le unfolding facts(1) by fastforce
  have "unat (entryUsage (rsSrc rs) EntDeleted) + unat (entryUsage (rsDst rs) (rsEntry rs)) \<le> ?L + 13000"
    using rsl L by (simp add: unat_entryUsage)
  moreover have "(\<Sum>mv\<leftarrow>rm. real_cost mv) \<le> 11 * (?L + 2 ^ 33)"
    using L by (intro real_moves_cost [OF facts(4) _ facts(5)]) auto
  ultimately show "unat (ovUsage ?st) + ov.batch_cost (renameBatch ?st rs om rm) < 2 ^ 64"
    using facts(3) used L unfolding renameBatch_cost by auto
qed

text \<open>The pairs a rename writes.\<close>

lemma renameBatch_mem:
  "(k, e) \<in> set (renameBatch st rs om rm) \<longleftrightarrow>
     k = rsSrc rs \<and> e = EntDeleted \<or> k = rsDst rs \<and> e = rsEntry rs
     \<or> (\<exists>old new e0. (old, new) \<in> set om \<and> ovEntries st old = Some e0
          \<and> (k = old \<and> e = EntDeleted \<or> k = new \<and> e = e0))
     \<or> (\<exists>old new e0. (old, new, e0) \<in> set rm \<and> (k = old \<and> e = EntDeleted \<or> k = new \<and> e = e0))"
proof -
  have "(k, e) \<in> set (concat (map (\<lambda>(old, new).
        case ov_get st old of Some e \<Rightarrow> [(old, EntDeleted), (new, e)] | None \<Rightarrow> []) om))
      \<longleftrightarrow> (\<exists>old new e0. (old, new) \<in> set om \<and> ovEntries st old = Some e0
          \<and> (k = old \<and> e = EntDeleted \<or> k = new \<and> e = e0))"
  proof -
    have "(k, e) \<in> set (case ov_get st old of Some e \<Rightarrow> [(old, EntDeleted), (new, e)] | None \<Rightarrow> [])
        \<longleftrightarrow> (\<exists>e0. ovEntries st old = Some e0 \<and> (k = old \<and> e = EntDeleted \<or> k = new \<and> e = e0))"
      for old new by (cases "ovEntries st old") (auto simp: ov_get_def)
    then show ?thesis by (simp add: case_prod_beta) (metis fst_conv prod.collapse snd_conv)
  qed
  moreover have "(k, e) \<in> set (concat (map (\<lambda>(old, new, e). [(old, EntDeleted), (new, e)]) rm))
      \<longleftrightarrow> (\<exists>old new e0. (old, new, e0) \<in> set rm \<and> (k = old \<and> e = EntDeleted \<or> k = new \<and> e = e0))"
  proof (induction rm)
    case (Cons mv rm)
    then show ?case by (cases mv) auto
  qed simp
  ultimately show ?thesis unfolding renameBatch_def set_append Un_iff by simp
qed

lemma renameBatch_sized:
  assumes ok: "mount_ok m" and host: "host_sized H"
    and len: "length srcV \<le> 4096" "length dstV \<le> 4096"
    and rs: "renameSource H w m srcV dstV = Inr rs"
    and moves: "renameMoves fuel H w m srcV rs = Some (Inr (om, rm))"
    and k: "(k, e) \<in> set (renameBatch (mOverlay m) rs om rm)"
  shows "length k + entry_len e < 2 ^ 62"
proof -
  let ?L = "unat (mMemLimit m)"
  have L: "?L < 2 ^ 58" by (rule mount_ok_limit [OF ok])
  note rsl = renameSource_len [OF ok len rs]
  note facts = renameMoves_facts [OF ok host len(1) rsl(1,2) moves]
  have om: "length old + entry_len e0 \<le> ?L \<and> length new \<le> 4097 + length old"
    if "(old, new) \<in> set om" "ovEntries (mOverlay m) old = Some e0" for old new e0
    using mount_ok_entry [OF ok that(2)] facts(2) that(1) rsl(2) by fastforce
  have rm: "length old + entry_len e0 \<le> ?L + 2 ^ 33 \<and> length new \<le> 4097 + length old"
    if "(old, new, e0) \<in> set rm" for old new e0
  proof -
    let ?f = "\<lambda>(old :: string, new :: string, e). 512 + length old + entry_len e"
    have "?f (old, new, e0) \<in> set (map ?f rm)" using that unfolding set_map by (rule imageI)
    then have "?f (old, new, e0) \<le> ?L + 2 ^ 33"
      using facts(4) by (blast intro: le_trans member_le_sum_list)
    with facts(5) that show ?thesis by fastforce
  qed
  from k consider "k = rsSrc rs" "e = EntDeleted" | "k = rsDst rs" "e = rsEntry rs"
    | old new e0 where "(old, new) \<in> set om" "ovEntries (mOverlay m) old = Some e0"
      "k = old \<and> e = EntDeleted \<or> k = new \<and> e = e0"
    | old new e0 where "(old, new, e0) \<in> set rm" "k = old \<and> e = EntDeleted \<or> k = new \<and> e = e0"
    unfolding renameBatch_mem by blast
  then show ?thesis
  proof cases
    case (3 old new e0)
    with om [OF 3(1,2)] L show ?thesis by auto
  next
    case (4 old new e0)
    with rm [OF 4(1)] L show ?thesis by auto
  qed (use rsl L in auto)
qed

text \<open>The cases of a rename: an error and the mount as it was, or the batch of the plan.\<close>

lemma overlayRename_cases:
  assumes "overlayRename fuel H w m srcV dstV = Some (m', r)"
  obtains e where "m' = m" "r = Some e"
  | rs om rm where "renameSource H w m srcV dstV = Inr rs"
      "renameMoves fuel H w m srcV rs = Some (Inr (om, rm))"
      "checkReplacements (mOverlay m) (renameBatch (mOverlay m) rs om rm) (mMemLimit m) = None"
      "m' = m\<lparr>mOverlay := applyRename (mOverlay m) rs om rm\<rparr>" "r = None"
proof (cases "renameSource H w m srcV dstV")
  case (Inl e)
  with assms that(1) [of e] show thesis by (simp add: overlayRename_def)
next
  case (Inr rs)
  note src = this
  with assms obtain plan where plan: "renameMoves fuel H w m srcV rs = Some plan"
    by (cases "renameMoves fuel H w m srcV rs") (simp_all add: overlayRename_def)
  show thesis
  proof (cases plan)
    case (Inl e)
    with assms src plan that(1) [of e] show thesis by (simp add: overlayRename_def)
  next
    case (Inr p)
    obtain om rm where p: "p = (om, rm)" by (cases p)
    let ?check = "checkReplacements (mOverlay m) (renameBatch (mOverlay m) rs om rm) (mMemLimit m)"
    show thesis
    proof (cases ?check)
      case None
      with assms src plan Inr p that(2) [of rs om rm] show thesis by (simp add: overlayRename_def)
    next
      case (Some e)
      with assms src plan Inr p that(1) [of e] show thesis by (simp add: overlayRename_def)
    qed
  qed
qed

lemma renameBatch_keys: "(set (removedKeys rs om)) \<subseteq> fst ` set (renameBatch st rs om rm)"
  if "set (map fst om) \<subseteq> dom (ovEntries st)"
proof
  fix k
  assume "k \<in> set (removedKeys rs om)"
  then have "k = rsSrc rs \<or> (\<exists>new. (k, new) \<in> set om)"
    by (auto simp: removedKeys_def split: if_splits)
  then show "k \<in> fst ` set (renameBatch st rs om rm)"
  proof
    assume "\<exists>new. (k, new) \<in> set om"
    then obtain new where new: "(k, new) \<in> set om" by blast
    with that obtain e where "ov_get st k = Some e" by (force simp: ov_get_def)
    with new have "(k, EntDeleted) \<in> set (renameBatch st rs om rm)"
      by (force simp: renameBatch_def)
    then show ?thesis by force
  qed (simp add: renameBatch_def)
qed

text \<open>What a successful rename makes of the overlay: the batch, on top of the old entries.\<close>

lemma rename_applied:
  assumes ok: "mount_ok m" and host: "host_sized H"
    and len: "length srcV \<le> 4096" "length dstV \<le> 4096"
    and rs: "renameSource H w m srcV dstV = Inr rs"
    and moves: "renameMoves fuel H w m srcV rs = Some (Inr (om, rm))"
    and check: "checkReplacements (mOverlay m) (renameBatch (mOverlay m) rs om rm) (mMemLimit m) = None"
  shows "ov_inv (applyRename (mOverlay m) rs om rm)"
    and "ovEntries (applyRename (mOverlay m) rs om rm) =
      ovEntries (mOverlay m) ++ map_of (rev (renameBatch (mOverlay m) rs om rm))"
    and "ovUsage (applyRename (mOverlay m) rs om rm) \<le> mMemLimit m"
proof -
  let ?st = "mOverlay m"
  note plan = rename_plan [OF ok host len rs moves]
  have inv: "ov_inv ?st" using ok by (simp add: mount_ok_def)
  note batch = applyRename_batch [OF plan(1,2,3), of rm]
  note move = ov.move_batch [OF inv plan(4) renameBatch_keys [OF plan(2)]]
  show "ov_inv (applyRename ?st rs om rm)" using move(1) by (simp add: batch)
  show "ovEntries (applyRename ?st rs om rm) = ovEntries ?st ++ map_of (rev (renameBatch ?st rs om rm))"
    using move(2) by (simp add: batch)
  show "ovUsage (applyRename ?st rs om rm) \<le> mMemLimit m"
    using move(3) check by (simp add: batch checkReplacements_puts word_le_nat_alt)
qed

lemma overlayRename_ok:
  assumes ok: "mount_ok m" and host: "host_sized H"
    and len: "length srcV \<le> 4096" "length dstV \<le> 4096"
    and ren: "overlayRename fuel H w m srcV dstV = Some (m', r)"
  shows "mount_ok m' \<and> same_config m m'"
  using ren
proof (cases rule: overlayRename_cases)
  case (2 rs om rm)
  note applied = rename_applied [OF ok host len 2(1,2,3)]
  have "ov_sized (applyRename (mOverlay m) rs om rm)"
    unfolding ov_sized_def applied(2)
  proof (intro allI impI)
    fix k e
    assume "(ovEntries (mOverlay m) ++ map_of (rev (renameBatch (mOverlay m) rs om rm))) k = Some e"
    then consider "ovEntries (mOverlay m) k = Some e" | "(k, e) \<in> set (renameBatch (mOverlay m) rs om rm)"
      by (auto simp: map_add_Some_iff dest: map_of_SomeD)
    then show "length k + entry_len e < 2 ^ 62"
      using ok renameBatch_sized [OF ok host len 2(1,2)] by cases (auto simp: mount_ok_def ov_sized_def)
  qed
  with applied ok show ?thesis by (simp add: 2(4) mount_ok_def)
qed (use ok in simp)

end
