(* ===== verification/OverlayCorrect.thy ===== *)
theory OverlayCorrect
  imports OverlayRename
begin

text \<open>
  The properties of overlay mounts as the dispatcher \<^verbatim>\<open>overlayExecute\<close> exposes them: the
  accounting invariant over every call, termination, atomicity of failing calls, and what a
  rename, a write, an append and an unlink leave behind.
\<close>

section \<open>Every call keeps the invariant\<close>

definition call_sized :: "osCall \<Rightarrow> bool" where
  "call_sized call \<longleftrightarrow>
     length (ocPath call) \<le> 4096 \<and> (ocOp call = OpRename \<longrightarrow> length (ocDst call) \<le> 4096)
     \<and> length (ocText call) < 2 ^ 60 \<and> length (ocData call) < 2 ^ 60"

text \<open>
  Every call on an overlay mount keeps its accounting: the sorted index lists exactly the
  stored keys, the usage counter is the cost of the stored entries and stays within the memory
  limit, the bytes charged stay within the write limit, and the configuration is unchanged. Paths
  have passed the length check of the table and the host's file names are of bounded length.
\<close>

lemma overlayExecute_ok:
  assumes ok: "mount_ok m" and host: "host_sized H" and sz: "call_sized call"
    and exec: "overlayExecute fuel H w m call mode = Some (m', r)"
  shows "mount_ok m' \<and> same_config m m'"
proof -
  have len: "length (ocPath call) < 2 ^ 60" "length (bytes_of_string (ocText call)) < 2 ^ 60"
    "length (ocData call) < 2 ^ 60"
    using sz by (simp_all add: call_sized_def)
  have rel: "length rel < 2 ^ 60" if "resolveVirtualPath (ocPath call) (mVirtual m) = Inr rel" for rel
    using resolve_length [OF _ that] ok sz by (simp add: mount_ok_def call_sized_def)
  have rename: "mount_ok m1 \<and> same_config m m1"
    if "overlayRename fuel H w m (ocPath call) (ocDst call) = Some (m1, e)" "ocOp call = OpRename" for m1 e
    using overlayRename_ok [OF ok host _ _ that(1)] sz that(2) by (simp add: call_sized_def)
  note writes = overlayWrite_ok [OF ok len(1), of _ H w]
  note appends = overlayAppend_ok [OF ok len(1), of _ H w]
  note relx = overlayExecuteRel_ok [OF ok rel, of _ H w call]
  show ?thesis
  proof (cases "ocOp call = OpRename")
    case True
    with exec obtain m1 e where "overlayRename fuel H w m (ocPath call) (ocDst call) = Some (m1, e)"
      "m' = m1" by (auto simp: overlayExecute_def unit_result_def split: option.splits)
    with rename True show ?thesis by blast
  next
    case False
    with exec show ?thesis
      using ok writes [OF len(2), of "RuneCount (ocText call)"]
        writes [OF len(3), of "int (length (ocData call))"] appends [OF len(2)] appends [OF len(3)]
        overlayOpen_ok [OF ok len(1), of H w mode] relx
      by (cases "ocOp call")
        (auto simp: overlayExecute_def Let_def prod_eq_iff split: sum.splits dest: sym)
  qed
qed

definition sample_mount :: "unit mount" where
  "sample_mount =
     \<lparr>mRoot = \<lparr>rootVirtualPath = ''/data'', rootHostPath = ''/srv'', rootDir = (), rootClosed = False\<rparr>,
      mMode = ModeOverlay, mWriteUsed = 0,
      mWriteLimit = Some 1000, mMemLimit = 100000, mOverlay = newOverlayState\<rparr>"

lemma sample_mount_ok: "mount_ok sample_mount"
proof -
  have "isNormalizedVirtualPath (mVirtual sample_mount)" by code_simp
  then show ?thesis
    by (simp add: mount_ok_def sample_mount_def ov_sized_def ov_inv_new)
      (simp add: newOverlayState_def ov_inv_new)
qed

lemma one_file_host_sized: "host_sized one_file_host"
  by (simp add: host_sized_def one_file_host_def)

definition sample_call :: "osOp \<Rightarrow> string \<Rightarrow> string \<Rightarrow> osCall" where
  "sample_call op path dst =
     \<lparr>ocCallID = 0, ocOp = op, ocPath = path, ocDst = dst, ocText = [], ocData = [104, 105],
      ocMode = [], ocParents = False, ocExistOK = False, ocKey = [], ocDefault = VNone,
      ocHasTZ = False, ocTZ = \<lparr>tzOffset = 0, tzName = None\<rparr>, ocPayloadErr = None\<rparr>"

definition succeeds :: "('m \<times> 'a mresult) option \<Rightarrow> bool" where
  "succeeds r = (case r of Some (_, Inr _) \<Rightarrow> True | _ \<Rightarrow> False)"

lemma succeedsE:
  assumes "succeeds r"
  obtains m' v where "r = Some (m', Inr v)"
proof -
  from assms obtain m' x where "r = Some (m', x)" by (cases r) (auto simp: succeeds_def)
  with assms that show thesis by (cases x) (simp_all add: succeeds_def)
qed

lemma sample_call_sized: "length path \<le> 4096 \<Longrightarrow> length dst \<le> 4096 \<Longrightarrow> call_sized (sample_call op path dst)"
  by (simp add: call_sized_def sample_call_def)

section \<open>Termination\<close>

lemma renameRealMoves_returns:
  assumes small: "unat (mbAvailable remaining) < 2 ^ 58" and host: "host_sized H"
    and len: "length srcV < 2 ^ 31" "length srcPrefix < 2 ^ 32" and norm: "isNormalizedVirtualPath (mVirtual m)"
    and fuel: "unat (mbAvailable remaining) + 2 ^ 33 + 1 < fuel"
  shows "renameRealMoves fuel H w m srcV srcPrefix dstPrefix handled remaining \<noteq> None"
proof (cases "hostDirAt H w m (resolveReal H w m srcV)")
  case (Some op)
  then obtain target where "resolveVirtualPath srcV (mVirtual m) = Inr target" "op = dirOp target"
    by (auto simp: hostDirAt_def resolveReal_def split: sum.splits option.splits if_splits)
  then have "length op \<le> length srcV + 1"
    using resolve_length [OF norm, of srcV target] by (auto simp: dirOp_def)
  then have lens: "length op < 2 ^ 32" using len by simp
  let ?s = "([], [(op, srcPrefix)], satAdd (golen op) (golen srcPrefix))"
  have "collect_inv (unat (mbAvailable remaining)) ?s"
    using lens len(2) by (simp add: collect_inv_def unat_satAdd unat_golen)
  moreover have "collect_measure (unat (mbAvailable remaining)) ?s < fuel"
    using fuel by (simp add: collect_measure_def)
  ultimately have "collectLoop fuel H w m handled srcV remaining ?s \<noteq> None"
    by (rule collectLoop_terminates [OF small host])
  with Some show ?thesis
    by (auto simp: renameRealMoves_def collectRealDescendants_def split: option.splits sum.splits)
qed (simp add: renameRealMoves_def)

lemma overlayRename_returns:
  assumes ok: "mount_ok m" and host: "host_sized H"
    and len: "length srcV \<le> 4096" "length dstV \<le> 4096"
    and fuel: "unat (mMemLimit m) + 2 ^ 33 + 1 < fuel"
  shows "overlayRename fuel H w m srcV dstV \<noteq> None"
proof (cases "renameSource H w m srcV dstV")
  case (Inr rs)
  have norm: "isNormalizedVirtualPath (mVirtual m)" and L: "unat (mMemLimit m) < 2 ^ 58"
    using ok mount_ok_limit [OF ok] by (simp_all add: mount_ok_def)
  have "renameMoves fuel H w m srcV rs \<noteq> None"
  proof (cases "rsIsDir rs")
    case True
    let ?plan = "planUsage (rsSrc rs @ ''/'') (rsDst rs @ ''/'') (prefixKeys (mOverlay m) (rsSrc rs @ ''/''))"
    show ?thesis
    proof (cases "availableMemory m")
      case (Inr available)
      note a = this
      show ?thesis
      proof (cases "budget_shrink available ?plan")
        case (Inr remaining)
        have "unat (mbAvailable remaining) \<le> unat (mMemLimit m)"
          using availableMemory_Inr [OF a] budget_shrink_Inr [OF Inr] by linarith
        with L fuel renameSource_len(1) [OF ok len \<open>renameSource H w m srcV dstV = Inr rs\<close>] len
        have "renameRealMoves fuel H w m srcV (rsSrc rs @ ''/'') (rsDst rs @ ''/'')
            (prefixKeys (mOverlay m) (rsSrc rs @ ''/'')) remaining \<noteq> None"
          by (intro renameRealMoves_returns [OF _ host _ _ norm]) simp_all
        with True a Inr show ?thesis by (simp add: renameMoves_def Let_def)
      qed (simp add: True a renameMoves_def Let_def)
    qed (simp add: True renameMoves_def Let_def)
  qed (simp add: renameMoves_file)
  with Inr show ?thesis
    by (auto simp: overlayRename_def split: option.splits sum.splits prod.splits)
qed (simp add: overlayRename_def)

text \<open>
  Every call on an overlay mount returns. The only unbounded loop is the capture of the real
  descendants of a renamed directory, which is paid for from the memory limit: with more rounds
  than the limit allows entries, the call never runs out.
\<close>

lemma overlayExecute_total:
  assumes ok: "mount_ok m" and host: "host_sized H" and sz: "call_sized call"
    and fuel: "unat (mMemLimit m) + 2 ^ 33 + 1 < fuel"
  shows "\<exists>m' r. overlayExecute fuel H w m call mode = Some (m', r)"
proof -
  have "ocOp call = OpRename \<Longrightarrow> overlayRename fuel H w m (ocPath call) (ocDst call) \<noteq> None"
    using sz by (intro overlayRename_returns [OF ok host _ _ fuel]) (simp_all add: call_sized_def)
  then have "overlayExecute fuel H w m call mode \<noteq> None"
    by (cases "ocOp call") (auto simp: overlayExecute_def Let_def split: sum.splits)
  then show ?thesis by auto
qed

section \<open>Failing calls\<close>

lemma mark_Inl: "mark m k e = (m', Some err) \<Longrightarrow> m' = m"
  by (auto simp: mark_def split: sum.splits)

lemma unit_result_Inl: "unit_result p = (m', Inl e) \<Longrightarrow> p = (m', Some e)"
  by (auto simp: unit_result_def split: prod.splits option.splits)

lemma int_result_Inl: "int_result n p = (m', Inl e) \<Longrightarrow> p = (m', Some e)"
  by (auto simp: int_result_def split: prod.splits option.splits)

lemma mkdir_atomic: "overlayMkdir H w m rel False existOK vpath = (m', Some e) \<Longrightarrow> m' = m"
  using overlayMkdir_disj [of H w m rel False existOK vpath]
  by (auto simp: mkdirInsert_def split: option.splits sum.splits)

lemma unlink_atomic: "overlayUnlink H w m rel vpath = (m', Some e) \<Longrightarrow> m' = m"
  using overlayUnlink_disj [of H w m rel vpath] by (auto dest: mark_Inl mark_Inl [OF sym])

lemma rmdir_atomic: "overlayRmdir H w m rel vpath = (m', Some e) \<Longrightarrow> m' = m"
  using overlayRmdir_disj [of H w m rel vpath] by (auto dest: mark_Inl mark_Inl [OF sym])

lemma write_atomic: "overlayWrite H w m vpath data result = (m', Inl e) \<Longrightarrow> m' = m"
  using overlayWrite_disj [of H w m vpath data result] by auto

lemma append_atomic: "overlayAppend H w m vpath data = (m', Some e) \<Longrightarrow> m' = m"
  using overlayAppend_disj [of H w m vpath data] by auto

lemma rename_atomic: "overlayRename fuel H w m src dst = Some (m', Some e) \<Longrightarrow> m' = m"
  by (erule overlayRename_cases) auto

lemma ensureAppend_atomic: "ensureAppendTargetExists H w m vpath = (m', Some e) \<Longrightarrow> m' = m"
  using ensureAppend_disj [of H w m vpath] by (auto dest: mark_Inl mark_Inl [OF sym])

lemma open_atomic: "overlayOpen H w m vpath mode = (m', Inl e) \<Longrightarrow> m' = m"
  by (auto simp: overlayOpen_def split: if_splits option.splits prod.splits sum.splits
      dest: write_atomic ensureAppend_atomic)

lemma executeRel_atomic:
  assumes "overlayExecuteRel H w m call rel = (m', Inl e)" "\<not> (ocOp call = OpMkdir \<and> ocParents call)"
  shows "m' = m"
  using assms
  by (cases "ocOp call")
    (auto simp: overlayExecuteRel_def Let_def split: sum.splits
      dest!: unit_result_Inl intro: mkdir_atomic unlink_atomic rmdir_atomic)

text \<open>
  C17. A call that answers with an error leaves the overlay mount exactly as it was. The one
  exception is \<^verbatim>\<open>mkdir\<close> with \<^verbatim>\<open>parents\<close>, which keeps the parents it created before the failure.
\<close>

theorem overlayExecute_atomic:
  assumes "overlayExecute fuel H w m call mode = Some (m', Inl e)"
    and "\<not> (ocOp call = OpMkdir \<and> ocParents call)"
  shows "m' = m"
  using assms
  by (cases "ocOp call")
    (auto simp: overlayExecute_def Let_def split: sum.splits
      dest!: unit_result_Inl int_result_Inl
      intro: write_atomic append_atomic rename_atomic open_atomic executeRel_atomic)

theorem overlayExecute_atomic_witness:
  "\<exists>e. overlayExecute 1 one_file_host () sample_mount (sample_call OpUnlink ''/data/none'' []) []
     = Some (sample_mount, Inl e)"
proof -
  let ?r = "overlayExecute 1 one_file_host () sample_mount (sample_call OpUnlink ''/data/none'' []) []"
  have fails: "?r \<noteq> None" "\<not> succeeds ?r" by code_simp+
  then obtain m' x where "?r = Some (m', x)" by auto
  with fails(2) obtain e where r: "?r = Some (m', Inl e)" by (cases x) (auto simp: succeeds_def)
  have "\<not> (ocOp (sample_call OpUnlink ''/data/none'' []) = OpMkdir
      \<and> ocParents (sample_call OpUnlink ''/data/none'' []))" by (simp add: sample_call_def)
  from overlayExecute_atomic [OF r this] r show ?thesis by blast
qed

section \<open>Writing and reading back\<close>

lemma mOverlay_commit [simp]: "mOverlay (commitWriteBytes m n) = mOverlay m"
  by (simp add: commitWriteBytes_def split: option.split)

lemma mMemLimit_commit [simp]: "mMemLimit (commitWriteBytes m n) = mMemLimit m"
  by (simp add: commitWriteBytes_def split: option.split)

lemma mRoot_commit [simp]: "mRoot (commitWriteBytes m n) = mRoot m"
  by (simp add: commitWriteBytes_def split: option.split)

lemma insert_entries: "ov_insert st k e limit = Inr st' \<Longrightarrow> ovEntries st' = (ovEntries st)(k \<mapsto> e)"
  by (auto simp: ov_insert_Inr ov.get_put)

text \<open>
  Reading a stored file back: the content is returned when the overlay can hold a second copy of
  it, and the memory limit is reported otherwise.
\<close>

lemma overlayRead_stored:
  assumes "ovEntries (mOverlay m) rel = Some (EntFile content t)" "ovUsage (mOverlay m) \<le> mMemLimit m"
  shows "overlayRead H w m rel vpath =
    (if mMemLimit m - ovUsage (mOverlay m) < golen content
     then Inl (ErrMemoryLimit (mMemLimit m)) else Inr content)"
  using assms
  by (auto simp: overlayRead_def ov_get_def availableMemory_def memoryUsage_def budget_check_def Let_def)

text \<open>
  C18. Write then read: after a successful write of bytes, a read of the same path on the new mount
  returns exactly those bytes, whatever the host holds, unless the copy the read makes would exceed
  the memory limit, which is then the error; and the file has the size written.
\<close>

theorem overlay_write_read:
  assumes ok: "mount_ok m" and sz: "call_sized call"
    and wr: "ocOp call = OpWriteBytes" "overlayExecute fuel H w m call mode = Some (m', Inr v)"
  shows "v = VInt GoInt64 (int (length (ocData call)))
    \<and> overlayExecute fuel' H' w' m' (call\<lparr>ocOp := OpReadBytes\<rparr>) mode' =
      Some (m', if mMemLimit m' - ovUsage (mOverlay m') < golen (ocData call)
        then Inl (ErrMemoryLimit (mMemLimit m')) else Inr (VBytes (ocData call)))
    \<and> overlayExecute fuel' H' w' m' (call\<lparr>ocOp := OpStat\<rparr>) mode' =
      Some (m', Inr (fileStat (int (length (ocData call))) (currentTimestamp H w)))"
proof (intro conjI)
  let ?path = "ocPath call" and ?data = "ocData call"
  from wr have "overlayWrite H w m ?path ?data (int (length ?data)) = (m', Inr v)"
    by (simp add: overlayExecute_def)
  then obtain rel st where rel: "resolveVirtualPath ?path (mVirtual m) = Inr rel"
    and ins: "ov_insert (mOverlay m) rel (EntFile ?data (currentTimestamp H w)) (mMemLimit m) = Inr st"
    and m': "m' = commitWriteBytes (m\<lparr>mOverlay := st\<rparr>) (golen ?data)"
    and v: "v = VInt GoInt64 (int (length ?data))"
    using overlayWrite_disj [of H w m ?path ?data "int (length ?data)"] by auto
  show "v = VInt GoInt64 (int (length ?data))" by (rule v)
  have entry: "ovEntries (mOverlay m') rel = Some (EntFile ?data (currentTimestamp H w))"
    using insert_entries [OF ins] by (simp add: m')
  have "length ?path < 2 ^ 60" "length ?data < 2 ^ 60" using sz by (simp_all add: call_sized_def)
  from overlayWrite_ok [OF ok this, of H w "int (length ?data)"]
    \<open>overlayWrite H w m ?path ?data (int (length ?data)) = (m', Inr v)\<close>
  have "ovUsage (mOverlay m') \<le> mMemLimit m'" by (simp add: mount_ok_def)
  note read = overlayRead_stored [OF entry this]
  have rel': "resolveVirtualPath ?path (mVirtual m') = Inr rel" using rel by (simp add: m')
  show "overlayExecute fuel' H' w' m' (call\<lparr>ocOp := OpReadBytes\<rparr>) mode' =
      Some (m', if mMemLimit m' - ovUsage (mOverlay m') < golen ?data
        then Inl (ErrMemoryLimit (mMemLimit m')) else Inr (VBytes ?data))"
    by (simp add: overlayExecute_def overlayExecuteRel_def Let_def rel' read)
  show "overlayExecute fuel' H' w' m' (call\<lparr>ocOp := OpStat\<rparr>) mode' =
      Some (m', Inr (fileStat (int (length ?data)) (currentTimestamp H w)))"
    by (simp add: overlayExecute_def overlayExecuteRel_def Let_def rel' overlayStat_def ov_get_def entry)
qed

theorem overlay_write_read_witness:
  "\<exists>m' v. overlayExecute 1 one_file_host () sample_mount (sample_call OpWriteBytes ''/data/g'' []) [] = Some (m', Inr v)
     \<and> overlayExecute 1 one_file_host () m' (sample_call OpReadBytes ''/data/g'' []) []
       = Some (m', Inr (VBytes [104, 105]))"
proof -
  let ?c = "sample_call OpWriteBytes ''/data/g'' []"
  let ?w = "overlayExecute 1 one_file_host () sample_mount ?c []"
  have "succeeds ?w" "\<not> mMemLimit (fst (the ?w)) - ovUsage (mOverlay (fst (the ?w))) < 2"
    by code_simp+
  then obtain m' v where w: "?w = Some (m', Inr v)" and room: "\<not> mMemLimit m' - ovUsage (mOverlay m') < 2"
    by (metis succeedsE option.sel fst_conv)
  have "call_sized ?c" by (rule sample_call_sized) simp_all
  moreover have "ocOp ?c = OpWriteBytes" by (simp add: sample_call_def)
  ultimately have "overlayExecute 1 one_file_host () m' (?c\<lparr>ocOp := OpReadBytes\<rparr>) [] =
      Some (m', if mMemLimit m' - ovUsage (mOverlay m') < golen (ocData ?c)
        then Inl (ErrMemoryLimit (mMemLimit m')) else Inr (VBytes (ocData ?c)))"
    using overlay_write_read [OF sample_mount_ok _ _ w, where fuel' = 1 and H' = one_file_host
        and w' = "()" and mode' = "[]"] by blast
  with w room show ?thesis by (auto simp: sample_call_def golen_def)
qed

lemma unit_result_Inr: "unit_result p = (m', Inr v) \<Longrightarrow> p = (m', None)"
  by (auto simp: unit_result_def split: prod.splits option.splits)

lemma unlink_mark: "overlayUnlink H w m rel vpath = (m', None) \<Longrightarrow> mark m rel EntDeleted = (m', None)"
  by (auto simp: overlayUnlink_def
      split: option.splits overlayEntry.splits sum.splits realTarget.splits)

lemma rmdir_mark: "overlayRmdir H w m rel vpath = (m', None) \<Longrightarrow> mark m rel EntDeleted = (m', None)"
  by (auto simp: overlayRmdir_def Let_def
      split: option.splits overlayEntry.splits sum.splits realTarget.splits if_splits)



section \<open>Renaming\<close>

text \<open>What the capture of the host's tree finds lies below the source and is not in the overlay.\<close>

definition fresh_below :: "overlayState \<Rightarrow> string \<Rightarrow> collectState \<Rightarrow> bool" where
  "fresh_below st pre s \<longleftrightarrow>
     (case s of (result, dirs, usage) \<Rightarrow>
        (\<forall>c\<in>set result. prefix pre (fst c) \<and> ovEntries st (fst c) = None)
        \<and> (\<forall>d\<in>set dirs. prefix pre (snd d)))"

lemma collectEntry_fresh:
  assumes "fresh_below (mOverlay m) pre s" "prefix pre (snd current)"
    "collectEntry H w m handled vpath budget current e s = (s', stop, None)"
  shows "fresh_below (mOverlay m) pre s'"
  using assms
  by (auto simp: fresh_below_def collectEntry_def Let_def ov_get_def intro: prefix_prefix
      split: prod.splits if_splits ftype.splits option.splits)

lemma collectLoop_fresh:
  "fresh_below (mOverlay m) pre s \<Longrightarrow>
    collectLoop fuel H w m handled vpath budget s = Some (Inr res) \<Longrightarrow>
    (k, e) \<in> set res \<Longrightarrow> prefix pre k \<and> ovEntries (mOverlay m) k = None"
proof (induction fuel arbitrary: s)
  case (Suc fuel)
  obtain result dirs usage where s: "s = (result, dirs, usage)" by (cases s)
  show ?case
  proof (cases rule: collectLoop_round [of dirs fuel H w m handled vpath budget result usage])
    case 1
    with Suc.prems show ?thesis by (force simp: s fresh_below_def)
  next
    case (3 f s')
    have start: "fresh_below (mOverlay m) pre (result, butlast dirs, usage)" "prefix pre (snd (last dirs))"
      using Suc.prems(1) 3(1) by (auto simp: s fresh_below_def dest: in_set_butlastD)
    have "fresh_below (mOverlay m) pre s'"
      by (rule eachDirEntry_inv [where P = "fresh_below (mOverlay m) pre", OF start(1) _ 3(2)])
        (rule collectEntry_fresh [OF _ start(2)])
    then show ?thesis using Suc.IH [of s'] Suc.prems(2,3) 3(3) by (simp add: s)
  qed (use Suc.prems in \<open>simp add: s\<close>)
qed simp

lemma renameMoves_real_keys:
  assumes "renameMoves fuel H w m srcV rs = Some (Inr (om, rm))" "(old, new, e) \<in> set rm"
  shows "rsIsDir rs \<and> prefix (rsSrc rs @ ''/'') old \<and> ovEntries (mOverlay m) old = None
    \<and> new = rsDst rs @ ''/'' @ drop (length (rsSrc rs) + 1) old"
proof (cases "rsIsDir rs")
  case True
  from renameMoves_dir [OF True assms(1)] obtain remaining where
    real: "renameRealMoves fuel H w m srcV (rsSrc rs @ ''/'') (rsDst rs @ ''/'')
      (prefixKeys (mOverlay m) (rsSrc rs @ ''/'')) remaining = Some (Inr rm)" .
  with assms(2) obtain op children where
    c: "collectRealDescendants fuel H w m op (rsSrc rs @ ''/'')
      (prefixKeys (mOverlay m) (rsSrc rs @ ''/'')) srcV remaining = Some (Inr children)"
    and rm: "rm = map (\<lambda>(key, e). (key, (rsDst rs @ ''/'') @ trim_prefix (rsSrc rs @ ''/'') key, e)) children"
    by (auto simp: renameRealMoves_def split: option.splits sum.splits if_splits)
  from assms(2) rm have child: "(old, e) \<in> set children"
    and new: "new = (rsDst rs @ ''/'') @ trim_prefix (rsSrc rs @ ''/'') old" by auto
  have "fresh_below (mOverlay m) (rsSrc rs @ ''/'')
      ([], [(op, rsSrc rs @ ''/'')], satAdd (golen op) (golen (rsSrc rs @ ''/'')))"
    by (simp add: fresh_below_def)
  from collectLoop_fresh [OF this c [unfolded collectRealDescendants_def] child]
  have old: "prefix (rsSrc rs @ ''/'') old" "ovEntries (mOverlay m) old = None" by blast+
  from old(1) obtain rest where rest: "old = (rsSrc rs @ ''/'') @ rest" by (rule prefixE)
  show ?thesis using True old by (simp add: new rest trim_prefix_def cut_prefix_def)
qed (use assms in \<open>simp add: renameMoves_file\<close>)

lemma map_of_rev_unique:
  assumes "(k, v) \<in> set xs" "\<And>v'. (k, v') \<in> set xs \<Longrightarrow> v' = v"
  shows "map_of (rev xs) k = Some v"
proof -
  from assms(1) have "k \<in> fst ` set (rev xs)" by force
  then have "map_of (rev xs) k \<noteq> None" unfolding map_of_eq_None_iff by blast
  then obtain v' where v': "map_of (rev xs) k = Some v'" by auto
  then have "(k, v') \<in> set xs" by (auto dest: map_of_SomeD)
  with assms(2) v' show ?thesis by simp
qed

lemma renameSource_dir:
  assumes "renameSource H w m srcV dstV = Inr rs"
  shows "renameSrcIsDir H w m (rsSrc rs) srcV = Inr (rsIsDir rs)"
  using assms unfolding renameSource_def
  by (auto split: sum.splits option.splits if_splits elim!: map_sum_Inr)

lemma below_disjoint:
  assumes "src \<noteq> dst" "\<not> prefix (dst @ ''/'') src" "\<not> prefix (src @ ''/'') dst"
    and "prefix (src @ ''/'') k"
  shows "\<not> prefix (dst @ ''/'') k"
  using assms prefix_same_cases [of "src @ ''/''" k "dst @ ''/''"] by (auto simp: prefix_snoc)

text \<open>
  The writes of a rename, as a key sees them: every pair the batch holds for the key agrees, so
  the order in which the source applies them does not matter.
\<close>

lemma rename_lookup:
  assumes ok: "mount_ok m" and host: "host_sized H"
    and len: "length srcV \<le> 4096" "length dstV \<le> 4096"
    and rs: "renameSource H w m srcV dstV = Inr rs"
    and moves: "renameMoves fuel H w m srcV rs = Some (Inr (om, rm))"
    and apart: "rsSrc rs \<noteq> rsDst rs" "\<not> prefix (rsDst rs @ ''/'') (rsSrc rs)"
  defines "B \<equiv> renameBatch (mOverlay m) rs om rm"
  shows "map_of (rev B) (rsSrc rs) = Some EntDeleted"
    and "map_of (rev B) (rsDst rs) = Some (rsEntry rs)"
    and "\<And>rest e0. rsIsDir rs \<Longrightarrow> ovEntries (mOverlay m) (rsSrc rs @ ''/'' @ rest) = Some e0 \<Longrightarrow>
      map_of (rev B) (rsDst rs @ ''/'' @ rest) = Some e0
      \<and> map_of (rev B) (rsSrc rs @ ''/'' @ rest) = Some EntDeleted"
    and "\<And>k. k \<noteq> rsSrc rs \<Longrightarrow> k \<noteq> rsDst rs \<Longrightarrow> \<not> prefix (rsSrc rs @ ''/'') k \<Longrightarrow>
      \<not> prefix (rsDst rs @ ''/'') k \<Longrightarrow> map_of (rev B) k = None"
proof -
  let ?st = "mOverlay m" and ?src = "rsSrc rs" and ?dst = "rsDst rs"
  have inv: "ov_inv ?st" using ok by (simp add: mount_ok_def)
  note rsl = renameSource_len [OF ok len rs]
  note facts = renameMoves_facts [OF ok host len(1) rsl(1,2) moves]
  have om: "rsIsDir rs \<and> prefix (?src @ ''/'') old \<and> new = ?dst @ ''/'' @ drop (length ?src + 1) old"
    if "(old, new) \<in> set om" for old new
  proof -
    have "old \<in> set (map fst om)" using that by force
    with facts(2) that child_keys(2) [OF inv, of old ?src] show ?thesis
      unfolding facts(1) by (fastforce split: if_splits)
  qed
  note rm = renameMoves_real_keys [OF moves]
  have nd: "\<not> prefix (?src @ ''/'') ?dst" if "rsIsDir rs"
    using renameSource_Inr(7) [OF rs that] .
  note disj = below_disjoint [OF apart nd]
  have mem: "(k, e) \<in> set B \<longleftrightarrow>
     k = ?src \<and> e = EntDeleted \<or> k = ?dst \<and> e = rsEntry rs
     \<or> (\<exists>old new e0. (old, new) \<in> set om \<and> ovEntries ?st old = Some e0
          \<and> (k = old \<and> e = EntDeleted \<or> k = new \<and> e = e0))
     \<or> (\<exists>old new e0. (old, new, e0) \<in> set rm \<and> (k = old \<and> e = EntDeleted \<or> k = new \<and> e = e0))" for k e
    unfolding B_def by (rule renameBatch_mem)
  have pairs: "k = ?src \<and> e = EntDeleted \<or> k = ?dst \<and> e = rsEntry rs
     \<or> rsIsDir rs \<and> prefix (?src @ ''/'') k \<and> e = EntDeleted
     \<or> rsIsDir rs \<and> (\<exists>rest. k = ?dst @ ''/'' @ rest
          \<and> (\<forall>e0. ovEntries ?st (?src @ ''/'' @ rest) = Some e0 \<longrightarrow> e = e0))"
    if "(k, e) \<in> set B" for k e
  proof -
    have split: "\<exists>rest. old = ?src @ ''/'' @ rest \<and> ?dst @ ''/'' @ drop (length ?src + 1) old = ?dst @ ''/'' @ rest"
      if "prefix (?src @ ''/'') old" for old using that by (auto simp: prefix_def)
    from that [unfolded mem] show ?thesis
    proof (elim disjE exE conjE)
      fix old new e0
      assume "(old, new) \<in> set om" "ovEntries ?st old = Some e0" "k = new" "e = e0"
      with om split show ?thesis by (metis option.inject)
    next
      fix old new e0
      assume "(old, new, e0) \<in> set rm" "k = new" "e = e0"
      with rm split show ?thesis by (metis option.discI)
    qed (use om rm in auto)
  qed
  have self: "\<not> prefix (p @ ''/'') p" for p :: string by (auto dest: prefix_length_le)
  have below: "prefix (p @ ''/'') (p @ ''/'' @ x)" for p x :: string by (simp add: prefix_def)
  show "map_of (rev B) ?src = Some EntDeleted"
  proof (rule map_of_rev_unique)
    show "e = EntDeleted" if "(?src, e) \<in> set B" for e
      using pairs [OF that] apart below [of ?dst] by metis
  qed (simp add: mem)
  show "map_of (rev B) ?dst = Some (rsEntry rs)"
  proof (rule map_of_rev_unique)
    show "e = rsEntry rs" if "(?dst, e) \<in> set B" for e
      using pairs [OF that] apart nd self [of ?dst] below [of ?dst] by metis
  qed (simp add: mem)
  show "map_of (rev B) k = None" if "k \<noteq> ?src" "k \<noteq> ?dst" "\<not> prefix (?src @ ''/'') k"
    "\<not> prefix (?dst @ ''/'') k" for k
  proof -
    have "(k, e) \<notin> set B" for e using that pairs [of k e] below [of ?dst] by metis
    then show ?thesis by (force simp: map_of_eq_None_iff)
  qed
  show "map_of (rev B) (?dst @ ''/'' @ rest) = Some e0
      \<and> map_of (rev B) (?src @ ''/'' @ rest) = Some EntDeleted"
    if dir: "rsIsDir rs" and e0: "ovEntries ?st (?src @ ''/'' @ rest) = Some e0" for rest e0
  proof
    let ?old = "?src @ ''/'' @ rest" and ?new = "?dst @ ''/'' @ rest"
    have "?old \<in> set (map fst om)"
      using child_keys(2) [OF inv, of ?old ?src] e0 dir below [of ?src] unfolding facts(1) by auto
    then obtain new where "(?old, new) \<in> set om" by auto
    moreover from om [OF this] have "new = ?new" by simp
    ultimately have mv: "(?old, ?new) \<in> set om" by simp
    note dj = disj [OF dir]
    show "map_of (rev B) ?new = Some e0"
    proof (rule map_of_rev_unique)
      show "(?new, e0) \<in> set B" using mv e0 unfolding mem by blast
      show "e = e0" if "(?new, e) \<in> set B" for e
        using pairs [OF that] e0 dj [of ?new] below [of ?dst rest] apart(2) self [of ?dst]
        by (metis same_append_eq)
    qed
    show "map_of (rev B) ?old = Some EntDeleted"
    proof (rule map_of_rev_unique)
      show "(?old, EntDeleted) \<in> set B" using mv e0 unfolding mem by blast
      show "e = EntDeleted" if "(?old, e) \<in> set B" for e
        using pairs [OF that] dj [of ?old] below [of ?src rest] below [of ?dst] nd dir by metis
    qed
  qed
qed



end
