(* ===== verification/MountTable.thy ===== *)
theory MountTable
  imports OverlayCorrect
begin

text \<open>
  The mount table: \<^verbatim>\<open>internal/mountfs/table.go\<close> and the direct mounts of
  \<^verbatim>\<open>internal/mountfs/direct.go\<close>. A call is routed to the mount with the longest virtual prefix
  and executed there under the table's lock, so the table is a sequential machine over the world
  of the host and the state of its mounts. The overlay of a mount that is not in overlay mode is
  \<^verbatim>\<open>nil\<close> in the source; here it is the empty state, which nothing reads or writes.
\<close>

section \<open>Roots\<close>

definition DefaultMemoryUsageLimit :: u64 where
  "DefaultMemoryUsageLimit = 100000000"

text \<open>
  \<^verbatim>\<open>OpenRoot\<close>. Opening a directory by its host path and resolving that path are operations of
  the operating system outside any root, so they are parameters.
\<close>

definition OpenRoot ::
  "('w \<Rightarrow> string \<Rightarrow> oserr + 'r) \<Rightarrow> ('w \<Rightarrow> string \<Rightarrow> oserr + string) \<Rightarrow> 'w \<Rightarrow> string \<Rightarrow> string
     \<Rightarrow> 'r root mresult" where
  "OpenRoot openTop canonicalize w virtualPath hostPath =
     (if \<not> prefix ''/'' virtualPath then
        Inl (ErrInvalidMount (''virtual path must be absolute, got: '' @ [CHR 0x27] @ virtualPath @ [CHR 0x27]))
      else case openTop w hostPath of
        Inl err \<Rightarrow>
          Inl (ErrInvalidMount (''cannot open host path '' @ [CHR 0x27] @ hostPath @ [CHR 0x27] @ '': '' @ ioDisplay err))
      | Inr dir \<Rightarrow>
          (case canonicalize w hostPath of
             Inl err \<Rightarrow>
               Inl (ErrInvalidMount (''cannot resolve host path '' @ [CHR 0x27] @ hostPath @ [CHR 0x27] @ '': '' @ ioDisplay err))
           | Inr canonical \<Rightarrow>
               Inr \<lparr>rootVirtualPath = NormalizeVirtualPath virtualPath, rootHostPath = canonical,
                    rootDir = dir, rootClosed = False\<rparr>))"

section \<open>Direct mounts\<close>

type_synonym ('w, 'r) executed = "'w \<times> 'r mount \<times> pyval mresult"

definition boolQuery :: "'r mount \<Rightarrow> string \<Rightarrow> (string \<Rightarrow> bool) \<Rightarrow> pyval mresult" where
  "boolQuery m path query =
     (case resolveVirtualPath path (mVirtual m) of
        Inl e \<Rightarrow> Inl e
      | Inr rel \<Rightarrow> Inr (VBool (query (dirOp rel))))"

definition directWrite ::
  "('w, 'r, 'f) hostfs \<Rightarrow> 'w \<Rightarrow> 'r mount \<Rightarrow> string \<Rightarrow> bytes \<Rightarrow> int \<Rightarrow> bool \<Rightarrow> ('w, 'r) executed" where
  "directWrite H w m path data result appendMode =
     (let n = golen data
      in case checkWriteLimit m n of
           Some e \<Rightarrow> (w, m, Inl e)
         | None \<Rightarrow>
             (case resolveVirtualPath path (mVirtual m) of
                Inl e \<Rightarrow> (w, m, Inl e)
              | Inr rel \<Rightarrow>
                  (case (if appendMode then appendBytesToFile H w (mDir m) (dirOp rel) data path
                         else writeBytesToFile H w (mDir m) (dirOp rel) data path) of
                     (w1, Some e) \<Rightarrow> (w1, m, Inl e)
                   | (w1, None) \<Rightarrow> (w1, commitWriteBytes m n, Inr (VInt GoInt64 result)))))"

definition directOpen ::
  "('w, 'r, 'f) hostfs \<Rightarrow> 'w \<Rightarrow> 'r mount \<Rightarrow> string \<Rightarrow> string \<Rightarrow> ('w, 'r) executed" where
  "directOpen H w m path mode =
     (case resolveVirtualPath path (mVirtual m) of
        Inl e \<Rightarrow> (w, m, Inl e)
      | Inr rel \<Rightarrow>
          let dir = mDir m; op = dirOp rel
          in if hd mode = CHR ''r'' then
               (case hStat H w dir op of
                  Inl err \<Rightarrow> (w, m, Inl (mapIO err path))
                | Inr _ \<Rightarrow>
                    (case rejectNonRegular H w dir op path of
                       Some e \<Rightarrow> (w, m, Inl e)
                     | None \<Rightarrow> (w, m, Inr (fileHandle H w path mode))))
             else if hd mode = CHR ''w'' then
               (case checkWriteLimit m 0 of
                  Some e \<Rightarrow> (w, m, Inl e)
                | None \<Rightarrow>
                    (case writeBytesToFile H w dir op [] path of
                       (w1, Some e) \<Rightarrow> (w1, m, Inl e)
                     | (w1, None) \<Rightarrow> (w1, commitWriteBytes m 0, Inr (fileHandle H w1 path mode))))
             else if hd mode = CHR ''a'' then
               (case appendBytesToFile H w dir op [] path of
                  (w1, Some e) \<Rightarrow> (w1, m, Inl e)
                | (w1, None) \<Rightarrow> (w1, m, Inr (fileHandle H w1 path mode)))
             else (w, m, Inr (fileHandle H w path mode)))"

definition directRename ::
  "('w, 'r, 'f) hostfs \<Rightarrow> 'w \<Rightarrow> 'r mount \<Rightarrow> string \<Rightarrow> string \<Rightarrow> ('w, 'r) executed" where
  "directRename H w m src dst =
     (case resolveVirtualPath src (mVirtual m) of
        Inl e \<Rightarrow> (w, m, Inl e)
      | Inr srcRel \<Rightarrow>
          (case resolveVirtualPath dst (mVirtual m) of
             Inl e \<Rightarrow> (w, m, Inl e)
           | Inr dstRel \<Rightarrow>
               if srcRel = [] then (w, m, Inl (ErrPathEscape src))
               else if dstRel = [] then (w, m, Inl (ErrPathEscape dst))
               else case hRename H w (mDir m) srcRel dstRel of
                      (w1, Some err) \<Rightarrow> (w1, m, Inl (mapIO err src))
                    | (w1, None) \<Rightarrow> (w1, m, Inr VNone)))"

text \<open>An operation on the host that returns nothing but an error answers with \<^verbatim>\<open>nil\<close>.\<close>

definition host_result :: "'r mount \<Rightarrow> 'w \<times> mountError option \<Rightarrow> ('w, 'r) executed" where
  "host_result m r = (case r of (w, Some e) \<Rightarrow> (w, m, Inl e) | (w, None) \<Rightarrow> (w, m, Inr VNone))"

text \<open>The second switch of \<^verbatim>\<open>directExecute\<close>, on a resolved path.\<close>

definition directExecuteRel ::
  "('w, 'r, 'f) hostfs \<Rightarrow> 'w \<Rightarrow> 'r mount \<Rightarrow> osCall \<Rightarrow> string \<Rightarrow> ('w, 'r) executed" where
  "directExecuteRel H w m call rel =
     (let dir = mDir m; path = ocPath call
      in case ocOp call of
           OpReadText \<Rightarrow>
             (case readFileLimited H w dir (dirOp rel) path (fullBudget (mMemLimit m)) of
                Inl e \<Rightarrow> (w, m, Inl e)
              | Inr content \<Rightarrow> (w, m, map_sum id VStr (bytesToUTF8 content)))
         | OpReadBytes \<Rightarrow>
             (w, m, map_sum id VBytes (readFileLimited H w dir (dirOp rel) path (fullBudget (mMemLimit m))))
         | OpMkdir \<Rightarrow> host_result m (hostMkdir H w dir (dirOp rel) (ocParents call) (ocExistOK call) path)
         | OpUnlink \<Rightarrow> host_result m (hostUnlink H w dir (dirOp rel) path)
         | OpRmdir \<Rightarrow>
             if rel = [] then (w, m, Inl (ErrPathEscape path))
             else host_result m (hostRmdir H w dir rel path)
         | OpIterdir \<Rightarrow> (w, m, hostIterdir H w dir (dirOp rel) path (fullBudget (mMemLimit m)))
         | OpStat \<Rightarrow> (w, m, hostStat H w dir (dirOp rel) path)
         | _ \<Rightarrow> (w, m, Inr VNone))"

definition directExecute ::
  "('w, 'r, 'f) hostfs \<Rightarrow> 'w \<Rightarrow> 'r mount \<Rightarrow> osCall \<Rightarrow> string \<Rightarrow> ('w, 'r) executed" where
  "directExecute H w m call mode =
     (let dir = mDir m; path = ocPath call; text = ocText call
      in case ocOp call of
           OpExists \<Rightarrow> (w, m, boolQuery m path (hostExists H w dir))
         | OpIsFile \<Rightarrow> (w, m, boolQuery m path (hostIsFile H w dir))
         | OpIsDir \<Rightarrow> (w, m, boolQuery m path (hostIsDir H w dir))
         | OpIsSymlink \<Rightarrow> (w, m, boolQuery m path (hostIsSymlink H w dir))
         | OpResolve \<Rightarrow> (w, m, Inr (VPath (NormalizeVirtualPath path)))
         | OpAbsolute \<Rightarrow> (w, m, Inr (VPath (NormalizeVirtualPath path)))
         | OpWriteText \<Rightarrow> directWrite H w m path (bytes_of_string text) (RuneCount text) False
         | OpWriteBytes \<Rightarrow> directWrite H w m path (ocData call) (int (length (ocData call))) False
         | OpAppendText \<Rightarrow> directWrite H w m path (bytes_of_string text) (RuneCount text) True
         | OpAppendBytes \<Rightarrow> directWrite H w m path (ocData call) (int (length (ocData call))) True
         | OpRename \<Rightarrow> directRename H w m path (ocDst call)
         | OpOpen \<Rightarrow> directOpen H w m path mode
         | _ \<Rightarrow>
             (case resolveVirtualPath path (mVirtual m) of
                Inl e \<Rightarrow> (w, m, Inl e)
              | Inr rel \<Rightarrow> directExecuteRel H w m call rel))"

section \<open>One mount\<close>

text \<open>The text of an error of \<^verbatim>\<open>CanonicalFileMode\<close>.\<close>

definition mode_error_text :: "(nat \<Rightarrow> bool) \<Rightarrow> mode_error \<Rightarrow> string" where
  "mode_error_text isPrint e =
     (case e of
        ModeManyActions \<Rightarrow> ''must have exactly one of create/read/write/append mode''
      | ModeExclusive \<Rightarrow> ''exclusive creation mode is not supported''
      | ModeBinaryTwice \<Rightarrow> ''invalid mode: binary mode specified twice''
      | ModeTextTwice \<Rightarrow> ''invalid mode: text mode specified twice''
      | ModeUpdate \<Rightarrow> ''update modes ('' @ [CHR 0x27] @ ''+'' @ [CHR 0x27] @ '') are not yet supported''
      | ModeInvalid rest \<Rightarrow>
          ''invalid mode: '' @ RustDebugChar isPrint (fst (decodeRune (bytes_of_string rest)))
      | ModeTextAndBinary \<Rightarrow> ''can'' @ [CHR 0x27] @ ''t have text and binary mode at once''
      | ModeNoAction \<Rightarrow>
          ''Must have exactly one of create/read/write/append mode and at most one plus'')"

definition isWriteCall :: "osCall \<Rightarrow> string \<Rightarrow> bool" where
  "isWriteCall call mode = (if ocOp call = OpOpen then ModeCreates mode else IsWrite call)"

text \<open>The first part of \<^verbatim>\<open>execute\<close>: the canonical mode of an open.\<close>

definition callMode :: "(nat \<Rightarrow> bool) \<Rightarrow> osCall \<Rightarrow> string mresult" where
  "callMode isPrint call =
     (if ocOp call = OpOpen then
        (case CanonicalFileMode (ocMode call) of
           Inl err \<Rightarrow> Inl (ErrValue (mode_error_text isPrint err))
         | Inr canonical \<Rightarrow> Inr canonical)
      else Inr [])"

definition mount_execute ::
  "(nat \<Rightarrow> bool) \<Rightarrow> nat \<Rightarrow> ('w, 'r, 'f) hostfs \<Rightarrow> 'w \<Rightarrow> 'r mount \<Rightarrow> osCall
     \<Rightarrow> ('w, 'r) executed option" where
  "mount_execute isPrint fuel H w m call =
     (case callMode isPrint call of
        Inl e \<Rightarrow> Some (w, m, Inl e)
      | Inr mode \<Rightarrow>
          if mMode m = ModeReadOnly \<and> isWriteCall call mode then
            Some (w, m, Inl (ErrReadOnly (ocPath call)))
          else if mMode m = ModeOverlay then
            map_option (\<lambda>(m', r). (w, m', r)) (overlayExecute fuel H w m call mode)
          else Some (directExecute H w m call mode))"

section \<open>The table\<close>

record 'r spec =
  spRoot :: "'r root"
  spMode :: mode
  spWriteBytesLimit :: "u64 option"
  spMemoryUsageLimit :: u64

record outcome =
  outHandled :: bool
  outValue :: pyval
  outException :: "wireException option"

record 'r table =
  tMounts :: "'r mount list"
  tFirstPath :: string
  tHasFirst :: bool

fun push_at :: "'r mount list \<Rightarrow> nat \<Rightarrow> nat" where
  "push_at [] n = 0"
| "push_at (m # ms) n = (if n < length (mVirtual m) then Suc (push_at ms n) else 0)"

definition push :: "'r table \<Rightarrow> 'r mount \<Rightarrow> 'r table" where
  "push t m =
     (let n = push_at (tMounts t) (length (mVirtual m))
      in t\<lparr>tMounts := take n (tMounts t) @ m # drop n (tMounts t)\<rparr>)"

definition mount_of_spec :: "'r spec \<Rightarrow> 'r mount" where
  "mount_of_spec s =
     \<lparr>mRoot = spRoot s, mMode = spMode s, mWriteUsed = 0, mWriteLimit = spWriteBytesLimit s,
      mMemLimit = spMemoryUsageLimit s, mOverlay = newOverlayState\<rparr>"

definition empty_table :: "'r table" where
  "empty_table = \<lparr>tMounts = [], tFirstPath = [], tHasFirst = False\<rparr>"

definition NewTable :: "'r spec list \<Rightarrow> 'r table" where
  "NewTable specs =
     (let t = foldl (\<lambda>t s. push t (mount_of_spec s)) empty_table specs
      in case specs of
           [] \<Rightarrow> t
         | s # _ \<Rightarrow> t\<lparr>tFirstPath := rootVirtualPath (spRoot s), tHasFirst := True\<rparr>)"

definition pathMatchesMount :: "string \<Rightarrow> string \<Rightarrow> bool" where
  "pathMatchesMount normalized mountVirtual \<longleftrightarrow>
     (if mountVirtual = ''/'' \<or> normalized = mountVirtual then True
      else prefix mountVirtual normalized \<and> length mountVirtual < length normalized
           \<and> normalized ! length mountVirtual = CHR ''/'')"

text \<open>The index of the first mount that matches; \<open>None\<close> stands for -1.\<close>

fun findLoop :: "'r mount list \<Rightarrow> string \<Rightarrow> nat option" where
  "findLoop [] normalized = None"
| "findLoop (m # ms) normalized =
     (if pathMatchesMount normalized (mVirtual m) then Some 0 else map_option Suc (findLoop ms normalized))"

definition findMount :: "'r table \<Rightarrow> string \<Rightarrow> nat option" where
  "findMount t vpath = findLoop (tMounts t) (NormalizeVirtualPath vpath)"

text \<open>The results of \<^verbatim>\<open>route\<close>: not handled, an error, or the index of a mount.\<close>

datatype routed = NotRouted | RouteError mountError | Routed nat

definition route :: "'r table \<Rightarrow> string \<Rightarrow> osCall \<Rightarrow> routed" where
  "route t primary call =
     (let src = findMount t primary
      in if ocOp call \<noteq> OpRename then
           (case src of None \<Rightarrow> NotRouted | Some i \<Rightarrow> Routed i)
         else case rejectOverlongPath (ocDst call) of
           Some e \<Rightarrow> RouteError e
         | None \<Rightarrow>
             if containsNullByte (ocDst call) then RouteError (ErrValue (NullMessage call True))
             else
               let dst = findMount t (ocDst call)
               in if src = None \<and> dst = None then NotRouted
                  else if src \<noteq> None \<and> src = dst then Routed (the src)
                  else RouteError (ErrCrossMount primary (ocDst call)))"

definition rejection :: "osCall \<Rightarrow> mountError option" where
  "rejection call =
     (case rejectOverlongPath (ocPath call) of
        Some e \<Rightarrow> Some e
      | None \<Rightarrow>
          if containsNullByte (ocPath call) then Some (ErrValue (NullMessage call False)) else None)"

text \<open>
  \<^verbatim>\<open>handle\<close>: the new world and table, and the result when the call is handled. The outer
  \<open>None\<close> is exhausted fuel.
\<close>

definition handle ::
  "(nat \<Rightarrow> bool) \<Rightarrow> nat \<Rightarrow> ('w, 'r, 'f) hostfs \<Rightarrow> 'w \<Rightarrow> 'r table \<Rightarrow> osCall
     \<Rightarrow> ('w \<times> 'r table \<times> pyval mresult option) option" where
  "handle isPrint fuel H w t call =
     (if \<not> IsFS call then Some (w, t, None)
      else case rejection call of
        Some e \<Rightarrow>
          if IsExistenceCheck call then Some (w, t, Some (Inr (VBool False)))
          else Some (w, t, Some (Inl e))
      | None \<Rightarrow>
          (case route t (ocPath call) call of
             NotRouted \<Rightarrow> Some (w, t, None)
           | RouteError e \<Rightarrow> Some (w, t, Some (Inl e))
           | Routed i \<Rightarrow>
               map_option (\<lambda>(w', m', r). (w', t\<lparr>tMounts := (tMounts t)[i := m']\<rparr>, Some r))
                 (mount_execute isPrint fuel H w (tMounts t ! i) call)))"

definition HandleOsCall ::
  "(nat \<Rightarrow> bool) \<Rightarrow> nat \<Rightarrow> ('w, 'r, 'f) hostfs \<Rightarrow> 'w \<Rightarrow> 'r table \<Rightarrow> osCall
     \<Rightarrow> ('w \<times> 'r table \<times> outcome) option" where
  "HandleOsCall isPrint fuel H w t call =
     map_option (\<lambda>(w', t', r).
       (w', t',
        case r of
          None \<Rightarrow> \<lparr>outHandled = False, outValue = VNone, outException = None\<rparr>
        | Some (Inl e) \<Rightarrow>
            \<lparr>outHandled = True, outValue = VNone, outException = Some (mountError_exception isPrint e)\<rparr>
        | Some (Inr v) \<Rightarrow> \<lparr>outHandled = True, outValue = v, outException = None\<rparr>))
     (handle isPrint fuel H w t call)"

end
