(* ===== verification/MountTableProps.thy ===== *)
theory MountTableProps
  imports MountTable
begin

text \<open>
  Correctness of the mount table: the order of the mounts and the choice of the longest prefix,
  the invariant of the table over every call, what read-only and overlay mounts may do to the
  host, and the paths that direct mounts hand to it.
\<close>

section \<open>Routing to the longest prefix\<close>

text \<open>
  The mounts as a table keeps them: with the number of the spec each came from, a lexicographic
  order by length and then by number, both descending.
\<close>

fun tagged_push :: "(nat \<times> 'r mount) list \<Rightarrow> nat \<times> 'r mount \<Rightarrow> (nat \<times> 'r mount) list" where
  "tagged_push xs (k, m) =
     (let n = push_at (map snd xs) (length (mVirtual m)) in take n xs @ (k, m) # drop n xs)"

definition newest_first :: "(nat \<times> 'r mount) list \<Rightarrow> bool" where
  "newest_first xs \<longleftrightarrow>
     sorted_wrt (\<lambda>(k, m) (k', m'). length (mVirtual m') < length (mVirtual m)
       \<or> length (mVirtual m') = length (mVirtual m) \<and> k' < k) xs"

lemma tagged_push_order:
  assumes "newest_first xs" "\<forall>(k', m')\<in>set xs. k' < k"
  shows "newest_first (tagged_push xs (k, m))"
  using assms
proof (induction xs)
  case (Cons x xs)
  obtain k' m' where x: "x = (k', m')" by (cases x)
  show ?case
  proof (cases "length (mVirtual m) < length (mVirtual m')")
    case True
    with Cons show ?thesis
      by (auto simp: newest_first_def x Let_def dest: in_set_takeD in_set_dropD)
  next
    case False
    with Cons.prems show ?thesis by (fastforce simp: newest_first_def x)
  qed
qed (simp add: newest_first_def)

lemma tagged_push_set: "set (tagged_push xs x) = insert x (set xs)"
  by (cases x) (metis (no_types) append_take_drop_id list.simps(15) set_append tagged_push.simps Un_insert_right)

lemma tagged_push_mounts: "map snd (tagged_push xs (k, m)) = tMounts (push (t\<lparr>tMounts := map snd xs\<rparr>) m)"
  by (simp add: push_def Let_def take_map drop_map)

definition tagged :: "'r spec list \<Rightarrow> (nat \<times> 'r mount) list" where
  "tagged specs = foldl tagged_push [] (zip [0..<length specs] (map mount_of_spec specs))"

lemma tagged_snoc: "tagged (specs @ [s]) = tagged_push (tagged specs) (length specs, mount_of_spec s)"
  by (simp add: tagged_def)

lemma tagged_facts:
  "newest_first (tagged specs) \<and> set (tagged specs) = {(k, mount_of_spec (specs ! k)) | k. k < length specs}"
proof (induction specs rule: rev_induct)
  case (snoc s specs)
  have old: "k < length specs" if "(k, m) \<in> set (tagged specs)" for k m using snoc that by auto
  have "set (tagged (specs @ [s])) = insert (length specs, mount_of_spec s) (set (tagged specs))"
    unfolding tagged_snoc by (rule tagged_push_set)
  also have "\<dots> = {(k, mount_of_spec ((specs @ [s]) ! k)) | k. k < length (specs @ [s])}"
    using snoc by (auto simp: nth_append less_Suc_eq)
  finally have "set (tagged (specs @ [s])) = {(k, mount_of_spec ((specs @ [s]) ! k)) | k. k < length (specs @ [s])}" .
  moreover have "newest_first (tagged (specs @ [s]))"
    unfolding tagged_snoc using snoc old by (intro tagged_push_order) auto
  ultimately show ?case by blast
qed (simp add: tagged_def newest_first_def)

lemma tagged_table: "tMounts (foldl (\<lambda>t s. push t (mount_of_spec s)) empty_table specs) = map snd (tagged specs)"
proof (induction specs rule: rev_induct)
  case (snoc s specs)
  let ?t = "foldl (\<lambda>t s. push t (mount_of_spec s)) empty_table specs"
  have "map snd (tagged_push (tagged specs) (length specs, mount_of_spec s))
      = tMounts (push (?t\<lparr>tMounts := map snd (tagged specs)\<rparr>) (mount_of_spec s))"
    by (rule tagged_push_mounts)
  also have "?t\<lparr>tMounts := map snd (tagged specs)\<rparr> = ?t" using snoc by simp
  finally show ?case by (simp add: tagged_snoc)
qed (simp add: tagged_def empty_table_def)

lemma NewTable_mounts: "tMounts (NewTable specs) = map snd (tagged specs)"
  unfolding tagged_table [symmetric] by (cases specs) (simp_all add: NewTable_def)

lemma findLoop_Some:
  "findLoop ms p = Some i \<longleftrightarrow>
     i < length ms \<and> pathMatchesMount p (mVirtual (ms ! i)) \<and> (\<forall>j<i. \<not> pathMatchesMount p (mVirtual (ms ! j)))"
proof (induction ms arbitrary: i)
  case (Cons m ms)
  then show ?case
    by (cases i) (auto simp: less_Suc_eq_0_disj)
qed simp

lemma findLoop_None: "findLoop ms p = None \<longleftrightarrow> (\<forall>m\<in>set ms. \<not> pathMatchesMount p (mVirtual m))"
  by (induction ms) auto

text \<open>The first match in the tagged list is the longest one, and of equal ones the newest.\<close>

lemma tagged_mem: "(k, m) \<in> set (tagged specs) \<longleftrightarrow> k < length specs \<and> m = mount_of_spec (specs ! k)"
  using tagged_facts [of specs] by auto

lemma tagged_image: "snd ` set (tagged specs) = mount_of_spec ` set specs"
  using tagged_facts [of specs] by (force simp: in_set_conv_nth [of _ specs])

lemma mount_of_spec_virtual [simp]: "mVirtual (mount_of_spec s) = rootVirtualPath (spRoot s)"
  by (simp add: mount_of_spec_def)

lemma first_match_longest:
  assumes i: "findLoop (map snd (tagged specs)) p = Some i" and km: "tagged specs ! i = (k, m)"
    and j: "j < length specs" "pathMatchesMount p (rootVirtualPath (spRoot (specs ! j)))"
  shows "length (rootVirtualPath (spRoot (specs ! j))) < length (mVirtual m)
    \<or> length (rootVirtualPath (spRoot (specs ! j))) = length (mVirtual m) \<and> j \<le> k"
proof -
  have first: "\<forall>j<i. \<not> pathMatchesMount p (mVirtual (map snd (tagged specs) ! j))"
    using i unfolding findLoop_Some by blast
  have "(j, mount_of_spec (specs ! j)) \<in> set (tagged specs)" using j by (simp add: tagged_mem)
  then obtain i' where i': "i' < length (tagged specs)" "tagged specs ! i' = (j, mount_of_spec (specs ! j))"
    by (auto simp: in_set_conv_nth)
  with first j(2) have "i \<le> i'" by (metis linorder_not_less nth_map snd_conv mount_of_spec_virtual)
  then consider "i' = i" | "i < i'" by linarith
  then show ?thesis
  proof cases
    case 1
    with i'(2) km show ?thesis by simp
  next
    case 2
    with tagged_facts [of specs] i'(1) have "case (tagged specs ! i, tagged specs ! i') of ((k, m), (k', m')) \<Rightarrow>
        length (mVirtual m') < length (mVirtual m) \<or> length (mVirtual m') = length (mVirtual m) \<and> k' < k"
      by (auto simp: newest_first_def case_prod_beta dest: sorted_wrt_nth_less)
    then show ?thesis by (auto simp: km i'(2))
  qed
qed

text \<open>
  C10. Routing. In a table built from specs, a path is found exactly when some spec's virtual path
  is a prefix of it at a component boundary. The mount found is the one of the spec with the
  longest such prefix, and of equal ones the spec given last.
\<close>

theorem findMount_longest:
  "(findMount (NewTable specs) vpath = None \<longleftrightarrow>
      (\<forall>s\<in>set specs. \<not> pathMatchesMount (NormalizeVirtualPath vpath) (rootVirtualPath (spRoot s))))
   \<and> (\<forall>i. findMount (NewTable specs) vpath = Some i \<longrightarrow>
        (\<exists>k<length specs. tMounts (NewTable specs) ! i = mount_of_spec (specs ! k)
          \<and> pathMatchesMount (NormalizeVirtualPath vpath) (rootVirtualPath (spRoot (specs ! k)))
          \<and> (\<forall>j<length specs.
               pathMatchesMount (NormalizeVirtualPath vpath) (rootVirtualPath (spRoot (specs ! j))) \<longrightarrow>
               length (rootVirtualPath (spRoot (specs ! j))) < length (rootVirtualPath (spRoot (specs ! k)))
               \<or> length (rootVirtualPath (spRoot (specs ! j))) = length (rootVirtualPath (spRoot (specs ! k)))
                 \<and> j \<le> k)))"
proof (intro conjI allI impI)
  let ?p = "NormalizeVirtualPath vpath" and ?ms = "map snd (tagged specs)"
  show "findMount (NewTable specs) vpath = None \<longleftrightarrow>
      (\<forall>s\<in>set specs. \<not> pathMatchesMount ?p (rootVirtualPath (spRoot s)))"
    by (simp add: findMount_def NewTable_mounts findLoop_None tagged_image)
  fix i
  assume "findMount (NewTable specs) vpath = Some i"
  then have found: "findLoop ?ms ?p = Some i" by (simp add: findMount_def NewTable_mounts)
  then have i: "i < length (tagged specs)" "pathMatchesMount ?p (mVirtual (?ms ! i))"
    unfolding findLoop_Some length_map by blast+
  obtain k m where km: "tagged specs ! i = (k, m)" by (cases "tagged specs ! i")
  then have k: "k < length specs" "m = mount_of_spec (specs ! k)"
    using tagged_mem nth_mem [OF i(1)] by auto
  with first_match_longest [OF found km] i km show "\<exists>k<length specs.
      tMounts (NewTable specs) ! i = mount_of_spec (specs ! k)
      \<and> pathMatchesMount ?p (rootVirtualPath (spRoot (specs ! k)))
      \<and> (\<forall>j<length specs. pathMatchesMount ?p (rootVirtualPath (spRoot (specs ! j))) \<longrightarrow>
           length (rootVirtualPath (spRoot (specs ! j))) < length (rootVirtualPath (spRoot (specs ! k)))
           \<or> length (rootVirtualPath (spRoot (specs ! j))) = length (rootVirtualPath (spRoot (specs ! k))) \<and> j \<le> k)"
    by (intro exI [of _ k]) (simp add: NewTable_mounts)
qed

section \<open>The invariant of the table\<close>

definition table_ok :: "'r table \<Rightarrow> bool" where
  "table_ok t \<longleftrightarrow> (\<forall>m\<in>set (tMounts t). mount_ok m)"

definition same_table :: "'r table \<Rightarrow> 'r table \<Rightarrow> bool" where
  "same_table t t' \<longleftrightarrow>
     list_all2 same_config (tMounts t) (tMounts t')
     \<and> tFirstPath t' = tFirstPath t \<and> tHasFirst t' = tHasFirst t"

lemma same_table_refl [simp]: "same_table t t"
  by (simp add: same_table_def list_all2_refl)

definition payload_sized :: "osCall \<Rightarrow> bool" where
  "payload_sized call \<longleftrightarrow> length (ocText call) < 2 ^ 60 \<and> length (ocData call) < 2 ^ 60"

lemma not_overlong: "rejectOverlongPath p = None \<Longrightarrow> length p \<le> 4096"
  by (auto simp: rejectOverlongPath_def isOverlong_def pathMax_def Let_def not_less split: if_splits)

lemma routed_valid:
  assumes "route t (ocPath call) call = Routed i"
  shows "i < length (tMounts t)" and "ocOp call = OpRename \<Longrightarrow> length (ocDst call) \<le> 4096"
proof -
  from assms have "findMount t (ocPath call) = Some i"
    by (auto simp: route_def Let_def split: if_splits option.splits)
  then show "i < length (tMounts t)" by (simp add: findMount_def findLoop_Some)
  show "length (ocDst call) \<le> 4096" if "ocOp call = OpRename"
    using assms that by (auto simp: route_def Let_def not_overlong split: if_splits option.splits)
qed

lemma direct_ok:
  assumes "mount_ok m"
  shows "mount_ok (fst (snd (directExecute H w m call mode)))
    \<and> same_config m (fst (snd (directExecute H w m call mode)))"
proof -
  have zero: "checkWriteLimit m n = None \<Longrightarrow> mount_ok (commitWriteBytes m n) \<and> same_config m (commitWriteBytes m n)" for n
    using commit_ok [OF assms, of m] by blast
  have wr: "mount_ok (fst (snd (directWrite H w m p d r a))) \<and> same_config m (fst (snd (directWrite H w m p d r a)))"
    for p d r a
    using assms zero by (auto simp: directWrite_def Let_def split: option.splits sum.splits prod.splits)
  have op: "mount_ok (fst (snd (directOpen H w m p md))) \<and> same_config m (fst (snd (directOpen H w m p md)))" for p md
    using assms zero by (auto simp: directOpen_def Let_def split: option.splits sum.splits prod.splits)
  have rn: "fst (snd (directRename H w m p q)) = m" for p q
    by (auto simp: directRename_def split: option.splits sum.splits prod.splits)
  have hr: "fst (snd (host_result m r)) = m" for r
    by (auto simp: host_result_def split: option.splits prod.splits)
  have rel: "fst (snd (directExecuteRel H w m call rel)) = m" for rel
    by (cases "ocOp call") (auto simp: directExecuteRel_def Let_def hr split: sum.splits)
  show ?thesis
    using assms wr op rn rel by (cases "ocOp call") (auto simp: directExecute_def Let_def split: sum.splits)
qed

text \<open>The invariant of a mount over one call, whatever its mode.\<close>

lemma mount_execute_ok:
  assumes ok: "mount_ok m" and host: "host_sized H" and sz: "payload_sized call"
    and len: "length (ocPath call) \<le> 4096" "ocOp call = OpRename \<Longrightarrow> length (ocDst call) \<le> 4096"
    and exec: "mount_execute isPrint fuel H w m call = Some (w', m', r)"
  shows "mount_ok m' \<and> same_config m m'"
proof -
  have "call_sized call" using sz len by (simp add: call_sized_def payload_sized_def)
  note ov = overlayExecute_ok [OF ok host this]
  show ?thesis
    using exec ok direct_ok [OF ok, of H w call] ov
    by (auto simp: mount_execute_def split: sum.splits if_splits) (metis fst_conv snd_conv)+
qed

text \<open>A handled call is one call of one mount; every other mount is as it was.\<close>

lemma handle_cases:
  assumes "handle isPrint fuel H w t call = Some (w', t', r)"
  obtains "w' = w" "t' = t"
  | i m' v where "rejection call = None" "route t (ocPath call) call = Routed i"
      "mount_execute isPrint fuel H w (tMounts t ! i) call = Some (w', m', v)"
      "t' = t\<lparr>tMounts := (tMounts t)[i := m']\<rparr>" "r = Some v"
proof (cases "IsFS call \<and> rejection call = None \<and> (\<exists>i. route t (ocPath call) call = Routed i)")
  case True
  then obtain i where i: "IsFS call" "rejection call = None" "route t (ocPath call) call = Routed i" by blast
  with assms obtain x where "mount_execute isPrint fuel H w (tMounts t ! i) call = Some x"
    "(\<lambda>(w', m', r). (w', t\<lparr>tMounts := (tMounts t)[i := m']\<rparr>, Some r)) x = (w', t', r)"
    by (auto simp: handle_def)
  with i that(2) show thesis by (cases x) auto
next
  case False
  with assms have "w' = w \<and> t' = t"
    by (auto simp: handle_def split: if_splits option.splits routed.splits)
  with that(1) show thesis by blast
qed

lemma rejection_None: "rejection call = None \<Longrightarrow> length (ocPath call) \<le> 4096"
  by (auto simp: rejection_def not_overlong split: option.splits)

text \<open>
  C1. Every OS call keeps the invariant of the table: each mount's overlay index and memory
  accounting are exact and within its limit, the bytes charged to each mount stay within its write
  limit, the mounts keep their order, roots, modes and limits, and at most one mount changes.
\<close>

theorem HandleOsCall_invariant:
  assumes ok: "table_ok t" and host: "host_sized H" and sz: "payload_sized call"
    and call: "HandleOsCall isPrint fuel H w t call = Some (w', t', out)"
  shows "table_ok t' \<and> same_table t t'
    \<and> (\<exists>i. \<forall>j<length (tMounts t). j \<noteq> i \<longrightarrow> tMounts t' ! j = tMounts t ! j)"
proof -
  from call obtain r where h: "handle isPrint fuel H w t call = Some (w', t', r)"
    by (auto simp: HandleOsCall_def)
  then show ?thesis
  proof (cases rule: handle_cases)
    case (2 i m' v)
    note i = routed_valid [OF 2(2)]
    have "mount_ok (tMounts t ! i)" using ok i(1) by (simp add: table_ok_def)
    from mount_execute_ok [OF this host sz rejection_None [OF 2(1)] i(2) 2(3)]
    have m': "mount_ok m'" "same_config (tMounts t ! i) m'" by blast+
    have "list_all2 same_config (tMounts t) ((tMounts t)[i := m'])"
      using m'(2) i(1) by (auto simp: list_all2_conv_all_nth nth_list_update)
    moreover have "table_ok (t\<lparr>tMounts := (tMounts t)[i := m']\<rparr>)"
      using ok m'(1) set_update_subset_insert [of "tMounts t" i m'] by (auto simp: table_ok_def)
    ultimately show ?thesis
      by (auto simp: 2(4) same_table_def intro!: exI [of _ i])
  qed (use ok in auto)
qed

text \<open>A new table satisfies the invariant when its roots are opened and its limits are real ones.\<close>

lemma NewTable_ok:
  assumes "\<forall>s\<in>set specs. isNormalizedVirtualPath (rootVirtualPath (spRoot s)) \<and> spMemoryUsageLimit s < 2 ^ 58"
  shows "table_ok (NewTable specs)"
proof -
  have "mount_ok (mount_of_spec s)" if "s \<in> set specs" for s
  proof -
    have "ovUsage newOverlayState = 0" "\<And>k. ovEntries newOverlayState k = None"
      by (simp_all add: newOverlayState_def)
    then show ?thesis
      using assms that by (simp add: mount_ok_def mount_of_spec_def ov_inv_new ov_sized_def)
  qed
  moreover have "set (tMounts (NewTable specs)) = mount_of_spec ` set specs"
    by (simp add: NewTable_mounts tagged_image)
  ultimately show ?thesis by (auto simp: table_ok_def)
qed

text \<open>
  C15. Every OS call returns. With more rounds for the walk over a renamed host directory than the
  largest memory limit of the table allows entries, the call never runs out.
\<close>

theorem HandleOsCall_returns:
  assumes ok: "table_ok t" and host: "host_sized H" and sz: "payload_sized call"
    and fuel: "\<forall>m\<in>set (tMounts t). unat (mMemLimit m) + 2 ^ 33 + 1 < fuel"
  shows "\<exists>w' t' out. HandleOsCall isPrint fuel H w t call = Some (w', t', out)"
proof -
  have "handle isPrint fuel H w t call \<noteq> None"
  proof (cases "rejection call")
    case None
    show ?thesis
    proof (cases "route t (ocPath call) call")
      case (Routed i)
      note i = routed_valid [OF Routed]
      let ?m = "tMounts t ! i"
      have m: "mount_ok ?m" "unat (mMemLimit ?m) + 2 ^ 33 + 1 < fuel"
        using ok fuel i(1) by (simp_all add: table_ok_def)
      have "call_sized call"
        using sz rejection_None [OF None] i(2) by (simp add: call_sized_def payload_sized_def)
      have "overlayExecute fuel H w ?m call mode \<noteq> None" for mode
        using overlayExecute_total [OF m(1) host \<open>call_sized call\<close> m(2), of w mode] by auto
      then have "mount_execute isPrint fuel H w ?m call \<noteq> None"
        by (simp add: mount_execute_def split: sum.split del: not_None_eq)
      with None Routed show ?thesis by (auto simp: handle_def)
    qed (use None in \<open>simp_all add: handle_def\<close>)
  qed (simp add: handle_def)
  then show ?thesis by (auto simp: HandleOsCall_def)
qed

section \<open>What a mount may do to the host\<close>

lemma direct_read_world:
  assumes "\<not> isWriteCall call mode" "ocOp call = OpOpen \<longrightarrow> mode \<noteq> []"
  shows "fst (directExecute H w m call mode) = w"
proof -
  have op: "fst (directOpen H w m p mode) = w" if "ocOp call = OpOpen" for p
    using assms that
    by (cases mode) (auto simp: directOpen_def isWriteCall_def ModeCreates_def Let_def split: option.splits sum.splits)
  have "fst (directExecuteRel H w m call rel) = w"
    if "ocOp call \<notin> {OpMkdir, OpUnlink, OpRmdir}" for rel
    using that by (cases "ocOp call") (auto simp: directExecuteRel_def Let_def split: sum.splits)
  then show ?thesis
    using assms op by (cases "ocOp call")
      (auto simp: directExecute_def Let_def isWriteCall_def IsWrite_def split: sum.splits)
qed

lemma callMode_nonempty: "callMode isPrint call = Inr mode \<Longrightarrow> ocOp call = OpOpen \<Longrightarrow> mode \<noteq> []"
  by (auto simp: callMode_def CanonicalFileMode_def split: sum.splits if_splits option.splits)

lemma mount_execute_world:
  assumes "mMode m \<noteq> ModeReadWrite" "mount_execute isPrint fuel H w m call = Some (w', m', r)"
  shows "w' = w"
proof (cases "mMode m = ModeReadOnly")
  case True
  with assms(2) direct_read_world [of call _ H w m] callMode_nonempty [of isPrint call] show ?thesis
    by (auto simp: mount_execute_def split: sum.splits if_splits) (metis fst_conv)+
next
  case False
  with assms show ?thesis
    by (cases "mMode m") (auto simp: mount_execute_def split: sum.splits if_splits)
qed

text \<open>
  C3. A table without read-write mounts never changes the host: whatever the call, with any host
  and any mounts in read-only or overlay mode, the world after the call is the world before it.
\<close>

theorem HandleOsCall_host_unchanged:
  assumes "\<forall>m\<in>set (tMounts t). mMode m \<noteq> ModeReadWrite"
    and "HandleOsCall isPrint fuel H w t call = Some (w', t', out)"
  shows "w' = w"
proof -
  from assms(2) obtain r where "handle isPrint fuel H w t call = Some (w', t', r)"
    by (auto simp: HandleOsCall_def)
  then show ?thesis
  proof (cases rule: handle_cases)
    case (2 i m' v)
    with assms(1) routed_valid(1) [OF 2(2)] show ?thesis
      by (intro mount_execute_world [OF _ 2(3)]) simp
  qed simp
qed


section \<open>The paths a direct mount hands to the host\<close>

text \<open>
  A path below the mount's directory: the directory itself, or components that are neither empty,
  a dot nor two dots, without a backslash and without a drive prefix.
\<close>

definition confined :: "string \<Rightarrow> bool" where
  "confined p \<longleftrightarrow>
     p = ''.'' \<or> (p \<noteq> [] \<and> list_all (\<lambda>s. s \<noteq> [] \<and> s \<noteq> ''.'' \<and> s \<noteq> ''..''
       \<and> CHR 0x5C \<notin> set s \<and> \<not> isWindowsDrivePrefix s) (split_on CHR ''/'' p))"

text \<open>
  A property of worlds that no change at a confined path below the given directory breaks.
\<close>

definition kept_by_confined :: "('w, 'r, 'f) hostfs \<Rightarrow> 'r \<Rightarrow> ('w \<Rightarrow> bool) \<Rightarrow> bool" where
  "kept_by_confined H dir P \<longleftrightarrow>
     (\<forall>w p. P w \<and> confined p \<longrightarrow>
        P (fst (hMkdir H w dir p)) \<and> P (fst (hRemove H w dir p))
        \<and> (\<forall>app. P (fst (hOpenWrite H w dir p app))
             \<and> (\<forall>f. snd (hOpenWrite H w dir p app) = Inr f \<longrightarrow>
                  (\<forall>data. P (fst (hWrite H (fst (hOpenWrite H w dir p app)) f data))))))
     \<and> (\<forall>w p q. P w \<and> confined p \<and> confined q \<longrightarrow> P (fst (hRename H w dir p q)))"

lemma last_index_byte_nth: "last_index_byte d s = Some i \<Longrightarrow> s ! i = d"
  by (induction s arbitrary: i) (auto split: option.splits if_splits)

lemma parent_confined:
  assumes "confined p" "p \<noteq> ''.''"
  shows "parentRel p = [] \<or> confined (parentRel p)"
proof (cases "last_index_byte CHR ''/'' p")
  case (Some i)
  then have "i < length p" "p ! i = CHR ''/''"
    by (auto dest: last_index_byte_less last_index_byte_nth)
  then have "p = take i p @ CHR ''/'' # drop (Suc i) p" by (metis id_take_nth_drop)
  then have "split_on CHR ''/'' p = split_on CHR ''/'' (take i p) @ split_on CHR ''/'' (drop (Suc i) p)"
    by (metis split_on_append)
  with assms Some show ?thesis by (auto simp: confined_def parentRel_def)
qed (simp only: parentRel_def option.case, simp)

lemma createDirAll_confined:
  "P w \<Longrightarrow> kept_by_confined H dir P \<Longrightarrow> p = [] \<or> confined p \<Longrightarrow> P (fst (createDirAll H w dir p))"
proof (induction H w dir p rule: createDirAll.induct)
  case (1 H w dir p)
  show ?case
  proof (cases "p = []")
    case False
    with "1.prems" have conf: "confined p" by simp
    have mk: "P (fst (hMkdir H w' dir p))" if "P w'" for w'
      using "1.prems"(2) conf that by (simp add: kept_by_confined_def)
    have par: "parentRel p = [] \<or> confined (parentRel p)"
      using parent_confined [OF conf] by (cases "p = ''.''") (auto simp: parentRel_def)
    obtain w1 e where w1: "hMkdir H w dir p = (w1, e)" by fastforce
    with mk [OF "1.prems"(1)] have P1: "P w1" by simp
    show ?thesis
    proof (cases "e = None \<or> isPathEscape (the e) \<or> ioKindOf (the e) \<noteq> ioNotFound")
      case True
      with False w1 P1 show ?thesis by (subst createDirAll.simps) (auto split: option.splits)
    next
      case rec: False
      then obtain err where err: "e = Some err" "\<not> isPathEscape err" "ioKindOf err = ioNotFound" by auto
      obtain w2 e2 where w2: "createDirAll H w1 dir (parentRel p) = (w2, e2)" by fastforce
      have "P (fst (createDirAll H w1 dir (parentRel p)))"
        using "1.IH" [OF False w1 [symmetric] err(1)] err P1 "1.prems"(2) par w1 by auto
      with w2 have P2: "P w2" by simp
      show ?thesis
        using False w1 err w2 P2 mk [OF P2]
        by (subst createDirAll.simps) (auto split: option.splits prod.splits)
    qed
  qed (use "1.prems" in \<open>simp add: createDirAll.simps\<close>)
qed

lemma resolve_confined:
  assumes "isNormalizedVirtualPath mv" "resolveVirtualPath vpath mv = Inr rel"
  shows "confined (dirOp rel)" and "rel \<noteq> [] \<Longrightarrow> confined rel"
proof -
  obtain segs where segs: "rel = join_on CHR ''/'' segs" "list_all name_seg segs" "CHR 0x5C \<notin> set rel"
    "\<forall>seg\<in>set segs. \<not> isWindowsDrivePrefix seg"
    using resolveVirtualPath_segs [OF assms] by blast
  show "confined rel" if "rel \<noteq> []"
  proof -
    have "segs \<noteq> []" using that segs(1) by auto
    then have "split_on CHR ''/'' rel = segs"
      using segs(1,2) by (auto simp: list_all_iff name_seg_def intro: split_join)
    moreover have "CHR 0x5C \<notin> set s" if "s \<in> set segs" for s
      using split_on_subset [of s "CHR ''/''" rel] segs(3) that calculation by auto
    ultimately show ?thesis using segs that by (auto simp: confined_def list_all_iff name_seg_def)
  qed
  then show "confined (dirOp rel)" by (auto simp: dirOp_def confined_def)
qed

lemma write_confined:
  assumes "kept_by_confined H dir P" "P w" "confined p"
  shows "P (fst (writeWithFlags H w dir p data vpath app))"
proof (cases "rejectNonRegular H w dir p vpath")
  case None
  obtain w1 opened where o: "hOpenWrite H w dir p app = (w1, opened)" by fastforce
  have P1: "P w1" "\<And>f. opened = Inr f \<Longrightarrow> P (fst (hWrite H w1 f data))"
    using assms o unfolding kept_by_confined_def by (metis fst_conv snd_conv)+
  show ?thesis
  proof (cases "checkRegular H w1 vpath opened")
    case (Inr f)
    then have "opened = Inr f" by (auto simp: checkRegular_def split: sum.splits if_splits)
    with P1 None o Inr show ?thesis
      by (auto simp: writeWithFlags_def split: prod.splits option.splits)
  qed (simp add: writeWithFlags_def None o P1)
qed (simp add: writeWithFlags_def assms)

lemma mkdir_confined:
  assumes "kept_by_confined H dir P" "P w" "confined p"
  shows "P (fst (hostMkdir H w dir p parents existOK vpath))"
proof -
  have "P (fst (createDirAll H w dir p))" "P (fst (hMkdir H w dir p))"
    using createDirAll_confined [OF assms(2,1)] assms by (simp_all add: kept_by_confined_def)
  with assms(2) show ?thesis
    by (auto simp: hostMkdir_def Let_def split: sum.splits option.splits prod.splits)
qed

text \<open>What a write, an open and a rename do to the world: nothing, or one call of the host.\<close>

lemma directWrite_world:
  "fst (directWrite H w m p d r a) = w
   \<or> (\<exists>rel. resolveVirtualPath p (mVirtual m) = Inr rel
        \<and> fst (directWrite H w m p d r a) = fst (writeWithFlags H w (mDir m) (dirOp rel) d p a))"
  by (auto simp: directWrite_def writeBytesToFile_def appendBytesToFile_def Let_def
      split: option.splits sum.splits prod.splits)

lemma directOpen_world:
  "fst (directOpen H w m p mode) = w
   \<or> (\<exists>rel a. resolveVirtualPath p (mVirtual m) = Inr rel
        \<and> fst (directOpen H w m p mode) = fst (writeWithFlags H w (mDir m) (dirOp rel) [] p a))"
proof (cases "resolveVirtualPath p (mVirtual m)")
  case (Inr rel)
  have "fst (directOpen H w m p mode) \<in>
      {w, fst (writeWithFlags H w (mDir m) (dirOp rel) [] p True),
       fst (writeWithFlags H w (mDir m) (dirOp rel) [] p False)}"
    by (auto simp: directOpen_def Inr writeBytesToFile_def appendBytesToFile_def Let_def
        split: option.splits sum.splits prod.splits)
  with Inr show ?thesis by auto
qed (simp add: directOpen_def)

lemma directRename_world:
  "fst (directRename H w m p q) = w
   \<or> (\<exists>a b. resolveVirtualPath p (mVirtual m) = Inr a \<and> resolveVirtualPath q (mVirtual m) = Inr b
        \<and> a \<noteq> [] \<and> b \<noteq> [] \<and> fst (directRename H w m p q) = fst (hRename H w (mDir m) a b))"
  by (auto simp: directRename_def split: option.splits sum.splits prod.splits)

text \<open>
  C2. Confinement of direct mounts. A property of the host's state that survives every change made
  below the mount's directory at a confined path survives every call on the mount, whatever path
  the sandboxed program names. So a call creates, writes, removes and renames only inside the
  directory and only by plain component names.
\<close>

theorem directExecute_confined:
  assumes mv: "isNormalizedVirtualPath (mVirtual m)" and keep: "kept_by_confined H (mDir m) P" and "P w"
  shows "P (fst (directExecute H w m call mode))"
proof -
  note conf = resolve_confined [OF mv]
  have wr: "P (fst (directWrite H w m p d r a))" for p d r a
    using directWrite_world [of H w m p d r a] \<open>P w\<close> write_confined [OF keep \<open>P w\<close> conf(1)] by auto
  have op: "P (fst (directOpen H w m p mode))" for p
    using directOpen_world [of H w m p mode] \<open>P w\<close> write_confined [OF keep \<open>P w\<close> conf(1)] by auto
  have rn: "P (fst (directRename H w m p q))" for p q
  proof -
    have "P (fst (hRename H w (mDir m) a b))" if "confined a" "confined b" for a b
      using keep \<open>P w\<close> that by (simp add: kept_by_confined_def)
    with directRename_world [of H w m p q] \<open>P w\<close> conf(2) show ?thesis by auto
  qed
  have rm: "P (fst (hRemove H w (mDir m) p))" if "confined p" for p
    using keep \<open>P w\<close> that by (simp add: kept_by_confined_def)
  have un: "P (fst (hostUnlink H w (mDir m) p v))" "P (fst (hostRmdir H w (mDir m) p v))" if "confined p" for p v
    using rm [OF that] \<open>P w\<close>
    by (auto simp: hostUnlink_def hostRmdir_def split: sum.splits option.splits prod.splits)
  have hr: "fst (host_result m r) = fst r" for r
    by (auto simp: host_result_def split: option.splits prod.splits)
  have rel: "P (fst (directExecuteRel H w m call rel))"
    if "resolveVirtualPath (ocPath call) (mVirtual m) = Inr rel" for rel
    using \<open>P w\<close> un mkdir_confined [OF keep \<open>P w\<close>] conf [OF that]
    by (cases "ocOp call") (auto simp: directExecuteRel_def Let_def hr split: sum.splits)
  show ?thesis
    using \<open>P w\<close> wr op rn rel by (cases "ocOp call") (auto simp: directExecute_def Let_def split: sum.splits)
qed

section \<open>Witnesses\<close>

definition sample_root :: "string \<Rightarrow> unit root" where
  "sample_root v = \<lparr>rootVirtualPath = v, rootHostPath = ''/srv'', rootDir = (), rootClosed = False\<rparr>"

definition sample_specs :: "unit spec list" where
  "sample_specs =
     [\<lparr>spRoot = sample_root ''/data'', spMode = ModeOverlay, spWriteBytesLimit = Some 10, spMemoryUsageLimit = 100000\<rparr>,
      \<lparr>spRoot = sample_root ''/data/ro'', spMode = ModeReadOnly, spWriteBytesLimit = None, spMemoryUsageLimit = 100000\<rparr>]"

lemma sample_table_ok: "table_ok (NewTable sample_specs)"
proof (rule NewTable_ok)
  have "list_all (\<lambda>s. isNormalizedVirtualPath (rootVirtualPath (spRoot s)) \<and> spMemoryUsageLimit s < 2 ^ 58) sample_specs"
    by code_simp
  then show "\<forall>s\<in>set sample_specs. isNormalizedVirtualPath (rootVirtualPath (spRoot s)) \<and> spMemoryUsageLimit s < 2 ^ 58"
    by (simp add: list_all_iff)
qed

lemma sample_payload: "payload_sized (sample_call op path dst)"
  by (simp add: payload_sized_def sample_call_def)

definition handled :: "('w \<times> 'r table \<times> outcome) option \<Rightarrow> bool" where
  "handled r = (case r of Some (_, _, out) \<Rightarrow> outHandled out \<and> outException out = None | None \<Rightarrow> False)"

lemma handledE:
  assumes "handled r"
  obtains w' t' out where "r = Some (w', t', out)" "outHandled out" "outException out = None"
  using assms by (cases r) (auto simp: handled_def)

theorem findMount_longest_witness:
  "\<exists>i. findMount (NewTable sample_specs) ''/data/ro/x'' = Some i
     \<and> (\<exists>k<2. tMounts (NewTable sample_specs) ! i = mount_of_spec (sample_specs ! k))"
proof -
  have "findMount (NewTable sample_specs) ''/data/ro/x'' = Some 0" by code_simp
  moreover have "length sample_specs = 2" by (simp add: sample_specs_def)
  ultimately show ?thesis
    using findMount_longest [of sample_specs "''/data/ro/x''"] by auto
qed

theorem HandleOsCall_invariant_witness:
  "\<exists>w' t' out. HandleOsCall (\<lambda>_. True) 1 one_file_host () (NewTable sample_specs)
       (sample_call OpWriteBytes ''/data/g'' []) = Some (w', t', out)
     \<and> outHandled out \<and> outException out = None \<and> table_ok t' \<and> same_table (NewTable sample_specs) t'"
proof -
  let ?r = "HandleOsCall (\<lambda>_. True) 1 one_file_host () (NewTable sample_specs) (sample_call OpWriteBytes ''/data/g'' [])"
  have "handled ?r" by code_simp
  then obtain w' t' out where r: "?r = Some (w', t', out)" "outHandled out" "outException out = None"
    by (rule handledE)
  from HandleOsCall_invariant [OF sample_table_ok one_file_host_sized sample_payload r(1)] r show ?thesis by blast
qed

theorem HandleOsCall_returns_witness:
  "\<exists>w' t' out. HandleOsCall (\<lambda>_. True) (2 ^ 34) one_file_host () (NewTable sample_specs)
     (sample_call OpRename ''/data/f'' ''/data/g'') = Some (w', t', out)"
proof (rule HandleOsCall_returns [OF sample_table_ok one_file_host_sized sample_payload])
  have "list_all (\<lambda>m. mMemLimit m = 100000) (tMounts (NewTable sample_specs))" by code_simp
  then show "\<forall>m\<in>set (tMounts (NewTable sample_specs)). unat (mMemLimit m) + 2 ^ 33 + 1 < 2 ^ 34"
    by (simp add: list_all_iff)
qed

theorem HandleOsCall_host_unchanged_witness:
  "\<exists>t' out. HandleOsCall (\<lambda>_. True) 1 one_file_host () (NewTable sample_specs)
     (sample_call OpUnlink ''/data/f'' []) = Some ((), t', out) \<and> outException out = None"
proof -
  let ?r = "HandleOsCall (\<lambda>_. True) 1 one_file_host () (NewTable sample_specs) (sample_call OpUnlink ''/data/f'' [])"
  have "handled ?r" by code_simp
  then obtain w' t' out where r: "?r = Some (w', t', out)" "outException out = None"
    by (rule handledE)
  have "list_all (\<lambda>m. mMode m \<noteq> ModeReadWrite) (tMounts (NewTable sample_specs))" by code_simp
  then have "\<forall>m\<in>set (tMounts (NewTable sample_specs)). mMode m \<noteq> ModeReadWrite" by (simp add: list_all_iff)
  from HandleOsCall_host_unchanged [OF this r(1)] r show ?thesis by blast
qed


text \<open>A host that logs the paths of its changes, for the confinement of direct mounts.\<close>

definition logging_host :: "(string list, unit, unit) hostfs" where
  "logging_host =
     \<lparr>hStat = \<lambda>_ _ _. Inl (OsErrno ENOENT), hLstat = \<lambda>_ _ _. Inl (OsErrno ENOENT),
      hOpenRoot = \<lambda>_ _ _. Inl (OsErrno ENOENT), hOpenRead = \<lambda>_ _ _. Inl (OsErrno ENOENT),
      hOpenDir = \<lambda>_ _ _. Inl (OsErrno ENOENT),
      hOpenWrite = \<lambda>log _ p _. (log @ [p], Inr ()),
      hFStat = \<lambda>_ _. Inr \<lparr>fiType = FtRegular, fiSize = 0, fiModTime = (- 1, 0)\<rparr>,
      hRead = \<lambda>_ _. ([], None), hReadDir = \<lambda>_ _. ([], None), hWrite = \<lambda>log _ _. (log, None),
      hMkdir = \<lambda>log _ p. (log @ [p], None), hRemove = \<lambda>log _ p. (log @ [p], None),
      hRename = \<lambda>log _ p q. (log @ [p, q], None), hNow = \<lambda>_. (- 1, 0), hAlloc = \<lambda>_. 1\<rparr>"

theorem directExecute_confined_witness:
  "fst (directExecute logging_host [] (sample_mount\<lparr>mMode := ModeReadWrite\<rparr>)
     (sample_call OpRename ''/data/../data/a//b'' ''/data/c'') []) = [''a/b'', ''c'']
   \<and> list_all confined [''a/b'', ''c'']"
proof -
  let ?m = "sample_mount\<lparr>mMode := ModeReadWrite\<rparr>"
  let ?w = "fst (directExecute logging_host [] ?m (sample_call OpRename ''/data/../data/a//b'' ''/data/c'') [])"
  have log: "?w = [''a/b'', ''c'']" by code_simp
  have "isNormalizedVirtualPath (mVirtual ?m)" by code_simp
  moreover have "kept_by_confined logging_host (mDir ?m) (list_all confined)"
    by (simp add: kept_by_confined_def logging_host_def)
  ultimately have "list_all confined ?w" by (rule directExecute_confined) simp
  with log show ?thesis by simp
qed

end
