(* ===== verification/Protowire.thy ===== *)
theory Protowire
  imports OsCall
begin

text \<open>
  Reading and writing protobuf fields: \<^verbatim>\<open>internal/wire/proto.go\<close> and the length framing of
  \<^verbatim>\<open>internal/wire/frame.go\<close>.

  The package \<^verbatim>\<open>protowire\<close> is not part of the repository. It is the record \<open>protowire\<close> of the
  functions that the sources call, a parameter of every definition here; the locale
  \<open>protowire_format\<close> states the documented laws that the sources rely on. The last section
  interprets the locale on an implementation of the wire format without groups.
\<close>

section \<open>The parameter\<close>

record protowire =
  ConsumeTag :: "bytes \<Rightarrow> int \<times> int \<times> int"
  ConsumeVarint :: "bytes \<Rightarrow> u64 \<times> int"
  ConsumeFixed64 :: "bytes \<Rightarrow> u64 \<times> int"
  ConsumeBytes :: "bytes \<Rightarrow> bytes \<times> int"
  ConsumeFieldValue :: "int \<Rightarrow> int \<Rightarrow> bytes \<Rightarrow> int"
  AppendTag :: "bytes \<Rightarrow> int \<Rightarrow> int \<Rightarrow> bytes"
  AppendVarint :: "bytes \<Rightarrow> u64 \<Rightarrow> bytes"
  AppendFixed64 :: "bytes \<Rightarrow> u64 \<Rightarrow> bytes"
  AppendBytes :: "bytes \<Rightarrow> bytes \<Rightarrow> bytes"
  AppendString :: "bytes \<Rightarrow> string \<Rightarrow> bytes"
  EncodeZigZag :: "int \<Rightarrow> u64"
  DecodeZigZag :: "u64 \<Rightarrow> int"
  EncodeBool :: "bool \<Rightarrow> u64"

text \<open>The wire types of the encoding.\<close>

abbreviation (input) VarintType :: int where "VarintType \<equiv> 0"
abbreviation (input) Fixed64Type :: int where "Fixed64Type \<equiv> 1"
abbreviation (input) BytesType :: int where "BytesType \<equiv> 2"

section \<open>Errors\<close>

text \<open>
  One constructor for each error value or format of the codec. \<open>NoProgress\<close> is not an error of
  the sources: it is what a field loop of the model returns when it would not advance. \<open>NilPointer\<close>
  is the panic of a nil dereference.
\<close>

datatype wire_error =
    ParseError int
  | WireType int int int
  | WireMsg string
  | ErrDecodeBudget
  | ErrTruncated
  | ErrEOF
  | ErrUnexpectedEOF
  | ErrRead string
  | FrameTooLarge nat nat
  | InvalidUUID string
  | InvalidHandleMode string
  | ConversionError string
  | ConversionUUID string
  | NilPointer
  | NoProgress

section \<open>The reader\<close>

record reader =
  rb :: bytes
  rerr :: "wire_error option"

abbreviation new_reader :: "bytes \<Rightarrow> reader" where
  "new_reader msg \<equiv> \<lparr>rb = msg, rerr = None\<rparr>"

definition rd_advance :: "reader \<Rightarrow> int \<Rightarrow> reader" where
  "rd_advance r n = r\<lparr>rb := drop (nat n) (rb r)\<rparr>"

definition rd_next :: "protowire \<Rightarrow> reader \<Rightarrow> (int \<times> int) option \<times> reader" where
  "rd_next pw r =
     (if rerr r \<noteq> None \<or> rb r = [] then (None, r)
      else case ConsumeTag pw (rb r) of (num, typ, n) \<Rightarrow>
        if n < 0 then (None, r\<lparr>rerr := Some (ParseError n)\<rparr>)
        else (Some (num, typ), rd_advance r n))"

definition rd_fail :: "reader \<Rightarrow> wire_error \<Rightarrow> reader" where
  "rd_fail r e = (if rerr r = None then r\<lparr>rerr := Some e\<rparr> else r)"

definition wantType :: "int \<Rightarrow> int \<Rightarrow> int \<Rightarrow> reader \<Rightarrow> bool \<times> reader" where
  "wantType num got want r =
     (if got \<noteq> want then (False, rd_fail r (WireType num got want)) else (True, r))"

definition rd_bytes :: "protowire \<Rightarrow> int \<Rightarrow> int \<Rightarrow> reader \<Rightarrow> bytes \<times> reader" where
  "rd_bytes pw num typ r =
     (case wantType num typ BytesType r of
        (False, r) \<Rightarrow> ([], r)
      | (True, r) \<Rightarrow>
          (case ConsumeBytes pw (rb r) of (v, n) \<Rightarrow>
             if n < 0 then ([], r\<lparr>rerr := Some (ParseError n)\<rparr>) else (v, rd_advance r n)))"

definition rd_str :: "protowire \<Rightarrow> int \<Rightarrow> int \<Rightarrow> reader \<Rightarrow> string \<times> reader" where
  "rd_str pw num typ r = (case rd_bytes pw num typ r of (v, r) \<Rightarrow> (string_of_bytes v, r))"

definition rd_varint :: "protowire \<Rightarrow> int \<Rightarrow> int \<Rightarrow> reader \<Rightarrow> u64 \<times> reader" where
  "rd_varint pw num typ r =
     (case wantType num typ VarintType r of
        (False, r) \<Rightarrow> (0, r)
      | (True, r) \<Rightarrow>
          (case ConsumeVarint pw (rb r) of (v, n) \<Rightarrow>
             if n < 0 then (0, r\<lparr>rerr := Some (ParseError n)\<rparr>) else (v, rd_advance r n)))"

definition rd_fixed64 :: "protowire \<Rightarrow> int \<Rightarrow> int \<Rightarrow> reader \<Rightarrow> u64 \<times> reader" where
  "rd_fixed64 pw num typ r =
     (case wantType num typ Fixed64Type r of
        (False, r) \<Rightarrow> (0, r)
      | (True, r) \<Rightarrow>
          (case ConsumeFixed64 pw (rb r) of (v, n) \<Rightarrow>
             if n < 0 then (0, r\<lparr>rerr := Some (ParseError n)\<rparr>) else (v, rd_advance r n)))"

definition rd_skip :: "protowire \<Rightarrow> int \<Rightarrow> int \<Rightarrow> reader \<Rightarrow> reader" where
  "rd_skip pw num typ r =
     (let n = ConsumeFieldValue pw num typ (rb r)
      in if n < 0 then r\<lparr>rerr := Some (ParseError n)\<rparr> else rd_advance r n)"

text \<open>
  The packed loop of \<^verbatim>\<open>uint32s\<close>. It stops with \<open>NoProgress\<close> where a parsed varint would
  take no bytes.
\<close>

function packedLoop :: "protowire \<Rightarrow> bytes \<Rightarrow> 32 word list \<Rightarrow> 32 word list \<times> wire_error option" where
  "packedLoop pw packed dst =
     (if packed = [] then (dst, None)
      else case ConsumeVarint pw packed of (v, n) \<Rightarrow>
        if n < 0 then (dst, Some (ParseError n))
        else if length (drop (nat n) packed) < length packed then
          packedLoop pw (drop (nat n) packed) (dst @ [ucast v])
        else (dst, Some NoProgress))"
  by pat_completeness auto
termination by (relation "measure (\<lambda>(pw, packed, dst). length packed)") auto

declare packedLoop.simps [simp del]

definition uint32s ::
    "protowire \<Rightarrow> int \<Rightarrow> int \<Rightarrow> 32 word list \<Rightarrow> reader \<Rightarrow> 32 word list \<times> reader" where
  "uint32s pw num typ dst r =
     (if typ = VarintType then
        (case rd_varint pw num typ r of (v, r) \<Rightarrow> (dst @ [ucast v], r))
      else case rd_bytes pw num typ r of (packed, r) \<Rightarrow>
        (case packedLoop pw packed dst of
           (dst, None) \<Rightarrow> (dst, r)
         | (dst, Some e) \<Rightarrow> (dst, r\<lparr>rerr := Some e\<rparr>)))"

text \<open>
  The loop \<^verbatim>\<open>for { num, typ, ok := r.next(); if !ok { break }; ... }\<close> that every message decoder
  has. The body gives the new value of the local variables, or the error that the decoder returns at
  once. The loop goes on only when the buffer got shorter, which makes it total for every
  \<open>protowire\<close>; under the laws below that is always the case.
\<close>

type_synonym 's field_body = "int \<Rightarrow> int \<Rightarrow> reader \<Rightarrow> 's \<Rightarrow> (wire_error + 's) \<times> reader"

function readLoop ::
    "protowire \<Rightarrow> 's field_body \<Rightarrow> reader \<Rightarrow> 's \<Rightarrow> (wire_error + 's) \<times> reader" where
  "readLoop pw body r s =
     (case rd_next pw r of
        (None, r1) \<Rightarrow> (Inr s, r1)
      | (Some (num, typ), r1) \<Rightarrow>
          (case body num typ r1 s of
             (Inl e, r2) \<Rightarrow> (Inl e, r2)
           | (Inr s2, r2) \<Rightarrow>
               if length (rb r2) < length (rb r) then readLoop pw body r2 s2
               else (Inl NoProgress, r2)))"
  by pat_completeness auto
termination by (relation "measure (\<lambda>(pw, body, r, s). length (rb r))") auto

declare readLoop.simps [simp del]

text \<open>A loop over a whole message, followed by the test of \<^verbatim>\<open>r.err\<close>.\<close>

definition readFields ::
    "protowire \<Rightarrow> 's field_body \<Rightarrow> bytes \<Rightarrow> 's \<Rightarrow> wire_error + 's" where
  "readFields pw body msg s =
     (case readLoop pw body (new_reader msg) s of
        (Inl e, r) \<Rightarrow> Inl e
      | (Inr s2, r) \<Rightarrow> (case rerr r of Some e \<Rightarrow> Inl e | None \<Rightarrow> Inr s2))"

section \<open>The append functions\<close>

definition appendVarintField :: "protowire \<Rightarrow> bytes \<Rightarrow> int \<Rightarrow> u64 \<Rightarrow> bytes" where
  "appendVarintField pw b num v = AppendVarint pw (AppendTag pw b num VarintType) v"

definition appendBoolField :: "protowire \<Rightarrow> bytes \<Rightarrow> int \<Rightarrow> bool \<Rightarrow> bytes" where
  "appendBoolField pw b num v = (if \<not> v then b else appendVarintField pw b num 1)"

definition appendUintField :: "protowire \<Rightarrow> bytes \<Rightarrow> int \<Rightarrow> u64 \<Rightarrow> bytes" where
  "appendUintField pw b num v = (if v = 0 then b else appendVarintField pw b num v)"

text \<open>\<^verbatim>\<open>uint64(int64(v))\<close> of an \<^verbatim>\<open>int32\<close> extends the sign.\<close>

definition appendInt32Field :: "protowire \<Rightarrow> bytes \<Rightarrow> int \<Rightarrow> 32 word \<Rightarrow> bytes" where
  "appendInt32Field pw b num v = (if v = 0 then b else appendVarintField pw b num (scast v))"

definition appendStringAlways :: "protowire \<Rightarrow> bytes \<Rightarrow> int \<Rightarrow> string \<Rightarrow> bytes" where
  "appendStringAlways pw b num s = AppendString pw (AppendTag pw b num BytesType) s"

definition appendStringField :: "protowire \<Rightarrow> bytes \<Rightarrow> int \<Rightarrow> string \<Rightarrow> bytes" where
  "appendStringField pw b num s =
     (if s = [] then b else AppendString pw (AppendTag pw b num BytesType) s)"

definition appendBytesAlways :: "protowire \<Rightarrow> bytes \<Rightarrow> int \<Rightarrow> bytes \<Rightarrow> bytes" where
  "appendBytesAlways pw b num v = AppendBytes pw (AppendTag pw b num BytesType) v"

definition appendMessage :: "protowire \<Rightarrow> bytes \<Rightarrow> int \<Rightarrow> bytes \<Rightarrow> bytes" where
  "appendMessage pw b num msg = AppendBytes pw (AppendTag pw b num BytesType) msg"

section \<open>UUIDs\<close>

text \<open>\<^verbatim>\<open>hex.EncodeToString\<close> and \<^verbatim>\<open>hex.DecodeString\<close>, which reads both cases.\<close>

definition hex_char :: "nat \<Rightarrow> char" where
  "hex_char n = (if n < 10 then char_of (48 + n) else char_of (87 + n))"

definition hex_of_bytes :: "bytes \<Rightarrow> string" where
  "hex_of_bytes b = concat (map (\<lambda>w. [hex_char (unat w div 16), hex_char (unat w mod 16)]) b)"

definition hex_digit :: "char \<Rightarrow> nat option" where
  "hex_digit c =
     (let n = of_char c
      in if 48 \<le> n \<and> n \<le> 57 then Some (n - 48)
         else if 97 \<le> n \<and> n \<le> 102 then Some (n - 87)
         else if 65 \<le> n \<and> n \<le> 70 then Some (n - 55)
         else None)"

fun bytes_of_hex :: "string \<Rightarrow> bytes option" where
  "bytes_of_hex [] = Some []"
| "bytes_of_hex [c] = None"
| "bytes_of_hex (c # d # s) =
     (case (hex_digit c, hex_digit d, bytes_of_hex s) of
        (Some h, Some l, Some b) \<Rightarrow> Some (of_nat (16 * h + l) # b)
      | _ \<Rightarrow> None)"

definition ParseUUID :: "string \<Rightarrow> wire_error + bytes" where
  "ParseUUID s =
     (if length s \<noteq> 36 \<or> s ! 8 \<noteq> CHR ''-'' \<or> s ! 13 \<noteq> CHR ''-'' \<or> s ! 18 \<noteq> CHR ''-''
        \<or> s ! 23 \<noteq> CHR ''-'' then Inl (InvalidUUID s)
      else case bytes_of_hex (filter (\<lambda>c. c \<noteq> CHR ''-'') s) of
             None \<Rightarrow> Inl (InvalidUUID s)
           | Some raw \<Rightarrow> if length raw \<noteq> 16 then Inl (InvalidUUID s) else Inr raw)"

definition FormatUUID :: "bytes \<Rightarrow> wire_error + string" where
  "FormatUUID b =
     (if length b \<noteq> 16 then Inl (WireMsg ''uuid must be exactly 16 bytes'')
      else let h = hex_of_bytes b
           in Inr (take 8 h @ ''-'' @ take 4 (drop 8 h) @ ''-'' @ take 4 (drop 12 h) @ ''-''
                @ take 4 (drop 16 h) @ ''-'' @ drop 20 h))"

definition decodeUUIDMessage :: "protowire \<Rightarrow> bytes \<Rightarrow> wire_error + string" where
  "decodeUUIDMessage pw msg =
     (case readFields pw
         (\<lambda>num typ r data.
            if num = 1 then (case rd_bytes pw num typ r of (d, r) \<Rightarrow> (Inr d, r))
            else (Inr data, rd_skip pw num typ r)) msg [] of
        Inl e \<Rightarrow> Inl e
      | Inr data \<Rightarrow> FormatUUID data)"

definition appendUUIDMessage :: "protowire \<Rightarrow> bytes \<Rightarrow> int \<Rightarrow> string \<Rightarrow> wire_error + bytes" where
  "appendUUIDMessage pw b num uid =
     (case ParseUUID uid of
        Inl e \<Rightarrow> Inl e
      | Inr raw \<Rightarrow> Inr (appendMessage pw b num (appendBytesAlways pw [] 1 raw)))"

section \<open>Frames\<close>

definition MaxFrameLen :: nat where
  "MaxFrameLen = 256 * 2 ^ 20"

definition DefaultMaxDecodeBytes :: nat where
  "DefaultMaxDecodeBytes = 4 * MaxFrameLen"

text \<open>
  The stream under a \<^verbatim>\<open>FrameReader\<close>: the bytes that are still to come and how it ends, with
  \<^verbatim>\<open>io.EOF\<close> (\<open>None\<close>) or with another error. \<^verbatim>\<open>io.ReadFull\<close> returns the bytes it got
  and \<^verbatim>\<open>io.EOF\<close> only when it got none, \<^verbatim>\<open>io.ErrUnexpectedEOF\<close> otherwise.
\<close>

record istream =
  isData :: bytes
  isEnd :: "string option"

definition ReadFull :: "nat \<Rightarrow> istream \<Rightarrow> (nat \<times> wire_error + bytes) \<times> istream" where
  "ReadFull n st =
     (if n \<le> length (isData st) then
        (Inr (take n (isData st)), st\<lparr>isData := drop n (isData st)\<rparr>)
      else
        (Inl (length (isData st),
           case isEnd st of
             Some e \<Rightarrow> ErrRead e
           | None \<Rightarrow> if isData st = [] then ErrEOF else ErrUnexpectedEOF),
         st\<lparr>isData := []\<rparr>))"

fun le_nat :: "bytes \<Rightarrow> nat" where
  "le_nat [] = 0"
| "le_nat (b # bs) = unat b + 256 * le_nat bs"

fun le_bytes :: "nat \<Rightarrow> nat \<Rightarrow> bytes" where
  "le_bytes 0 n = []"
| "le_bytes (Suc k) n = of_nat (n mod 256) # le_bytes k (n div 256)"

definition FrameReader_Next :: "istream \<Rightarrow> (wire_error + bytes) \<times> istream" where
  "FrameReader_Next st =
     (case ReadFull 4 st of
        (Inl (n, e), st) \<Rightarrow>
          (Inl (if n = 0 \<and> e = ErrEOF then ErrEOF
                else if e = ErrUnexpectedEOF \<or> e = ErrEOF then ErrTruncated else e), st)
      | (Inr hdr, st) \<Rightarrow>
          (let sz = le_nat hdr
           in if MaxFrameLen < sz then (Inl (FrameTooLarge sz MaxFrameLen), st)
              else case ReadFull sz st of
                     (Inl (n, e), st) \<Rightarrow>
                       (Inl (if e = ErrUnexpectedEOF \<or> e = ErrEOF then ErrTruncated else e), st)
                   | (Inr buf, st) \<Rightarrow> (Inr buf, st)))"

definition AppendFrameHeader :: "bytes \<Rightarrow> wire_error + bytes" where
  "AppendFrameHeader payload =
     (if MaxFrameLen < length payload then Inl (FrameTooLarge (length payload) MaxFrameLen)
      else Inr (le_bytes 4 (length payload) @ payload))"

section \<open>The laws of the parameter\<close>

text \<open>
  What the documentation of \<^verbatim>\<open>protowire\<close> promises: appending extends the buffer, consuming what
  was appended gives it back with its length, and a consumer never takes more than there is.
\<close>

locale protowire_format =
  fixes pw :: protowire
  assumes tag_append: "AppendTag pw b num ty = b @ AppendTag pw [] num ty"
    and varint_append: "AppendVarint pw b v = b @ AppendVarint pw [] v"
    and fixed64_append: "AppendFixed64 pw b v = b @ AppendFixed64 pw [] v"
    and bytes_append: "AppendBytes pw b m = b @ AppendBytes pw [] m"
    and string_append: "AppendString pw b s = AppendBytes pw b (bytes_of_string s)"
    and tag_consume:
      "1 \<le> num \<Longrightarrow> num < 2 ^ 29 \<Longrightarrow> ty \<in> {VarintType, Fixed64Type, BytesType} \<Longrightarrow>
       ConsumeTag pw (AppendTag pw [] num ty @ rest)
         = (num, ty, int (length (AppendTag pw [] num ty)))"
    and varint_consume:
      "ConsumeVarint pw (AppendVarint pw [] v @ rest) = (v, int (length (AppendVarint pw [] v)))"
    and fixed64_consume:
      "ConsumeFixed64 pw (AppendFixed64 pw [] v @ rest) = (v, int (length (AppendFixed64 pw [] v)))"
    and bytes_consume:
      "length m < 2 ^ 63 \<Longrightarrow>
       ConsumeBytes pw (AppendBytes pw [] m @ rest) = (m, int (length (AppendBytes pw [] m)))"
    and bytes_length: "length m \<le> length (AppendBytes pw [] m)"
    and tag_bound: "ConsumeTag pw b = (num, ty, n) \<Longrightarrow> n \<noteq> 0 \<and> n \<le> int (length b)"
    and varint_bound: "ConsumeVarint pw b = (v, n) \<Longrightarrow> n \<noteq> 0 \<and> n \<le> int (length b)"
    and bytes_bound: "ConsumeBytes pw b = (m, n) \<Longrightarrow> length m \<le> length b"
    and zigzag: "- (2 ^ 63) \<le> x \<Longrightarrow> x < 2 ^ 63 \<Longrightarrow> DecodeZigZag pw (EncodeZigZag pw x) = x"
    and zigzag_range: "- (2 ^ 63) \<le> DecodeZigZag pw v \<and> DecodeZigZag pw v < 2 ^ 63"
    and bool_code: "EncodeBool pw q = (if q then 1 else 0)"
begin

text \<open>One field of each kind, read from the front of a buffer.\<close>

lemma tag_pos: "1 \<le> num \<Longrightarrow> num < 2 ^ 29 \<Longrightarrow> ty \<in> {VarintType, Fixed64Type, BytesType} \<Longrightarrow>
    0 < length (AppendTag pw [] num ty)"
  using tag_consume [of num ty "[]"] tag_bound [of "AppendTag pw [] num ty" num ty] by fastforce

lemma next_end [simp]: "rd_next pw \<lparr>rb = [], rerr = e\<rparr> = (None, \<lparr>rb = [], rerr = e\<rparr>)"
  by (simp add: rd_next_def)

lemma next_tag:
  "1 \<le> num \<Longrightarrow> num < 2 ^ 29 \<Longrightarrow> ty \<in> {VarintType, Fixed64Type, BytesType} \<Longrightarrow>
   rd_next pw (new_reader (AppendTag pw [] num ty @ rest)) = (Some (num, ty), new_reader rest)"
  using tag_pos [of num ty] by (simp add: rd_next_def tag_consume rd_advance_def)

lemma read_bytes: "length m < 2 ^ 63 \<Longrightarrow>
    rd_bytes pw num BytesType (new_reader (AppendBytes pw [] m @ rest)) = (m, new_reader rest)"
  by (simp add: rd_bytes_def wantType_def bytes_consume rd_advance_def)

lemma read_str: "length s < 2 ^ 63 \<Longrightarrow>
    rd_str pw num BytesType (new_reader (AppendBytes pw [] (bytes_of_string s) @ rest))
      = (s, new_reader rest)"
  by (simp add: rd_str_def read_bytes)

lemma read_varint:
  "rd_varint pw num VarintType (new_reader (AppendVarint pw [] v @ rest)) = (v, new_reader rest)"
  by (simp add: rd_varint_def wantType_def varint_consume rd_advance_def)

lemma read_fixed64:
  "rd_fixed64 pw num Fixed64Type (new_reader (AppendFixed64 pw [] v @ rest)) = (v, new_reader rest)"
  by (simp add: rd_fixed64_def wantType_def fixed64_consume rd_advance_def)

lemmas read_field = read_bytes read_str read_varint read_fixed64

text \<open>The append functions as appends.\<close>

lemma appendMessage_app: "appendMessage pw b num m = b @ appendMessage pw [] num m"
  unfolding appendMessage_def by (subst (1 2) bytes_append) (subst tag_append, simp)

lemma appendBytesAlways_eq: "appendBytesAlways pw b num m = appendMessage pw b num m"
  by (simp add: appendBytesAlways_def appendMessage_def)

lemma appendStringAlways_eq:
  "appendStringAlways pw b num s = appendMessage pw b num (bytes_of_string s)"
  by (simp add: appendStringAlways_def appendMessage_def string_append)

lemma appendStringField_eq:
  "appendStringField pw b num s
     = (if s = [] then b else appendMessage pw b num (bytes_of_string s))"
  by (simp add: appendStringField_def appendMessage_def string_append)

lemma appendVarintField_app: "appendVarintField pw b num v = b @ appendVarintField pw [] num v"
  unfolding appendVarintField_def by (subst (1 2) varint_append) (subst tag_append, simp)

lemmas append_eqs = appendBytesAlways_eq appendStringAlways_eq appendStringField_eq
  appendUintField_def appendBoolField_def appendInt32Field_def

text \<open>
  One round of a field loop. The body sees the reader after the tag; the equations below rewrite the
  loop over a message that starts with the field.
\<close>

lemma loop_end [simp]: "readLoop pw body (new_reader []) s = (Inr s, new_reader [])"
  by (subst readLoop.simps) simp

lemma loop_message:
  assumes num: "1 \<le> num" "num < 2 ^ 29"
    and body: "body num BytesType (new_reader (AppendBytes pw [] m @ rest)) s = (Inr s2, new_reader rest)"
  shows "readLoop pw body (new_reader (appendMessage pw [] num m @ rest)) s
    = readLoop pw body (new_reader rest) s2"
proof -
  have eq: "appendMessage pw [] num m @ rest
      = AppendTag pw [] num BytesType @ AppendBytes pw [] m @ rest"
    unfolding appendMessage_def by (subst bytes_append) simp
  have pos: "0 < length (AppendTag pw [] num BytesType)" using tag_pos num by simp
  show ?thesis
    unfolding eq by (subst readLoop.simps) (use num pos in \<open>simp add: next_tag body\<close>)
qed

lemma loop_message_err:
  assumes num: "1 \<le> num" "num < 2 ^ 29"
    and body: "body num BytesType (new_reader (AppendBytes pw [] m @ rest)) s = (Inl e, r)"
  shows "readLoop pw body (new_reader (appendMessage pw [] num m @ rest)) s = (Inl e, r)"
proof -
  have eq: "appendMessage pw [] num m @ rest
      = AppendTag pw [] num BytesType @ AppendBytes pw [] m @ rest"
    unfolding appendMessage_def by (subst bytes_append) simp
  show ?thesis
    unfolding eq by (subst readLoop.simps) (use num in \<open>simp add: next_tag body\<close>)
qed

lemma loop_varint:
  assumes num: "1 \<le> num" "num < 2 ^ 29"
    and body: "body num VarintType (new_reader (AppendVarint pw [] v @ rest)) s
      = (Inr s2, new_reader rest)"
  shows "readLoop pw body (new_reader (appendVarintField pw [] num v @ rest)) s
    = readLoop pw body (new_reader rest) s2"
proof -
  have eq: "appendVarintField pw [] num v @ rest
      = AppendTag pw [] num VarintType @ AppendVarint pw [] v @ rest"
    unfolding appendVarintField_def by (subst varint_append) simp
  have pos: "0 < length (AppendTag pw [] num VarintType)" using tag_pos num by simp
  show ?thesis
    unfolding eq by (subst readLoop.simps) (use num pos in \<open>simp add: next_tag body\<close>)
qed

lemma message_length: "length m \<le> length (appendMessage pw b num m)"
  unfolding appendMessage_def by (subst bytes_append) (simp add: bytes_length trans_le_add2)

text \<open>No reading function gives back a longer buffer, and a tag always takes a byte.\<close>

lemma advance_le [simp]: "length (rb (rd_advance r n)) \<le> length (rb r)"
  by (simp add: rd_advance_def)

lemma shrink_bytes: "rd_bytes pw num ty r = (v, r2) \<Longrightarrow> length (rb r2) \<le> length (rb r)"
  by (auto simp: rd_bytes_def wantType_def rd_fail_def split: prod.splits if_splits bool.splits)

lemma shrink_varint: "rd_varint pw num ty r = (v, r2) \<Longrightarrow> length (rb r2) \<le> length (rb r)"
  by (auto simp: rd_varint_def wantType_def rd_fail_def split: prod.splits if_splits bool.splits)

lemma shrink_next: "rd_next pw r = (Some (num, ty), r2) \<Longrightarrow> length (rb r2) < length (rb r)"
  using tag_bound [of "rb r"]
  by (fastforce simp: rd_next_def rd_advance_def split: prod.splits if_splits)

end

end
