(* ===== verification/WireFormat.thy ===== *)
theory WireFormat
  imports Protowire
begin

text \<open>
  The protobuf wire format as an instance of \<open>protowire\<close>: base-128 varints, tags, little-endian
  64-bit values and length-prefixed bytes, with groups rejected. It shows that the laws of
  \<open>protowire_format\<close> can hold together and is what the witnesses run on. The theory also has the
  round trips of frames and UUIDs, which do not need the parameter.
\<close>

section \<open>Varints\<close>

fun venc :: "nat \<Rightarrow> bytes" where
  "venc n = (if n < 128 then [of_nat n] else of_nat (n mod 128 + 128) # venc (n div 128))"

declare venc.simps [simp del]

fun vdec :: "bytes \<Rightarrow> (nat \<times> nat) option" where
  "vdec [] = None"
| "vdec (b # bs) =
     (if unat b < 128 then Some (unat b, 1)
      else case vdec bs of
             None \<Rightarrow> None
           | Some (v, k) \<Rightarrow> Some (unat b - 128 + 128 * v, Suc k))"

lemma unat_byte: "n < 256 \<Longrightarrow> unat (of_nat n :: byte) = n"
  by (simp add: unat_of_nat)

lemma vdec_venc: "vdec (venc n @ rest) = Some (n, length (venc n))"
proof (induction n rule: venc.induct)
  case (1 n)
  have small: "unat (of_nat (n mod 128 + 128) :: byte) = n mod 128 + 128"
    by (rule unat_byte) simp
  show ?case
    using 1 by (subst (1 2) venc.simps) (simp add: unat_byte small del: of_nat_add)
qed

lemma vdec_bound: "vdec b = Some (v, k) \<Longrightarrow> 0 < k \<and> k \<le> length b"
  by (induction b arbitrary: v k) (auto split: if_splits option.splits)

section \<open>The instance\<close>

definition fmt_varint :: "bytes \<Rightarrow> u64 \<times> int" where
  "fmt_varint b =
     (case vdec b of
        None \<Rightarrow> (0, - 1)
      | Some (v, k) \<Rightarrow> if int v < 2 ^ 64 then (of_nat v, int k) else (0, - 3))"

definition fmt_bytes :: "bytes \<Rightarrow> bytes \<times> int" where
  "fmt_bytes b =
     (case vdec b of
        None \<Rightarrow> ([], - 1)
      | Some (v, k) \<Rightarrow> if v \<le> length b - k then (take v (drop k b), int (k + v)) else ([], - 1))"

definition fmt_tag :: "bytes \<Rightarrow> int \<times> int \<times> int" where
  "fmt_tag b =
     (case vdec b of
        None \<Rightarrow> (0, 0, - 1)
      | Some (v, k) \<Rightarrow>
          if 8 \<le> v \<and> int v < 2 ^ 32 then (int (v div 8), int (v mod 8), int k) else (0, 0, - 2))"

definition wire_format :: protowire where
  "wire_format =
     \<lparr>ConsumeTag = fmt_tag,
      ConsumeVarint = fmt_varint,
      ConsumeFixed64 = (\<lambda>b. if length b < 8 then (0, - 1) else (of_nat (le_nat (take 8 b)), 8)),
      ConsumeBytes = fmt_bytes,
      ConsumeFieldValue = (\<lambda>num ty b.
        if ty = 0 then snd (fmt_varint b)
        else if ty = 1 then if length b < 8 then - 1 else 8
        else if ty = 2 then snd (fmt_bytes b)
        else if ty = 5 then if length b < 4 then - 1 else 4
        else - 4),
      AppendTag = (\<lambda>b num ty. b @ venc (nat (8 * num + ty))),
      AppendVarint = (\<lambda>b v. b @ venc (unat v)),
      AppendFixed64 = (\<lambda>b v. b @ le_bytes 8 (unat v)),
      AppendBytes = (\<lambda>b m. b @ venc (length m) @ m),
      AppendString = (\<lambda>b s. b @ venc (length s) @ bytes_of_string s),
      EncodeZigZag = (\<lambda>x. of_int (if 0 \<le> x then 2 * x else - 2 * x - 1)),
      DecodeZigZag = (\<lambda>v. if even (uint v) then uint v div 2 else - ((uint v + 1) div 2)),
      EncodeBool = (\<lambda>q. if q then 1 else 0)\<rparr>"

text \<open>What a witness needs to compute an encoding.\<close>

lemma venc_small: "n < 128 \<Longrightarrow> venc n = [of_nat n]"
  by (simp add: venc.simps)

lemma wire_format_appends:
  "AppendTag wire_format b num ty = b @ venc (nat (8 * num + ty))"
  "AppendVarint wire_format b w = b @ venc (unat w)"
  "AppendBytes wire_format b m = b @ venc (length m) @ m"
  "AppendString wire_format b t = b @ venc (length t) @ bytes_of_string t"
  "EncodeZigZag wire_format x = of_int (if 0 \<le> x then 2 * x else - 2 * x - 1)"
  "EncodeBool wire_format q = (if q then 1 else 0)"
  by (simp_all add: wire_format_def)

lemmas wire_codes = wire_format_appends venc_small bytes_of_string_def appendMessage_def
  appendStringAlways_def appendStringField_def

lemma le_bytes_length [simp]: "length (le_bytes k n) = k"
  by (induction k arbitrary: n) auto

lemma le_nat_bytes: "n < 256 ^ k \<Longrightarrow> le_nat (le_bytes k n) = n"
proof (induction k arbitrary: n)
  case 0
  then show ?case by simp
next
  case (Suc k)
  then have "n div 256 < 256 ^ k" by (simp add: less_mult_imp_div_less mult.commute)
  then show ?case using Suc.IH by (simp add: unat_byte)
qed

lemma zigzag_code:
  assumes "- (2 ^ 63) \<le> x" "x < 2 ^ 63"
  shows "DecodeZigZag wire_format (EncodeZigZag wire_format x) = x"
proof -
  define n where "n = (if 0 \<le> x then 2 * x else - 2 * x - 1)"
  have "0 \<le> n" "n < 2 ^ 64" using assms by (auto simp: n_def)
  then have u: "uint (of_int n :: u64) = n"
    by (simp add: uint_word_of_int_eq take_bit_int_eq_self)
  show ?thesis
    using u by (simp add: wire_format_def flip: n_def) (auto simp: n_def)
qed

lemma zigzag_code_range:
  "- (2 ^ 63) \<le> DecodeZigZag wire_format v \<and> DecodeZigZag wire_format v < 2 ^ 63"
proof -
  define n where "n = uint v"
  have n: "0 \<le> n" "n < 2 ^ 64" using uint_lt2p [of v] by (simp_all add: n_def)
  have "DecodeZigZag wire_format v = (if even n then n div 2 else - ((n + 1) div 2))"
    by (simp add: wire_format_def n_def)
  with n show ?thesis by (simp split: if_split) presburger
qed

lemma tag_code:
  assumes "1 \<le> num" "num < 2 ^ 29" "ty \<in> {0, 1, 2}"
  shows "fmt_tag (venc (nat (8 * num + ty)) @ rest)
    = (num, ty, int (length (venc (nat (8 * num + ty)))))"
proof -
  obtain n t where [simp]: "num = int n" "ty = int t"
    using assms by (metis nonneg_int_cases insertE empty_iff zero_le_one zero_le_numeral order_trans
        order_refl)
  have [simp]: "nat (8 * int n + int t) = 8 * n + t" by simp
  have "t < 8" "1 \<le> n" "n < 2 ^ 29" using assms by auto
  then show ?thesis by (simp add: fmt_tag_def vdec_venc)
qed

interpretation fmt: protowire_format wire_format
proof unfold_locales
  fix b :: bytes and num ty n :: int
  assume "ConsumeTag wire_format b = (num, ty, n)"
  then show "n \<noteq> 0 \<and> n \<le> int (length b)"
    by (auto simp: wire_format_def fmt_tag_def dest: vdec_bound split: option.splits if_splits)
next
  fix b :: bytes and v :: u64 and n :: int
  assume "ConsumeVarint wire_format b = (v, n)"
  then show "n \<noteq> 0 \<and> n \<le> int (length b)"
    by (auto simp: wire_format_def fmt_varint_def dest: vdec_bound split: option.splits if_splits)
next
  fix b m :: bytes and n :: int
  assume "ConsumeBytes wire_format b = (m, n)"
  then show "length m \<le> length b"
    by (auto simp: wire_format_def fmt_bytes_def split: option.splits if_splits)
next
  fix num ty :: int and rest :: bytes
  assume "1 \<le> num" "num < 2 ^ 29" "ty \<in> {0, 1, 2}"
  then show "ConsumeTag wire_format (AppendTag wire_format [] num ty @ rest)
      = (num, ty, int (length (AppendTag wire_format [] num ty)))"
    by (simp add: wire_format_def tag_code del: insert_iff)
next
  fix v :: u64
  show "- (2 ^ 63) \<le> DecodeZigZag wire_format v \<and> DecodeZigZag wire_format v < 2 ^ 63"
    by (rule zigzag_code_range)
next
  fix x :: int
  assume "- (2 ^ 63) \<le> x" "x < 2 ^ 63"
  then show "DecodeZigZag wire_format (EncodeZigZag wire_format x) = x" by (rule zigzag_code)
next
  fix v :: u64 and rest :: bytes
  have "unat v < 2 ^ 64" using unsigned_less [of v, where ?'a = nat] by simp
  then show "ConsumeVarint wire_format (AppendVarint wire_format [] v @ rest)
      = (v, int (length (AppendVarint wire_format [] v)))"
    by (simp add: wire_format_def fmt_varint_def vdec_venc)
next
  fix v :: u64 and rest :: bytes
  have "unat v < 256 ^ 8" using unsigned_less [of v, where ?'a = nat] by simp
  then show "ConsumeFixed64 wire_format (AppendFixed64 wire_format [] v @ rest)
      = (v, int (length (AppendFixed64 wire_format [] v)))"
    by (simp add: wire_format_def le_nat_bytes del: le_bytes.simps)
qed (auto simp: wire_format_def fmt_bytes_def vdec_venc)

section \<open>Frames\<close>

lemma FrameReader_framed:
  assumes "length payload \<le> MaxFrameLen"
  shows "FrameReader_Next \<lparr>isData = le_bytes 4 (length payload) @ payload @ rest, isEnd = e\<rparr>
    = (Inr payload, \<lparr>isData = rest, isEnd = e\<rparr>)"
proof -
  have "length payload < 256 ^ 4" using assms by (simp add: MaxFrameLen_def)
  then have "le_nat (le_bytes 4 (length payload)) = length payload" by (rule le_nat_bytes)
  moreover have "length (le_bytes 4 (length payload)) = 4" by simp
  ultimately show ?thesis using assms by (simp add: FrameReader_Next_def ReadFull_def Let_def)
qed

text \<open>
  C31. What \<^verbatim>\<open>AppendFrameHeader\<close> writes, \<^verbatim>\<open>FrameReader.Next\<close> reads: a payload of at most
  \<^verbatim>\<open>MaxFrameLen\<close> bytes comes back whole, whatever follows it in the stream, and the rest of the
  stream is left for the next frame. A longer payload is refused on the sending side.
\<close>

theorem frame_roundtrip:
  "(case AppendFrameHeader payload of
      Inr framed \<Rightarrow>
        FrameReader_Next \<lparr>isData = framed @ rest, isEnd = e\<rparr>
          = (Inr payload, \<lparr>isData = rest, isEnd = e\<rparr>)
        \<and> length payload \<le> MaxFrameLen
    | Inl err \<Rightarrow> err = FrameTooLarge (length payload) MaxFrameLen \<and> MaxFrameLen < length payload)"
proof (cases "MaxFrameLen < length payload")
  case True
  then show ?thesis by (simp add: AppendFrameHeader_def)
next
  case False
  then show ?thesis
    using FrameReader_framed [of payload rest e] by (simp add: AppendFrameHeader_def)
qed

section \<open>UUIDs\<close>

lemma hex_digit_char: "n < 16 \<Longrightarrow> hex_digit (hex_char n) = Some n"
  by (simp add: hex_digit_def hex_char_def Let_def of_char_of)

lemma hex_char_dash: "n < 16 \<Longrightarrow> hex_char n \<noteq> CHR ''-''"
  using hex_digit_char [of n] by (auto simp: hex_digit_def)

lemma hex_roundtrip: "bytes_of_hex (hex_of_bytes b) = Some b"
proof (induction b)
  case Nil
  then show ?case by (simp add: hex_of_bytes_def)
next
  case (Cons w b)
  have w: "unat w div 16 < 16" "unat w mod 16 < 16"
    using unsigned_less [of w, where ?'a = nat] by simp_all
  have "of_nat (16 * (unat w div 16) + unat w mod 16) = w" by simp
  with Cons w show ?case by (simp add: hex_of_bytes_def hex_digit_char)
qed

lemma hex_length [simp]: "length (hex_of_bytes b) = 2 * length b"
  by (induction b) (auto simp: hex_of_bytes_def)

lemma hex_no_dash: "c \<in> set (hex_of_bytes b) \<Longrightarrow> c \<noteq> CHR ''-''"
proof -
  assume "c \<in> set (hex_of_bytes b)"
  then obtain w :: byte where "c = hex_char (unat w div 16) \<or> c = hex_char (unat w mod 16)"
    by (auto simp: hex_of_bytes_def)
  moreover have "unat w div 16 < 16" "unat w mod 16 < 16"
    using unsigned_less [of w, where ?'a = nat] by simp_all
  ultimately show ?thesis using hex_char_dash by metis
qed

text \<open>The text of a UUID reads back as its bytes.\<close>

lemma uuid_roundtrip:
  assumes "FormatUUID b = Inr s"
  shows "ParseUUID s = Inr b" and "length s = 36"
proof -
  define h where "h = hex_of_bytes b"
  have len: "length b = 16" "length h = 32"
    using assms by (auto simp: FormatUUID_def h_def split: if_splits)
  have s: "s = take 8 h @ ''-'' @ take 4 (drop 8 h) @ ''-'' @ take 4 (drop 12 h) @ ''-''
      @ take 4 (drop 16 h) @ ''-'' @ drop 20 h"
    using assms len by (simp add: FormatUUID_def Let_def h_def)
  have dash: "s ! 8 = CHR ''-''" "s ! 13 = CHR ''-''" "s ! 18 = CHR ''-''" "s ! 23 = CHR ''-''"
    using len by (simp_all add: s nth_append)
  show "length s = 36" using len by (simp add: s)
  have keep: "filter (\<lambda>c. c \<noteq> CHR ''-'') x = x" if "set x \<subseteq> set h" for x
    using that hex_no_dash [of _ b] by (auto simp: h_def filter_id_conv)
  have sub: "set (take i (drop j h)) \<subseteq> set h" "set (drop j h) \<subseteq> set h" "set (take i h) \<subseteq> set h"
    for i j by (meson set_take_subset set_drop_subset order_trans)+
  have step: "take 4 (drop j h) @ drop (j + 4) h = drop j h" for j
    using append_take_drop_id [of 4 "drop j h"] by (simp add: add.commute)
  have "filter (\<lambda>c. c \<noteq> CHR ''-'') s
      = take 8 h @ take 4 (drop 8 h) @ take 4 (drop 12 h) @ take 4 (drop 16 h) @ drop 20 h"
    using keep [OF sub(1)] keep [OF sub(2)] keep [OF sub(3)] by (simp add: s)
  also have "\<dots> = h"
    using step [of 16] step [of 12] step [of 8] by simp
  finally show "ParseUUID s = Inr b"
    using dash \<open>length s = 36\<close> len by (simp add: ParseUUID_def h_def hex_roundtrip)
qed

end
