(* ===== verification/ValueEncode.thy ===== *)
theory ValueEncode
  imports WireFormat
begin

text \<open>
  The encoding of Python values as \<^verbatim>\<open>MontyObject\<close> messages: the first half of
  \<^verbatim>\<open>internal/wire/value_codec.go\<close>, and the nesting check of \<^verbatim>\<open>internal/value/depth.go\<close> that
  guards it.
\<close>

section \<open>Numbers\<close>

text \<open>\<^verbatim>\<open>big.Int.Bytes\<close> and \<^verbatim>\<open>big.Int.SetBytes\<close>: big-endian without leading zeros.\<close>

fun be_rev :: "nat \<Rightarrow> bytes" where
  "be_rev n = (if n = 0 then [] else of_nat (n mod 256) # be_rev (n div 256))"

declare be_rev.simps [simp del]

definition big_bytes :: "nat \<Rightarrow> bytes" where
  "big_bytes n = rev (be_rev n)"

definition big_of_bytes :: "bytes \<Rightarrow> nat" where
  "big_of_bytes b = le_nat (rev b)"

text \<open>
  \<^verbatim>\<open>math.Float64bits\<close> and \<^verbatim>\<open>math.Float64frombits\<close> on the floats of \<open>gofloat\<close>, which has
  one NaN: sign, eleven bits of exponent and 52 bits of fraction. \<open>norm64\<close> brings a
  significand to 53 bits, or to the exponent of the subnormal numbers.
\<close>

definition norm64 :: "nat \<Rightarrow> int \<Rightarrow> nat \<times> int" where
  "norm64 m e =
     (let e2 = max (- 1074) (e - (53 - int (bitlen m)))
      in if e2 \<le> e then (m * 2 ^ nat (e - e2), e2) else (m div 2 ^ nat (e2 - e), e2))"

definition Float64bits :: "gofloat \<Rightarrow> u64" where
  "Float64bits f =
     (case f of
        FNaN \<Rightarrow> 0x7FF8000000000001
      | FInf neg \<Rightarrow> of_nat ((if neg then 2 ^ 63 else 0) + 2047 * 2 ^ 52)
      | FFin neg m e \<Rightarrow>
          (case norm64 m e of (m, e) \<Rightarrow>
             of_nat ((if neg then 2 ^ 63 else 0)
               + (if m < 2 ^ 52 then m else nat (e + 1075) * 2 ^ 52 + (m - 2 ^ 52)))))"

definition Float64frombits :: "u64 \<Rightarrow> gofloat" where
  "Float64frombits b =
     (let n = unat b;
          neg = (2 ^ 63 \<le> n);
          ex = n div 2 ^ 52 mod 2048;
          fr = n mod 2 ^ 52
      in if ex = 2047 then (if fr = 0 then FInf neg else FNaN)
         else if ex = 0 then FFin neg fr (- 1074)
         else FFin neg (fr + 2 ^ 52) (int ex - 1075))"

definition isInt64 :: "int \<Rightarrow> bool" where
  "isInt64 x \<longleftrightarrow> - (2 ^ 63) \<le> x \<and> x < 2 ^ 63"

definition IntValue :: "int \<Rightarrow> pyval" where
  "IntValue b = (if isInt64 b then VInt GoInt64 b else VBig (Some b))"

definition appendInt :: "protowire \<Rightarrow> bytes \<Rightarrow> int \<Rightarrow> bytes" where
  "appendInt pw b x = AppendVarint pw (AppendTag pw b 5 VarintType) (EncodeZigZag pw x)"

definition appendBig :: "protowire \<Rightarrow> bytes \<Rightarrow> int \<Rightarrow> bytes" where
  "appendBig pw b x =
     (if isInt64 x then appendInt pw b x
      else let body = appendBoolField pw [] 1 (x < 0);
               body = appendBytesAlways pw body 2 (big_bytes (nat \<bar>x\<bar>))
           in appendMessage pw b 6 body)"

definition appendUint :: "protowire \<Rightarrow> bytes \<Rightarrow> int \<Rightarrow> bytes" where
  "appendUint pw b x = (if x \<le> 2 ^ 63 - 1 then appendInt pw b x else appendBig pw b x)"

section \<open>Messages without values inside\<close>

definition appendTimeZoneBody :: "protowire \<Rightarrow> bytes \<Rightarrow> pyTimeZone \<Rightarrow> bytes" where
  "appendTimeZoneBody pw b tz =
     (let b = appendInt32Field pw b 1 (tzOffset tz)
      in case tzName tz of None \<Rightarrow> b | Some (_, n) \<Rightarrow> appendStringAlways pw b 2 n)"

definition appendFileHandle :: "protowire \<Rightarrow> bytes \<Rightarrow> string \<Rightarrow> string \<Rightarrow> u64 \<Rightarrow> bytes" where
  "appendFileHandle pw b path mode position =
     (let body = appendStringField pw [] 1 path;
          body = appendStringField pw body 2 mode;
          body = appendUintField pw body 3 position
      in appendMessage pw b 28 body)"

definition appendDate :: "protowire \<Rightarrow> pyDate \<Rightarrow> bytes" where
  "appendDate pw x =
     (let body = appendInt32Field pw [] 1 (dYear x);
          body = appendUintField pw body 2 (ucast (dMonth x))
      in appendUintField pw body 3 (ucast (dDay x)))"

definition appendOffset :: "protowire \<Rightarrow> bytes \<Rightarrow> int \<Rightarrow> 32 word ptr \<Rightarrow> bytes" where
  "appendOffset pw b num p =
     (case p of None \<Rightarrow> b | Some (_, off) \<Rightarrow> appendVarintField pw b num (scast off))"

definition appendName :: "protowire \<Rightarrow> bytes \<Rightarrow> int \<Rightarrow> string ptr \<Rightarrow> bytes" where
  "appendName pw b num p =
     (case p of None \<Rightarrow> b | Some (_, n) \<Rightarrow> appendStringAlways pw b num n)"

definition appendTime :: "protowire \<Rightarrow> pyTime \<Rightarrow> bytes" where
  "appendTime pw x =
     (let body = appendUintField pw [] 1 (ucast (tHour x));
          body = appendUintField pw body 2 (ucast (tMinute x));
          body = appendUintField pw body 3 (ucast (tSecond x));
          body = appendUintField pw body 4 (ucast (tMicrosecond x));
          body = appendOffset pw body 5 (tOffset x);
          body = appendName pw body 6 (tZone x)
      in appendUintField pw body 7 (ucast (tFold x)))"

definition appendDateTime :: "protowire \<Rightarrow> pyDateTime \<Rightarrow> bytes" where
  "appendDateTime pw x =
     (let body = appendInt32Field pw [] 1 (dtYear x);
          body = appendUintField pw body 2 (ucast (dtMonth x));
          body = appendUintField pw body 3 (ucast (dtDay x));
          body = appendUintField pw body 4 (ucast (dtHour x));
          body = appendUintField pw body 5 (ucast (dtMinute x));
          body = appendUintField pw body 6 (ucast (dtSecond x));
          body = appendUintField pw body 7 (ucast (dtMicrosecond x));
          body = appendOffset pw body 8 (dtOffset x)
      in appendName pw body 9 (dtZone x))"

definition appendTimeDelta :: "protowire \<Rightarrow> pyTimeDelta \<Rightarrow> bytes" where
  "appendTimeDelta pw x =
     (let body = appendInt32Field pw [] 1 (tdDays x);
          body = appendInt32Field pw body 2 (tdSeconds x)
      in appendInt32Field pw body 3 (tdMicroseconds x))"

section \<open>Values\<close>

text \<open>
  \<open>valueField\<close> is \<^verbatim>\<open>appendValueField\<close> on the result of the encoding, \<open>attrPairs\<close> is
  \<^verbatim>\<open>Dict.Pairs\<close> of an attribute dictionary. A buffer argument \<^verbatim>\<open>b\<close> is extended as in the
  sources, and an error leaves no result.
\<close>

definition valueField :: "protowire \<Rightarrow> bytes \<Rightarrow> int \<Rightarrow> wire_error + bytes \<Rightarrow> wire_error + bytes" where
  "valueField pw b num res =
     (case res of Inl e \<Rightarrow> Inl e | Inr body \<Rightarrow> Inr (appendMessage pw b num body))"

abbreviation attrPairs :: "(addr \<times> 'a list) option \<Rightarrow> 'a list" where
  "attrPairs attrs \<equiv> (case attrs of None \<Rightarrow> [] | Some (_, ps) \<Rightarrow> ps)"

abbreviation listOf :: "'a list option \<Rightarrow> 'a list" where
  "listOf xs \<equiv> (case xs of None \<Rightarrow> [] | Some ys \<Rightarrow> ys)"

lemma size_option_pos [simp]: "0 < size_option f x"
  by (cases x) auto

function AppendValue :: "protowire \<Rightarrow> bytes \<Rightarrow> pyval \<Rightarrow> wire_error + bytes"
  and appendItems :: "protowire \<Rightarrow> int \<Rightarrow> bytes \<Rightarrow> pyval list \<Rightarrow> wire_error + bytes"
  and appendDictBody :: "protowire \<Rightarrow> bytes \<Rightarrow> (pyval \<times> pyval) list \<Rightarrow> wire_error + bytes"
  and appendTypeBody :: "protowire \<Rightarrow> bytes \<Rightarrow> pytype \<Rightarrow> wire_error + bytes"
  and appendInstance ::
    "protowire \<Rightarrow> bytes \<Rightarrow> pytype \<Rightarrow> string \<Rightarrow> (addr \<times> (pyval \<times> pyval) list) option
      \<Rightarrow> wire_error + bytes"
where
  "AppendValue pw b VNone = Inr (appendMessage pw b 2 [])"
| "AppendValue pw b VEllipsis = Inr (appendMessage pw b 1 [])"
| "AppendValue pw b VNotImplemented = Inr (appendMessage pw b 3 [])"
| "AppendValue pw b (VBool x) =
     Inr (AppendVarint pw (AppendTag pw b 4 VarintType) (EncodeBool pw x))"
| "AppendValue pw b (VInt t x) =
     Inr (if t = GoUint \<or> t = GoUint64 then appendUint pw b x else appendInt pw b x)"
| "AppendValue pw b (VBig None) = Inr (appendMessage pw b 2 [])"
| "AppendValue pw b (VBig (Some x)) = Inr (appendBig pw b x)"
| "AppendValue pw b (VFloat32 x) =
     Inr (AppendFixed64 pw (AppendTag pw b 7 Fixed64Type) (Float64bits x))"
| "AppendValue pw b (VFloat64 x) =
     Inr (AppendFixed64 pw (AppendTag pw b 7 Fixed64Type) (Float64bits x))"
| "AppendValue pw b (VStr x) = Inr (appendStringAlways pw b 8 x)"
| "AppendValue pw b (VBytes x) = Inr (appendBytesAlways pw b 9 x)"
| "AppendValue pw b (VList xs) = valueField pw b 11 (appendItems pw 1 [] xs)"
| "AppendValue pw b (VTuple xs) = valueField pw b 12 (appendItems pw 1 [] xs)"
| "AppendValue pw b (VNamedTuple typeName fieldNames xs) =
     valueField pw b 13
       (appendItems pw 3
          (foldl (\<lambda>body f. appendStringAlways pw body 2 f) (appendStringField pw [] 1 typeName)
             fieldNames) xs)"
| "AppendValue pw b (VDict d) = valueField pw b 14 (appendDictBody pw [] (listOf d))"
| "AppendValue pw b (VSet xs) = valueField pw b 15 (appendItems pw 1 [] (listOf xs))"
| "AppendValue pw b (VFrozenSet xs) = valueField pw b 16 (appendItems pw 1 [] (listOf xs))"
| "AppendValue pw b (VDate x) = Inr (appendMessage pw b 17 (appendDate pw x))"
| "AppendValue pw b (VTime x) = Inr (appendMessage pw b 18 (appendTime pw x))"
| "AppendValue pw b (VDateTime x) = Inr (appendMessage pw b 19 (appendDateTime pw x))"
| "AppendValue pw b (VTimeDelta x) = Inr (appendMessage pw b 20 (appendTimeDelta pw x))"
| "AppendValue pw b (VTimeZone x) = Inr (appendMessage pw b 21 (appendTimeZoneBody pw [] x))"
| "AppendValue pw b (VException t m) =
     Inr (let body = appendStringField pw [] 1 t;
              body = (if m \<noteq> [] then appendStringAlways pw body 2 m else body)
          in appendMessage pw b 22 body)"
| "AppendValue pw b (VType t) = valueField pw b 23 (appendTypeBody pw [] t)"
| "AppendValue pw b (VInstance t uid attrs) = appendInstance pw b t uid attrs"
| "AppendValue pw b (VInstancePtr a t uid attrs) = appendInstance pw b t uid attrs"
| "AppendValue pw b (VFunction name doc) =
     Inr (appendMessage pw b 25 (appendName pw (appendStringField pw [] 1 name) 2 doc))"
| "AppendValue pw b (VBuiltinFunction x) = Inr (appendStringAlways pw b 26 x)"
| "AppendValue pw b (VPath x) = Inr (appendStringAlways pw b 27 x)"
| "AppendValue pw b (VFileHandle a path mode pos) = Inr (appendFileHandle pw b path mode pos)"
| "AppendValue pw b (VFileHandleVal path mode pos) = Inr (appendFileHandle pw b path mode pos)"
| "AppendValue pw b (VCycle i p) =
     Inl (ConversionError ''Cannot convert cycle marker to Monty value'')"
| "AppendValue pw b (VOther k ty) =
     Inl (ConversionError (''Cannot convert Go '' @ ty @ '' to Monty value''))"
| "appendItems pw num b [] = Inr b"
| "appendItems pw num b (x # xs) =
     (case valueField pw b num (AppendValue pw [] x) of
        Inl e \<Rightarrow> Inl e
      | Inr b \<Rightarrow> appendItems pw num b xs)"
| "appendDictBody pw b [] = Inr b"
| "appendDictBody pw b ((k, v) # ps) =
     (case valueField pw [] 1 (AppendValue pw [] k) of
        Inl e \<Rightarrow> Inl e
      | Inr pair \<Rightarrow>
          (case valueField pw pair 2 (AppendValue pw [] v) of
             Inl e \<Rightarrow> Inl e
           | Inr pair \<Rightarrow> appendDictBody pw (appendMessage pw b 1 pair) ps))"
| "appendTypeBody pw b (PyType name uid origin isDataclass attrs) =
     (let b = appendStringField pw b 1 name
      in case (if uid \<noteq> [] then appendUUIDMessage pw b 2 uid else Inr b) of
           Inl e \<Rightarrow> Inl (ConversionUUID uid)
         | Inr b \<Rightarrow>
             (let b = appendUintField pw b 3 (ucast origin);
                  b = appendBoolField pw b 4 isDataclass
              in if 0 < length (attrPairs attrs) then
                   valueField pw b 5 (appendDictBody pw [] (attrPairs attrs))
                 else Inr b))"
| "appendInstance pw b t uid attrs =
     (case appendTypeBody pw [] t of
        Inl e \<Rightarrow> Inl e
      | Inr ty \<Rightarrow>
          (case appendUUIDMessage pw (appendMessage pw [] 1 ty) 2 uid of
             Inl e \<Rightarrow> Inl (ConversionUUID uid)
           | Inr body \<Rightarrow>
               (case appendDictBody pw [] (attrPairs attrs) of
                  Inl e \<Rightarrow> Inl e
                | Inr ats \<Rightarrow> Inr (appendMessage pw b 24 (appendMessage pw body 3 ats)))))"
  by pat_completeness auto
termination
  by (relation "measure (\<lambda>x. case x of
        Inl (Inl (pw, b, v)) \<Rightarrow> size v
      | Inl (Inr (pw, num, b, xs)) \<Rightarrow> size_list size xs
      | Inr (Inl (pw, b, ps)) \<Rightarrow> size_list (size_prod size size) ps
      | Inr (Inr (Inl (pw, b, t))) \<Rightarrow> size t
      | Inr (Inr (Inr (pw, b, t, uid, attrs))) \<Rightarrow>
          size t + size_option (size_prod (\<lambda>_. 0) (size_list (size_prod size size))) attrs)")
    (auto split: option.splits)

definition appendValueField :: "protowire \<Rightarrow> bytes \<Rightarrow> int \<Rightarrow> pyval \<Rightarrow> wire_error + bytes" where
  "appendValueField pw b num v = valueField pw b num (AppendValue pw [] v)"

definition appendObjectList :: "protowire \<Rightarrow> bytes \<Rightarrow> int \<Rightarrow> pyval list \<Rightarrow> wire_error + bytes" where
  "appendObjectList pw b num xs = valueField pw b num (appendItems pw 1 [] xs)"

section \<open>The nesting check\<close>

definition ProstRecursionLimit :: int where "ProstRecursionLimit = 100"
definition FrameWrapperDepth :: int where "FrameWrapperDepth = 3"

definition MaxProtoValueDepth :: int where
  "MaxProtoValueDepth = ProstRecursionLimit - FrameWrapperDepth"

definition MaxValueDepth :: int where
  "MaxValueDepth = (MaxProtoValueDepth - 1) div 2"

definition listCost :: int where "listCost = 2"
definition dictCost :: int where "dictCost = 3"
definition classInstanceCost :: int where "classInstanceCost = 4"
definition typeCost :: int where "typeCost = 2"
definition classInstanceTypeCost :: int where "classInstanceTypeCost = 3"
definition typeAttrsCost :: int where "typeAttrsCost = 2"

text \<open>
  The loops of \<^verbatim>\<open>seqExceeds\<close> and \<^verbatim>\<open>pairsExceed\<close> after the test of the budget are
  \<open>anyExceeds\<close> and \<open>anyPairExceeds\<close>.
\<close>

function depthExceeds :: "pyval \<Rightarrow> int \<Rightarrow> bool"
  and anyExceeds :: "pyval list \<Rightarrow> int \<Rightarrow> bool"
  and anyPairExceeds :: "(pyval \<times> pyval) list \<Rightarrow> int \<Rightarrow> bool"
  and classTypeExceeds :: "pytype \<Rightarrow> int \<Rightarrow> bool"
where
  "depthExceeds v budget =
     (case v of
        VList xs \<Rightarrow> budget < listCost \<or> anyExceeds xs (budget - listCost)
      | VTuple xs \<Rightarrow> budget < listCost \<or> anyExceeds xs (budget - listCost)
      | VSet xs \<Rightarrow> budget < listCost \<or> anyExceeds (listOf xs) (budget - listCost)
      | VFrozenSet xs \<Rightarrow> budget < listCost \<or> anyExceeds (listOf xs) (budget - listCost)
      | VNamedTuple t fs xs \<Rightarrow> budget < listCost \<or> anyExceeds xs (budget - listCost)
      | VDict d \<Rightarrow> budget < dictCost \<or> anyPairExceeds (listOf d) (budget - dictCost)
      | VInstance t uid attrs \<Rightarrow>
          budget < classInstanceTypeCost \<or> classTypeExceeds t (budget - classInstanceTypeCost)
          \<or> budget < classInstanceCost
          \<or> anyPairExceeds (attrPairs attrs) (budget - classInstanceCost)
      | VInstancePtr a t uid attrs \<Rightarrow>
          budget < classInstanceTypeCost \<or> classTypeExceeds t (budget - classInstanceTypeCost)
          \<or> budget < classInstanceCost
          \<or> anyPairExceeds (attrPairs attrs) (budget - classInstanceCost)
      | VType t \<Rightarrow>
          if tyOrigin t = OriginBuiltin then budget < typeCost
          else budget < typeCost \<or> classTypeExceeds t (budget - typeCost)
      | _ \<Rightarrow> budget = 0)"
| "anyExceeds [] budget = False"
| "anyExceeds (x # xs) budget = (depthExceeds x budget \<or> anyExceeds xs budget)"
| "anyPairExceeds [] budget = False"
| "anyPairExceeds ((k, v) # ps) budget =
     (depthExceeds k budget \<or> depthExceeds v budget \<or> anyPairExceeds ps budget)"
| "classTypeExceeds (PyType name uid origin dc attrs) budget =
     (0 < length (attrPairs attrs)
      \<and> (budget < typeAttrsCost \<or> anyPairExceeds (attrPairs attrs) (budget - typeAttrsCost)))"
  by pat_completeness auto
termination
  by (relation "measure (\<lambda>x. case x of
        Inl (Inl (v, budget)) \<Rightarrow> size v
      | Inl (Inr (xs, budget)) \<Rightarrow> size_list size xs
      | Inr (Inl (ps, budget)) \<Rightarrow> size_list (size_prod size size) ps
      | Inr (Inr (t, budget)) \<Rightarrow> size t)")
    (auto split: option.splits)

declare depthExceeds.simps [simp del]

definition seqExceeds :: "pyval list \<Rightarrow> int \<Rightarrow> int \<Rightarrow> bool" where
  "seqExceeds items budget cost \<longleftrightarrow> budget < cost \<or> anyExceeds items (budget - cost)"

definition pairsExceed :: "(pyval \<times> pyval) list \<Rightarrow> int \<Rightarrow> int \<Rightarrow> bool" where
  "pairsExceed pairs budget cost \<longleftrightarrow> budget < cost \<or> anyPairExceeds pairs (budget - cost)"

definition ExceedsMaxDepth :: "pyval \<Rightarrow> bool" where
  "ExceedsMaxDepth v = depthExceeds v MaxProtoValueDepth"

end
