(* ===== verification/ValueDecode.thy ===== *)
theory ValueDecode
  imports ValueEncode
begin

text \<open>
  The decoding of \<^verbatim>\<open>MontyObject\<close> messages under a memory budget: the second half of
  \<^verbatim>\<open>internal/wire/value_codec.go\<close>.

  A decoder returns an error or its value with the new decoder state. The state holds the budget,
  which all decoders of a frame share (\<open>None\<close> is a nil budget), and the next free address: a
  pointer that the sources make with \<^verbatim>\<open>&x\<close> is a fresh address with the value. An error
  ends the decoding of the whole frame, so the state after it is not needed. The
  budget stays between \<open>0\<close> and its start, so its width does not matter.
\<close>

section \<open>The decoder state\<close>

record dstate =
  dRemaining :: "int option"
  dNext :: addr

definition NewBudget :: "int \<Rightarrow> dstate" where
  "NewBudget n = \<lparr>dRemaining = Some n, dNext = 0\<rparr>"

definition charge :: "nat \<Rightarrow> dstate \<Rightarrow> wire_error + dstate" where
  "charge n ds =
     (case dRemaining ds of
        None \<Rightarrow> Inr ds
      | Some m \<Rightarrow>
          if m - int n < 0 then Inl ErrDecodeBudget
          else Inr (ds\<lparr>dRemaining := Some (m - int n)\<rparr>))"

definition alloc :: "'a \<Rightarrow> dstate \<Rightarrow> 'a ptr \<times> dstate" where
  "alloc x ds = (Some (dNext ds, x), ds\<lparr>dNext := Suc (dNext ds)\<rparr>)"

definition nodeHostSize :: nat where "nodeHostSize = 88"
definition maxDecodeNesting :: nat where "maxDecodeNesting = 100"

type_synonym 'a decoder = "bytes \<Rightarrow> dstate \<Rightarrow> wire_error + 'a \<times> dstate"

section \<open>Messages without values inside\<close>

definition clampU32 :: "u64 \<Rightarrow> u64" where
  "clampU32 v = (if 255 < v then 255 else v)"

definition rd_u8 :: "protowire \<Rightarrow> int \<Rightarrow> int \<Rightarrow> reader \<Rightarrow> byte \<times> reader" where
  "rd_u8 pw num ty r = (case rd_varint pw num ty r of (v, r) \<Rightarrow> (ucast (clampU32 v), r))"

definition rd_w32 :: "protowire \<Rightarrow> int \<Rightarrow> int \<Rightarrow> reader \<Rightarrow> 32 word \<times> reader" where
  "rd_w32 pw num ty r = (case rd_varint pw num ty r of (v, r) \<Rightarrow> (ucast v, r))"

definition rd_bool :: "protowire \<Rightarrow> int \<Rightarrow> int \<Rightarrow> reader \<Rightarrow> bool \<times> reader" where
  "rd_bool pw num ty r = (case rd_varint pw num ty r of (v, r) \<Rightarrow> (v \<noteq> 0, r))"

text \<open>A field that sets a local variable, and one that also makes a pointer.\<close>

definition setField :: "'a \<times> reader \<Rightarrow> ('a \<Rightarrow> 's) \<Rightarrow> (wire_error + 's) \<times> reader" where
  "setField ar f = (case ar of (a, r) \<Rightarrow> (Inr (f a), r))"

definition setPtr ::
    "'a \<times> reader \<Rightarrow> dstate \<Rightarrow> ('a ptr \<Rightarrow> 's) \<Rightarrow> (wire_error + 's \<times> dstate) \<times> reader" where
  "setPtr ar ds f =
     (case ar of (a, r) \<Rightarrow> (case alloc a ds of (p, ds) \<Rightarrow> (Inr (f p, ds), r)))"

definition decodeBig :: "protowire \<Rightarrow> pyval decoder" where
  "decodeBig pw msg ds =
     (case readFields pw
        (\<lambda>num ty r (neg, mag).
           if num = 1 then setField (rd_bool pw num ty r) (\<lambda>v. (v, mag))
           else if num = 2 then setField (rd_bytes pw num ty r) (\<lambda>v. (neg, v))
           else (Inr (neg, mag), rd_skip pw num ty r)) msg (False, []) of
        Inl e \<Rightarrow> Inl e
      | Inr (neg, mag) \<Rightarrow>
          (case charge (length mag) ds of
             Inl e \<Rightarrow> Inl e
           | Inr ds \<Rightarrow>
               Inr (IntValue (if neg then - int (big_of_bytes mag) else int (big_of_bytes mag)), ds)))"

definition isLeapYear :: "int \<Rightarrow> bool" where
  "isLeapYear year \<longleftrightarrow> year mod 4 = 0 \<and> (year mod 100 \<noteq> 0 \<or> year mod 400 = 0)"

definition monthDays :: "int \<Rightarrow> nat \<Rightarrow> nat" where
  "monthDays year month =
     (if month = 2 \<and> isLeapYear year then 29
      else [31, 28, 31, 30, 31, 30, 31, 31, 30, 31, 30, 31] ! (month - 1))"

definition validateDate :: "32 word \<Rightarrow> byte \<Rightarrow> byte \<Rightarrow> wire_error option" where
  "validateDate year month day =
     (if sint year < 1 \<or> 9999 < sint year then
        Some (WireMsg (''year '' @ dec_int (sint year) @ '' is out of range''))
      else if month < 1 \<or> 12 < month then
        Some (WireMsg (''month '' @ dec (unat month) @ '' is out of range''))
      else if day < 1 \<or> monthDays (sint year) (unat month) < unat day then
        Some (WireMsg (''day '' @ dec (unat day) @ '' is out of range for month''))
      else None)"

definition validateClock ::
    "byte \<Rightarrow> byte \<Rightarrow> byte \<Rightarrow> 32 word \<Rightarrow> 32 word ptr \<Rightarrow> string ptr \<Rightarrow> wire_error option" where
  "validateClock hour minute second micro offset name =
     (if 23 < hour \<or> 59 < minute \<or> 59 < second \<or> 999999 < micro then
        Some (WireMsg ''time component out of range'')
      else if offset \<noteq> None
        \<and> (sint (snd (the offset)) \<le> - 86400 \<or> 86400 \<le> sint (snd (the offset))) then
        Some (WireMsg ''utc offset out of range'')
      else if name \<noteq> None \<and> offset = None then
        Some (WireMsg ''timezone name requires an offset'')
      else None)"

definition dateField :: "protowire \<Rightarrow> pyDate field_body" where
  "dateField pw num ty r d =
     (if num = 1 then setField (rd_w32 pw num ty r) (\<lambda>v. d\<lparr>dYear := v\<rparr>)
      else if num = 2 then setField (rd_u8 pw num ty r) (\<lambda>v. d\<lparr>dMonth := v\<rparr>)
      else if num = 3 then setField (rd_u8 pw num ty r) (\<lambda>v. d\<lparr>dDay := v\<rparr>)
      else (Inr d, rd_skip pw num ty r))"

definition decodeDate :: "protowire \<Rightarrow> pyval decoder" where
  "decodeDate pw msg ds =
     (case readFields pw (dateField pw) msg \<lparr>dYear = 0, dMonth = 0, dDay = 0\<rparr> of
        Inl e \<Rightarrow> Inl e
      | Inr d \<Rightarrow>
          (case validateDate (dYear d) (dMonth d) (dDay d) of
             Some e \<Rightarrow> Inl e
           | None \<Rightarrow> Inr (VDate d, ds)))"

definition timeField :: "protowire \<Rightarrow> (pyTime \<times> dstate) field_body" where
  "timeField pw num ty r s =
     (case s of (t, ds) \<Rightarrow>
        if num = 1 then setField (rd_u8 pw num ty r) (\<lambda>v. (t\<lparr>tHour := v\<rparr>, ds))
        else if num = 2 then setField (rd_u8 pw num ty r) (\<lambda>v. (t\<lparr>tMinute := v\<rparr>, ds))
        else if num = 3 then setField (rd_u8 pw num ty r) (\<lambda>v. (t\<lparr>tSecond := v\<rparr>, ds))
        else if num = 4 then setField (rd_w32 pw num ty r) (\<lambda>v. (t\<lparr>tMicrosecond := v\<rparr>, ds))
        else if num = 5 then setPtr (rd_w32 pw num ty r) ds (\<lambda>p. t\<lparr>tOffset := p\<rparr>)
        else if num = 6 then setPtr (rd_str pw num ty r) ds (\<lambda>p. t\<lparr>tZone := p\<rparr>)
        else if num = 7 then setField (rd_u8 pw num ty r) (\<lambda>v. (t\<lparr>tFold := v\<rparr>, ds))
        else (Inr (t, ds), rd_skip pw num ty r))"

definition zeroTime :: pyTime where
  "zeroTime = \<lparr>tHour = 0, tMinute = 0, tSecond = 0, tMicrosecond = 0, tOffset = None, tZone = None,
     tFold = 0\<rparr>"

definition decodeTime :: "protowire \<Rightarrow> pyval decoder" where
  "decodeTime pw msg ds =
     (case readFields pw (timeField pw) msg (zeroTime, ds) of
        Inl e \<Rightarrow> Inl e
      | Inr (t, ds) \<Rightarrow>
          (case validateClock (tHour t) (tMinute t) (tSecond t) (tMicrosecond t) (tOffset t) (tZone t) of
             Some e \<Rightarrow> Inl e
           | None \<Rightarrow>
               if 1 < tFold t then Inl (WireMsg ''fold must be 0 or 1'') else Inr (VTime t, ds)))"

definition dateTimeField :: "protowire \<Rightarrow> (pyDateTime \<times> dstate) field_body" where
  "dateTimeField pw num ty r s =
     (case s of (d, ds) \<Rightarrow>
        if num = 1 then setField (rd_w32 pw num ty r) (\<lambda>v. (d\<lparr>dtYear := v\<rparr>, ds))
        else if num = 2 then setField (rd_u8 pw num ty r) (\<lambda>v. (d\<lparr>dtMonth := v\<rparr>, ds))
        else if num = 3 then setField (rd_u8 pw num ty r) (\<lambda>v. (d\<lparr>dtDay := v\<rparr>, ds))
        else if num = 4 then setField (rd_u8 pw num ty r) (\<lambda>v. (d\<lparr>dtHour := v\<rparr>, ds))
        else if num = 5 then setField (rd_u8 pw num ty r) (\<lambda>v. (d\<lparr>dtMinute := v\<rparr>, ds))
        else if num = 6 then setField (rd_u8 pw num ty r) (\<lambda>v. (d\<lparr>dtSecond := v\<rparr>, ds))
        else if num = 7 then setField (rd_w32 pw num ty r) (\<lambda>v. (d\<lparr>dtMicrosecond := v\<rparr>, ds))
        else if num = 8 then setPtr (rd_w32 pw num ty r) ds (\<lambda>p. d\<lparr>dtOffset := p\<rparr>)
        else if num = 9 then setPtr (rd_str pw num ty r) ds (\<lambda>p. d\<lparr>dtZone := p\<rparr>)
        else (Inr (d, ds), rd_skip pw num ty r))"

definition zeroDateTime :: pyDateTime where
  "zeroDateTime = \<lparr>dtYear = 0, dtMonth = 0, dtDay = 0, dtHour = 0, dtMinute = 0, dtSecond = 0,
     dtMicrosecond = 0, dtOffset = None, dtZone = None\<rparr>"

definition decodeDateTime :: "protowire \<Rightarrow> pyval decoder" where
  "decodeDateTime pw msg ds =
     (case readFields pw (dateTimeField pw) msg (zeroDateTime, ds) of
        Inl e \<Rightarrow> Inl e
      | Inr (d, ds) \<Rightarrow>
          (case validateDate (dtYear d) (dtMonth d) (dtDay d) of
             Some e \<Rightarrow> Inl e
           | None \<Rightarrow>
               (case validateClock (dtHour d) (dtMinute d) (dtSecond d) (dtMicrosecond d) (dtOffset d)
                       (dtZone d) of
                  Some e \<Rightarrow> Inl e
                | None \<Rightarrow> Inr (VDateTime d, ds))))"

definition timeDeltaField :: "protowire \<Rightarrow> pyTimeDelta field_body" where
  "timeDeltaField pw num ty r t =
     (if num = 1 then setField (rd_w32 pw num ty r) (\<lambda>v. t\<lparr>tdDays := v\<rparr>)
      else if num = 2 then setField (rd_w32 pw num ty r) (\<lambda>v. t\<lparr>tdSeconds := v\<rparr>)
      else if num = 3 then setField (rd_w32 pw num ty r) (\<lambda>v. t\<lparr>tdMicroseconds := v\<rparr>)
      else (Inr t, rd_skip pw num ty r))"

definition timeDelta_ok :: "pyTimeDelta \<Rightarrow> bool" where
  "timeDelta_ok t \<longleftrightarrow>
     \<not> (sint (tdSeconds t) < 0 \<or> 86400 \<le> sint (tdSeconds t) \<or> sint (tdMicroseconds t) < 0
        \<or> 1000000 \<le> sint (tdMicroseconds t) \<or> sint (tdDays t) < - 999999999
        \<or> 999999999 < sint (tdDays t))"

definition decodeTimeDelta :: "protowire \<Rightarrow> pyval decoder" where
  "decodeTimeDelta pw msg ds =
     (case readFields pw (timeDeltaField pw) msg
             \<lparr>tdDays = 0, tdSeconds = 0, tdMicroseconds = 0\<rparr> of
        Inl e \<Rightarrow> Inl e
      | Inr t \<Rightarrow>
          if \<not> timeDelta_ok t then Inl (WireMsg ''timedelta is not normalized'')
          else Inr (VTimeDelta t, ds))"

definition timeZoneField :: "protowire \<Rightarrow> (pyTimeZone \<times> dstate) field_body" where
  "timeZoneField pw num ty r s =
     (case s of (tz, ds) \<Rightarrow>
        if num = 1 then setField (rd_w32 pw num ty r) (\<lambda>v. (tz\<lparr>tzOffset := v\<rparr>, ds))
        else if num = 2 then setPtr (rd_str pw num ty r) ds (\<lambda>p. tz\<lparr>tzName := p\<rparr>)
        else (Inr (tz, ds), rd_skip pw num ty r))"

definition decodeTimeZone :: "protowire \<Rightarrow> pyTimeZone decoder" where
  "decodeTimeZone pw msg ds =
     (case readFields pw (timeZoneField pw) msg (\<lparr>tzOffset = 0, tzName = None\<rparr>, ds) of
        Inl e \<Rightarrow> Inl e
      | Inr (tz, ds) \<Rightarrow>
          if sint (tzOffset tz) \<le> - 86400 \<or> 86400 \<le> sint (tzOffset tz) then
            Inl (WireMsg ''timezone offset out of range'')
          else Inr (tz, ds))"

definition decodeExceptionValue :: "protowire \<Rightarrow> pyval decoder" where
  "decodeExceptionValue pw msg ds =
     (case readFields pw
        (\<lambda>num ty r (t, m).
           if num = 1 then setField (rd_str pw num ty r) (\<lambda>v. (v, m))
           else if num = 2 then setField (rd_str pw num ty r) (\<lambda>v. (t, v))
           else (Inr (t, m), rd_skip pw num ty r)) msg ([], []) of
        Inl e \<Rightarrow> Inl e
      | Inr (t, m) \<Rightarrow> Inr (VException t m, ds))"

definition decodeFunction :: "protowire \<Rightarrow> pyval decoder" where
  "decodeFunction pw msg ds =
     (case readFields pw
        (\<lambda>num ty r ((name, doc), ds).
           if num = 1 then setField (rd_str pw num ty r) (\<lambda>v. ((v, doc), ds))
           else if num = 2 then setPtr (rd_str pw num ty r) ds (\<lambda>p. (name, p))
           else (Inr ((name, doc), ds), rd_skip pw num ty r)) msg (([], None), ds) of
        Inl e \<Rightarrow> Inl e
      | Inr ((name, doc), ds) \<Rightarrow> Inr (VFunction name doc, ds))"

definition validHandleMode :: "string \<Rightarrow> bool" where
  "validHandleMode mode \<longleftrightarrow>
     mode \<in> {''r'', ''rb'', ''r+'', ''rb+'', ''w'', ''wb'', ''w+'', ''wb+'', ''a'', ''ab'', ''a+'', ''ab+''}"

definition decodeFileHandle :: "protowire \<Rightarrow> pyval decoder" where
  "decodeFileHandle pw msg ds =
     (case readFields pw
        (\<lambda>num ty r (path, mode, pos).
           if num = 1 then setField (rd_str pw num ty r) (\<lambda>v. (v, mode, pos))
           else if num = 2 then setField (rd_str pw num ty r) (\<lambda>v. (path, v, pos))
           else if num = 3 then setField (rd_varint pw num ty r) (\<lambda>v. (path, mode, v))
           else (Inr (path, mode, pos), rd_skip pw num ty r)) msg ([], [], 0) of
        Inl e \<Rightarrow> Inl e
      | Inr (path, mode, pos) \<Rightarrow>
          if \<not> validHandleMode mode then Inl (InvalidHandleMode mode)
          else Inr (VFileHandle (dNext ds) path mode pos, ds\<lparr>dNext := Suc (dNext ds)\<rparr>))"

definition decodeCycle :: "protowire \<Rightarrow> pyval decoder" where
  "decodeCycle pw msg ds =
     (case readFields pw
        (\<lambda>num ty r (i, p).
           if num = 1 then setField (rd_varint pw num ty r) (\<lambda>v. (v, p))
           else if num = 2 then setField (rd_str pw num ty r) (\<lambda>v. (i, v))
           else (Inr (i, p), rd_skip pw num ty r)) msg (0, []) of
        Inl e \<Rightarrow> Inl e
      | Inr (i, p) \<Rightarrow> Inr (VCycle i p, ds))"

section \<open>Messages with values inside\<close>

text \<open>A field whose message is decoded by another decoder, which may end the decoding.\<close>

definition subField ::
    "bytes \<times> reader \<Rightarrow> dstate \<Rightarrow> 'a decoder \<Rightarrow> ('a \<Rightarrow> dstate \<Rightarrow> 's) \<Rightarrow> (wire_error + 's) \<times> reader"
where
  "subField mr ds dv f =
     (case mr of (m, r) \<Rightarrow>
        (case dv m ds of
           Inl e \<Rightarrow> (Inl e, r)
         | Inr (a, ds) \<Rightarrow> (Inr (f a ds), r)))"

text \<open>The argument \<open>dv\<close> is the value decoder one level deeper.\<close>

definition decodeObjectList :: "protowire \<Rightarrow> pyval decoder \<Rightarrow> pyval list decoder" where
  "decodeObjectList pw dv msg ds =
     readFields pw
       (\<lambda>num ty r (items, ds).
          if num \<noteq> 1 then (Inr (items, ds), rd_skip pw num ty r)
          else subField (rd_bytes pw num ty r) ds dv (\<lambda>v ds. (items @ [v], ds))) msg ([], ds)"

definition decodeNamedTuple :: "protowire \<Rightarrow> pyval decoder \<Rightarrow> pyval decoder" where
  "decodeNamedTuple pw dv msg ds =
     (case readFields pw
        (\<lambda>num ty r ((t, fs, vs), ds).
           if num = 1 then setField (rd_str pw num ty r) (\<lambda>v. ((v, fs, vs), ds))
           else if num = 2 then setField (rd_str pw num ty r) (\<lambda>v. ((t, fs @ [v], vs), ds))
           else if num = 3 then
             subField (rd_bytes pw num ty r) ds dv (\<lambda>v ds. ((t, fs, vs @ [v]), ds))
           else (Inr ((t, fs, vs), ds), rd_skip pw num ty r)) msg (([], [], []), ds) of
        Inl e \<Rightarrow> Inl e
      | Inr ((t, fs, vs), ds) \<Rightarrow> Inr (VNamedTuple t fs vs, ds))"

definition decodePair :: "protowire \<Rightarrow> pyval decoder \<Rightarrow> (pyval \<times> pyval) decoder" where
  "decodePair pw dv msg ds =
     (case readFields pw
        (\<lambda>num ty r ((k, v), ds).
           if num = 1 then subField (rd_bytes pw num ty r) ds dv (\<lambda>x ds. ((Some x, v), ds))
           else if num = 2 then subField (rd_bytes pw num ty r) ds dv (\<lambda>x ds. ((k, Some x), ds))
           else (Inr ((k, v), ds), rd_skip pw num ty r)) msg ((None, None), ds) of
        Inl e \<Rightarrow> Inl e
      | Inr ((Some k, Some v), ds) \<Rightarrow> Inr ((k, v), ds)
      | Inr (_, ds) \<Rightarrow> Inl (WireMsg ''dict pair is missing its key or value''))"

definition decodeDict :: "protowire \<Rightarrow> pyval decoder \<Rightarrow> (pyval \<times> pyval) list decoder" where
  "decodeDict pw dv msg ds =
     readFields pw
       (\<lambda>num ty r (d, ds).
          if num \<noteq> 1 then (Inr (d, ds), rd_skip pw num ty r)
          else subField (rd_bytes pw num ty r) ds (decodePair pw dv) (\<lambda>kv ds. (d @ [kv], ds)))
       msg ([], ds)"

record typeFields =
  tfName :: string
  tfID :: "string option"
  tfOrigin :: typeOrigin
  tfDataclass :: bool
  tfAttrs :: "(addr \<times> (pyval \<times> pyval) list) option"

text \<open>The attributes are stored only when there are some.\<close>

definition keepAttrs ::
    "(addr \<times> 'a list) option \<Rightarrow> 'a list \<Rightarrow> dstate \<Rightarrow> (addr \<times> 'a list) option \<times> dstate" where
  "keepAttrs old d ds = (if 0 < length d then alloc d ds else (old, ds))"

definition typeField :: "protowire \<Rightarrow> pyval decoder \<Rightarrow> (typeFields \<times> dstate) field_body" where
  "typeField pw dv num ty r s =
     (case s of (t, ds) \<Rightarrow>
        if num = 1 then setField (rd_str pw num ty r) (\<lambda>v. (t\<lparr>tfName := v\<rparr>, ds))
        else if num = 2 then
          subField (rd_bytes pw num ty r) ds
            (\<lambda>m ds. case decodeUUIDMessage pw m of Inl e \<Rightarrow> Inl e | Inr u \<Rightarrow> Inr (u, ds))
            (\<lambda>u ds. (t\<lparr>tfID := Some u\<rparr>, ds))
        else if num = 3 then
          setField (rd_varint pw num ty r) (\<lambda>v. (t\<lparr>tfOrigin := ucast v\<rparr>, ds))
        else if num = 4 then setField (rd_bool pw num ty r) (\<lambda>v. (t\<lparr>tfDataclass := v\<rparr>, ds))
        else if num = 5 then
          subField (rd_bytes pw num ty r) ds (decodeDict pw dv)
            (\<lambda>d ds. case keepAttrs (tfAttrs t) d ds of (a, ds) \<Rightarrow> (t\<lparr>tfAttrs := a\<rparr>, ds))
        else (Inr (t, ds), rd_skip pw num ty r))"

definition decodeType :: "protowire \<Rightarrow> pyval decoder \<Rightarrow> pytype decoder" where
  "decodeType pw dv msg ds =
     (case readFields pw (typeField pw dv) msg
        (\<lparr>tfName = [], tfID = None, tfOrigin = OriginUnspecified, tfDataclass = False,
          tfAttrs = None\<rparr>, ds) of
        Inl e \<Rightarrow> Inl e
      | Inr (t, ds) \<Rightarrow>
          (let ty = PyType (tfName t) (case tfID t of None \<Rightarrow> [] | Some u \<Rightarrow> u) (tfOrigin t)
                      (tfDataclass t) (tfAttrs t)
           in if tfOrigin t = OriginBuiltin then
                (if tfID t \<noteq> None then Inl (WireMsg ''builtin type must not carry an id'')
                 else Inr (ty, ds))
              else if tfOrigin t = OriginSandbox \<or> tfOrigin t = OriginHost then
                (if tfID t = None then Inl (WireMsg ''class type is missing its id'')
                 else Inr (ty, ds))
              else Inl (WireMsg ''type origin is unspecified'')))"

record instFields =
  ifType :: "pytype option"
  ifID :: "string option"
  ifAttrs :: "(addr \<times> (pyval \<times> pyval) list) option"

definition instField ::
    "protowire \<Rightarrow> pyval decoder \<Rightarrow> pyval decoder \<Rightarrow> (instFields \<times> dstate) field_body" where
  "instField pw dv1 dv2 num ty r s =
     (case s of (i, ds) \<Rightarrow>
        if num = 1 then
          subField (rd_bytes pw num ty r) ds (decodeType pw dv2) (\<lambda>t ds. (i\<lparr>ifType := Some t\<rparr>, ds))
        else if num = 2 then
          subField (rd_bytes pw num ty r) ds
            (\<lambda>m ds. case decodeUUIDMessage pw m of Inl e \<Rightarrow> Inl e | Inr u \<Rightarrow> Inr (u, ds))
            (\<lambda>u ds. (i\<lparr>ifID := Some u\<rparr>, ds))
        else if num = 3 then
          subField (rd_bytes pw num ty r) ds (decodeDict pw dv1)
            (\<lambda>d ds. case keepAttrs (ifAttrs i) d ds of (a, ds) \<Rightarrow> (i\<lparr>ifAttrs := a\<rparr>, ds))
        else (Inr (i, ds), rd_skip pw num ty r))"

text \<open>The type of an instance is decoded one level deeper than its attributes.\<close>

definition decodeInstance :: "protowire \<Rightarrow> pyval decoder \<Rightarrow> pyval decoder \<Rightarrow> pyval decoder" where
  "decodeInstance pw dv1 dv2 msg ds =
     (case readFields pw (instField pw dv1 dv2) msg
             (\<lparr>ifType = None, ifID = None, ifAttrs = None\<rparr>, ds) of
        Inl e \<Rightarrow> Inl e
      | Inr (i, ds) \<Rightarrow>
          (case (ifType i, ifID i) of
             (Some t, Some u) \<Rightarrow>
               if tyOrigin t = OriginBuiltin then
                 Inl (WireMsg ''class instance type must not be builtin'')
               else Inr (VInstance t u (ifAttrs i), ds)
           | _ \<Rightarrow> Inl (WireMsg ''class instance is missing its type or id'')))"

section \<open>Values\<close>

text \<open>
  The switch of \<^verbatim>\<open>decodeValue\<close>: the local variables are the value read last, whether the last
  field had a known number, and the decoder state.
\<close>

definition chargedField ::
    "bytes \<times> reader \<Rightarrow> dstate \<Rightarrow> (bytes \<Rightarrow> pyval) \<Rightarrow> (wire_error + pyval \<times> bool \<times> dstate) \<times> reader"
where
  "chargedField mr ds f =
     (case mr of (m, r) \<Rightarrow>
        (case charge (length m) ds of
           Inl e \<Rightarrow> (Inl e, r)
         | Inr ds \<Rightarrow> (Inr (f m, True, ds), r)))"

definition valueArm ::
    "protowire \<Rightarrow> pyval decoder \<Rightarrow> pyval decoder \<Rightarrow> (pyval \<times> bool \<times> dstate) field_body" where
  "valueArm pw dv1 dv2 num ty r s =
     (case s of (out, seen, ds) \<Rightarrow>
        let msg = (\<lambda>dv. subField (rd_bytes pw num ty r) ds dv (\<lambda>v ds. (v, True, ds)));
            items = (\<lambda>f. subField (rd_bytes pw num ty r) ds (decodeObjectList pw dv1)
                      (\<lambda>xs ds. (f xs, True, ds)));
            unit = (\<lambda>v. setField (rd_bytes pw num ty r) (\<lambda>_. (v, True, ds)))
        in if num = 1 then unit VEllipsis
           else if num = 2 then unit VNone
           else if num = 3 then unit VNotImplemented
           else if num = 4 then setField (rd_bool pw num ty r) (\<lambda>v. (VBool v, True, ds))
           else if num = 5 then
             setField (rd_varint pw num ty r) (\<lambda>v. (VInt GoInt64 (DecodeZigZag pw v), True, ds))
           else if num = 6 then msg (decodeBig pw)
           else if num = 7 then
             setField (rd_fixed64 pw num ty r) (\<lambda>v. (VFloat64 (Float64frombits v), True, ds))
           else if num = 8 then
             chargedField (rd_bytes pw num ty r) ds (\<lambda>m. VStr (string_of_bytes m))
           else if num = 9 then chargedField (rd_bytes pw num ty r) ds VBytes
           else if num = 10 then
             (Inl (WireMsg ''uuid values are not supported''), snd (rd_bytes pw num ty r))
           else if num = 11 then items VList
           else if num = 12 then items VTuple
           else if num = 13 then msg (decodeNamedTuple pw dv1)
           else if num = 14 then
             subField (rd_bytes pw num ty r) ds (decodeDict pw dv1)
               (\<lambda>d ds. (VDict (Some d), True, ds))
           else if num = 15 then items (\<lambda>xs. VSet (Some xs))
           else if num = 16 then items (\<lambda>xs. VFrozenSet (Some xs))
           else if num = 17 then msg (decodeDate pw)
           else if num = 18 then msg (decodeTime pw)
           else if num = 19 then msg (decodeDateTime pw)
           else if num = 20 then msg (decodeTimeDelta pw)
           else if num = 21 then
             subField (rd_bytes pw num ty r) ds (decodeTimeZone pw)
               (\<lambda>tz ds. (VTimeZone tz, True, ds))
           else if num = 22 then msg (decodeExceptionValue pw)
           else if num = 23 then
             subField (rd_bytes pw num ty r) ds (decodeType pw dv1) (\<lambda>t ds. (VType t, True, ds))
           else if num = 24 then msg (decodeInstance pw dv1 dv2)
           else if num = 25 then msg (decodeFunction pw)
           else if num = 26 then
             setField (rd_str pw num ty r) (\<lambda>v. (VBuiltinFunction v, True, ds))
           else if num = 27 then setField (rd_str pw num ty r) (\<lambda>v. (VPath v, True, ds))
           else if num = 28 then msg (decodeFileHandle pw)
           else if num = 29 then
             chargedField (rd_bytes pw num ty r) ds (\<lambda>m. VStr (string_of_bytes m))
           else if num = 30 then msg (decodeCycle pw)
           else (Inr (out, False, ds), rd_skip pw num ty r))"

text \<open>The depth grows with every call and stops at the limit, so the recursion ends.\<close>

function decodeValue :: "protowire \<Rightarrow> nat \<Rightarrow> pyval decoder" where
  "decodeValue pw depth =
     (if maxDecodeNesting < depth then
        (\<lambda>msg ds. Inl (WireMsg ''value nesting exceeds the recursion limit''))
      else
        (\<lambda>msg ds. case charge nodeHostSize ds of
           Inl e \<Rightarrow> Inl e
         | Inr ds \<Rightarrow>
             (case readFields pw
                (valueArm pw (decodeValue pw (depth + 1)) (decodeValue pw (depth + 2))) msg
                (VNone, False, ds) of
                Inl e \<Rightarrow> Inl e
              | Inr (out, seen, ds) \<Rightarrow>
                  if \<not> seen then Inl (WireMsg ''MontyObject carried no kind'') else Inr (out, ds))))"
  by pat_completeness auto
termination
  by (relation "measure (\<lambda>(pw, depth). Suc maxDecodeNesting - depth)") auto

declare decodeValue.simps [simp del]

definition DecodeValue :: "protowire \<Rightarrow> bytes \<Rightarrow> dstate \<Rightarrow> wire_error + pyval \<times> dstate" where
  "DecodeValue pw msg budget = decodeValue pw 0 msg budget"

end
