(* ===== verification/ValueCorrect.thy ===== *)
theory ValueCorrect
  imports ValueDecode
begin

text \<open>
  The codec of \<^verbatim>\<open>internal/wire/value_codec.go\<close> is correct: what \<^verbatim>\<open>AppendValue\<close> writes,
  \<^verbatim>\<open>DecodeValue\<close> reads back, and what \<^verbatim>\<open>DecodeValue\<close> accepts is well formed and paid for.
\<close>

section \<open>What is written and what arrives\<close>

text \<open>
  \<open>resident\<close> is the host memory that decoding a value charges: one node for each value inside and
  the bytes of texts, byte strings and big integers.
\<close>

function resident :: "pyval \<Rightarrow> nat"
  and residentItems :: "pyval list \<Rightarrow> nat"
  and residentPairs :: "(pyval \<times> pyval) list \<Rightarrow> nat"
  and residentType :: "pytype \<Rightarrow> nat"
where
  "resident v = nodeHostSize +
     (case v of
        VStr s \<Rightarrow> length s
      | VBytes m \<Rightarrow> length m
      | VInt t x \<Rightarrow> if isInt64 x then 0 else length (big_bytes (nat \<bar>x\<bar>))
      | VBig (Some x) \<Rightarrow> if isInt64 x then 0 else length (big_bytes (nat \<bar>x\<bar>))
      | VList xs \<Rightarrow> residentItems xs
      | VTuple xs \<Rightarrow> residentItems xs
      | VNamedTuple t fs xs \<Rightarrow> residentItems xs
      | VSet xs \<Rightarrow> residentItems (listOf xs)
      | VFrozenSet xs \<Rightarrow> residentItems (listOf xs)
      | VDict d \<Rightarrow> residentPairs (listOf d)
      | VType t \<Rightarrow> residentType t
      | VInstance t u attrs \<Rightarrow> residentType t + residentPairs (attrPairs attrs)
      | VInstancePtr a t u attrs \<Rightarrow> residentType t + residentPairs (attrPairs attrs)
      | _ \<Rightarrow> 0)"
| "residentItems [] = 0"
| "residentItems (x # xs) = resident x + residentItems xs"
| "residentPairs [] = 0"
| "residentPairs ((k, v) # ps) = resident k + resident v + residentPairs ps"
| "residentType (PyType n u origin dc attrs) = residentPairs (attrPairs attrs)"
  by pat_completeness auto
termination
  by (relation "measure (\<lambda>x. case x of
        Inl (Inl v) \<Rightarrow> size v
      | Inl (Inr xs) \<Rightarrow> size_list size xs
      | Inr (Inl ps) \<Rightarrow> size_list (size_prod size size) ps
      | Inr (Inr t) \<Rightarrow> size t)")
    (auto split: option.splits)

declare resident.simps [simp del]

definition uuid_ok :: "string \<Rightarrow> bool" where
  "uuid_ok u \<longleftrightarrow> (case ParseUUID u of Inl e \<Rightarrow> False | Inr raw \<Rightarrow> FormatUUID raw = Inr u)"

lemma uuid_ok_Nil [simp]: "\<not> uuid_ok []"
  by (simp add: uuid_ok_def ParseUUID_def)

definition float_ok :: "gofloat \<Rightarrow> bool" where
  "float_ok f \<longleftrightarrow>
     (case f of
        FFin neg m e \<Rightarrow>
          m < 2 ^ 52 \<and> e = - 1074 \<or> 2 ^ 52 \<le> m \<and> m < 2 ^ 53 \<and> - 1074 \<le> e \<and> e \<le> 971
      | _ \<Rightarrow> True)"

text \<open>
  The values that the wire can carry: integers of their type, normalised floats, valid dates and
  times, canonical identifiers, no cycle markers and nothing that is not a Python value.
\<close>

function wireable :: "pyval \<Rightarrow> bool"
  and wireableItems :: "pyval list \<Rightarrow> bool"
  and wireablePairs :: "(pyval \<times> pyval) list \<Rightarrow> bool"
  and wireableType :: "pytype \<Rightarrow> bool"
where
  "wireable v =
     (case v of
        VInt t x \<Rightarrow> if t = GoUint \<or> t = GoUint64 then 0 \<le> x \<and> x < 2 ^ 64 else isInt64 x
      | VFloat32 f \<Rightarrow> float_ok f
      | VFloat64 f \<Rightarrow> float_ok f
      | VList xs \<Rightarrow> wireableItems xs
      | VTuple xs \<Rightarrow> wireableItems xs
      | VNamedTuple t fs xs \<Rightarrow> wireableItems xs
      | VSet xs \<Rightarrow> wireableItems (listOf xs)
      | VFrozenSet xs \<Rightarrow> wireableItems (listOf xs)
      | VDict d \<Rightarrow> wireablePairs (listOf d)
      | VDate d \<Rightarrow> validateDate (dYear d) (dMonth d) (dDay d) = None
      | VTime t \<Rightarrow>
          validateClock (tHour t) (tMinute t) (tSecond t) (tMicrosecond t) (tOffset t) (tZone t) = None
          \<and> tFold t \<le> 1
      | VDateTime d \<Rightarrow>
          validateDate (dtYear d) (dtMonth d) (dtDay d) = None
          \<and> validateClock (dtHour d) (dtMinute d) (dtSecond d) (dtMicrosecond d) (dtOffset d)
               (dtZone d) = None
      | VTimeDelta t \<Rightarrow> timeDelta_ok t
      | VTimeZone tz \<Rightarrow> - 86400 < sint (tzOffset tz) \<and> sint (tzOffset tz) < 86400
      | VType t \<Rightarrow> wireableType t
      | VInstance t u attrs \<Rightarrow>
          wireableType t \<and> tyOrigin t \<noteq> OriginBuiltin \<and> uuid_ok u \<and> wireablePairs (attrPairs attrs)
      | VInstancePtr a t u attrs \<Rightarrow>
          wireableType t \<and> tyOrigin t \<noteq> OriginBuiltin \<and> uuid_ok u \<and> wireablePairs (attrPairs attrs)
      | VFileHandle a path mode pos \<Rightarrow> validHandleMode mode
      | VFileHandleVal path mode pos \<Rightarrow> validHandleMode mode
      | VCycle i p \<Rightarrow> False
      | VOther k ty \<Rightarrow> False
      | _ \<Rightarrow> True)"
| "wireableItems [] = True"
| "wireableItems (x # xs) = (wireable x \<and> wireableItems xs)"
| "wireablePairs [] = True"
| "wireablePairs ((k, v) # ps) = (wireable k \<and> wireable v \<and> wireablePairs ps)"
| "wireableType (PyType n u origin dc attrs) =
     ((if origin = OriginBuiltin then u = [] \<and> attrPairs attrs = []
       else (origin = OriginSandbox \<or> origin = OriginHost) \<and> uuid_ok u)
      \<and> wireablePairs (attrPairs attrs))"
  by pat_completeness auto
termination
  by (relation "measure (\<lambda>x. case x of
        Inl (Inl v) \<Rightarrow> size v
      | Inl (Inr xs) \<Rightarrow> size_list size xs
      | Inr (Inl ps) \<Rightarrow> size_list (size_prod size size) ps
      | Inr (Inr t) \<Rightarrow> size t)")
    (auto split: option.splits)

declare wireable.simps [simp del]

text \<open>
  \<open>arrive v a\<close> is the value that the other end has for \<open>v\<close>, with its pointers numbered from \<open>a\<close>,
  and the next free address: the integer types become one, a \<^verbatim>\<open>float32\<close> a
  \<^verbatim>\<open>float64\<close>, a nil container an empty one, and empty attributes are dropped.
\<close>

definition storeAttrs :: "'a list \<Rightarrow> addr \<Rightarrow> (addr \<times> 'a list) option \<times> addr" where
  "storeAttrs ps a = (if ps = [] then (None, a) else (Some (a, ps), Suc a))"

text \<open>A pointer that is written and read back points to a fresh copy.\<close>

definition place :: "'a ptr \<Rightarrow> addr \<Rightarrow> 'a ptr \<times> addr" where
  "place p a = (case p of None \<Rightarrow> (None, a) | Some (_, x) \<Rightarrow> (Some (a, x), Suc a))"

function arrive :: "pyval \<Rightarrow> addr \<Rightarrow> pyval \<times> addr"
  and arriveItems :: "pyval list \<Rightarrow> addr \<Rightarrow> pyval list \<times> addr"
  and arrivePairs :: "(pyval \<times> pyval) list \<Rightarrow> addr \<Rightarrow> (pyval \<times> pyval) list \<times> addr"
  and arriveType :: "pytype \<Rightarrow> addr \<Rightarrow> pytype \<times> addr"
  and arriveInst :: "pytype \<Rightarrow> string \<Rightarrow> (addr \<times> (pyval \<times> pyval) list) option \<Rightarrow> addr \<Rightarrow> pyval \<times> addr"
where
  "arrive v a =
     (case v of
        VInt t x \<Rightarrow> (IntValue x, a)
      | VBig None \<Rightarrow> (VNone, a)
      | VBig (Some x) \<Rightarrow> (IntValue x, a)
      | VFloat32 f \<Rightarrow> (VFloat64 f, a)
      | VList xs \<Rightarrow> (case arriveItems xs a of (ys, a) \<Rightarrow> (VList ys, a))
      | VTuple xs \<Rightarrow> (case arriveItems xs a of (ys, a) \<Rightarrow> (VTuple ys, a))
      | VNamedTuple t fs xs \<Rightarrow> (case arriveItems xs a of (ys, a) \<Rightarrow> (VNamedTuple t fs ys, a))
      | VSet xs \<Rightarrow> (case arriveItems (listOf xs) a of (ys, a) \<Rightarrow> (VSet (Some ys), a))
      | VFrozenSet xs \<Rightarrow> (case arriveItems (listOf xs) a of (ys, a) \<Rightarrow> (VFrozenSet (Some ys), a))
      | VDict d \<Rightarrow> (case arrivePairs (listOf d) a of (ps, a) \<Rightarrow> (VDict (Some ps), a))
      | VTime t \<Rightarrow>
          (case place (tOffset t) a of (off, a) \<Rightarrow>
             (case place (tZone t) a of (zone, a) \<Rightarrow> (VTime (t\<lparr>tOffset := off, tZone := zone\<rparr>), a)))
      | VDateTime d \<Rightarrow>
          (case place (dtOffset d) a of (off, a) \<Rightarrow>
             (case place (dtZone d) a of (zone, a) \<Rightarrow>
                (VDateTime (d\<lparr>dtOffset := off, dtZone := zone\<rparr>), a)))
      | VTimeZone tz \<Rightarrow>
          (case place (tzName tz) a of (name, a) \<Rightarrow> (VTimeZone (tz\<lparr>tzName := name\<rparr>), a))
      | VType t \<Rightarrow> (case arriveType t a of (t, a) \<Rightarrow> (VType t, a))
      | VInstance t u attrs \<Rightarrow> arriveInst t u attrs a
      | VInstancePtr q t u attrs \<Rightarrow> arriveInst t u attrs a
      | VFunction name doc \<Rightarrow> (case place doc a of (doc, a) \<Rightarrow> (VFunction name doc, a))
      | VFileHandle q path mode pos \<Rightarrow> (VFileHandle a path mode pos, Suc a)
      | VFileHandleVal path mode pos \<Rightarrow> (VFileHandle a path mode pos, Suc a)
      | _ \<Rightarrow> (v, a))"
| "arriveItems [] a = ([], a)"
| "arriveItems (x # xs) a =
     (case arrive x a of (y, a) \<Rightarrow> (case arriveItems xs a of (ys, a) \<Rightarrow> (y # ys, a)))"
| "arrivePairs [] a = ([], a)"
| "arrivePairs ((k, v) # ps) a =
     (case arrive k a of (k, a) \<Rightarrow>
        (case arrive v a of (v, a) \<Rightarrow> (case arrivePairs ps a of (qs, a) \<Rightarrow> ((k, v) # qs, a))))"
| "arriveType (PyType n u origin dc attrs) a =
     (case arrivePairs (attrPairs attrs) a of (ps, a) \<Rightarrow>
        (case storeAttrs ps a of (attrs, a) \<Rightarrow> (PyType n u origin dc attrs, a)))"
| "arriveInst t u attrs a =
     (case arriveType t a of (t, a) \<Rightarrow>
        (case arrivePairs (attrPairs attrs) a of (ps, a) \<Rightarrow>
           (case storeAttrs ps a of (attrs, a) \<Rightarrow> (VInstance t u attrs, a))))"
  by pat_completeness auto
termination
  by (relation "measure (\<lambda>x. case x of
        Inl (Inl (v, a)) \<Rightarrow> size v
      | Inl (Inr (xs, a)) \<Rightarrow> size_list size xs
      | Inr (Inl (ps, a)) \<Rightarrow> size_list (size_prod size size) ps
      | Inr (Inr (Inl (t, a))) \<Rightarrow> size t
      | Inr (Inr (Inr (t, u, attrs, a))) \<Rightarrow>
          size t + size_option (size_prod (\<lambda>_. 0) (size_list (size_prod size size))) attrs)")
    (auto split: option.splits)

declare arrive.simps [simp del]

section \<open>Elements\<close>

lemma wireableItems_iff: "wireableItems xs \<longleftrightarrow> (\<forall>x\<in>set xs. wireable x)"
  by (induction xs) auto

lemma wireablePairs_iff:
  "wireablePairs ps \<longleftrightarrow> (\<forall>x\<in>fst ` set ps \<union> snd ` set ps. wireable x)"
  by (induction ps) auto

lemma anyExceeds_iff: "anyExceeds xs b \<longleftrightarrow> (\<exists>x\<in>set xs. depthExceeds x b)"
  by (induction xs) auto

lemma anyPairExceeds_iff:
  "anyPairExceeds ps b \<longleftrightarrow> (\<exists>x\<in>fst ` set ps \<union> snd ` set ps. depthExceeds x b)"
  by (induction ps) auto

lemma item_size: "x \<in> set xs \<Longrightarrow> size x \<le> size_list size (xs :: pyval list)"
  by (induction xs) auto

lemma pair_size:
  "x \<in> fst ` set ps \<union> snd ` set ps \<Longrightarrow>
   size x \<le> size_list (size_prod size size) (ps :: (pyval \<times> pyval) list)"
  by (induction ps) force+

text \<open>
  What a value and the check of its nesting say about its children: \<open>fits v bud x c\<close> is that \<open>x\<close>
  passes the check with \<open>c\<close> less.
\<close>

definition fits :: "pyval \<Rightarrow> int \<Rightarrow> pyval \<Rightarrow> int \<Rightarrow> bool" where
  "fits v bud x c \<longleftrightarrow> size x < size v \<and> wireable x \<and> \<not> depthExceeds x (bud - c) \<and> c \<le> bud"

lemmas costs = listCost_def dictCost_def typeCost_def classInstanceCost_def typeAttrsCost_def
  classInstanceTypeCost_def

lemma wireable_containers:
  "wireable (VList xs) = wireableItems xs" "wireable (VTuple xs) = wireableItems xs"
  "wireable (VSet ys) = wireableItems (listOf ys)" "wireable (VFrozenSet ys) = wireableItems (listOf ys)"
  "wireable (VNamedTuple t fs xs) = wireableItems xs" "wireable (VDict d) = wireablePairs (listOf d)"
  "wireable (VType ty) = wireableType ty"
  by (simp_all add: wireable.simps)

lemma depth_containers:
  "depthExceeds (VList xs) b \<longleftrightarrow> b < 2 \<or> anyExceeds xs (b - 2)"
  "depthExceeds (VTuple xs) b \<longleftrightarrow> b < 2 \<or> anyExceeds xs (b - 2)"
  "depthExceeds (VSet ys) b \<longleftrightarrow> b < 2 \<or> anyExceeds (listOf ys) (b - 2)"
  "depthExceeds (VFrozenSet ys) b \<longleftrightarrow> b < 2 \<or> anyExceeds (listOf ys) (b - 2)"
  "depthExceeds (VNamedTuple t fs xs) b \<longleftrightarrow> b < 2 \<or> anyExceeds xs (b - 2)"
  "depthExceeds (VDict d) b \<longleftrightarrow> b < 3 \<or> anyPairExceeds (listOf d) (b - 3)"
  "tyOrigin ty \<noteq> OriginBuiltin \<Longrightarrow> depthExceeds (VType ty) b \<longleftrightarrow> b < 2 \<or> classTypeExceeds ty (b - 2)"
  by (simp_all add: depthExceeds.simps costs)

lemma inst_containers:
  "wireable (VInstance ty u attrs)
    = (wireableType ty \<and> tyOrigin ty \<noteq> OriginBuiltin \<and> uuid_ok u \<and> wireablePairs (attrPairs attrs))"
  "wireable (VInstancePtr q ty u attrs)
    = (wireableType ty \<and> tyOrigin ty \<noteq> OriginBuiltin \<and> uuid_ok u \<and> wireablePairs (attrPairs attrs))"
  "depthExceeds (VInstance ty u attrs) b
    \<longleftrightarrow> b < 4 \<or> classTypeExceeds ty (b - 3) \<or> anyPairExceeds (attrPairs attrs) (b - 4)"
  "depthExceeds (VInstancePtr q ty u attrs) b
    \<longleftrightarrow> b < 4 \<or> classTypeExceeds ty (b - 3) \<or> anyPairExceeds (attrPairs attrs) (b - 4)"
  by (auto simp add: wireable.simps depthExceeds.simps costs)

lemma fits_item:
  assumes "wireable v" "\<not> depthExceeds v bud" "x \<in> set xs"
    and "v = VList xs \<or> v = VTuple xs \<or> (\<exists>ys. v = VSet ys \<and> xs = listOf ys)
      \<or> (\<exists>ys. v = VFrozenSet ys \<and> xs = listOf ys) \<or> v = VNamedTuple t fs xs"
  shows "fits v bud x 2"
proof -
  have "size_list size xs < size v"
    using assms(4) by (elim disjE exE conjE) (simp_all split: option.splits)
  moreover have "wireableItems xs \<and> 2 \<le> bud \<and> \<not> anyExceeds xs (bud - 2)"
    using assms(4,1,2)
    by (elim disjE exE conjE) (simp_all add: wireable_containers depth_containers)
  ultimately show ?thesis
    using assms(3) item_size [OF assms(3)] unfolding fits_def wireableItems_iff anyExceeds_iff by auto
qed

lemma fits_pair:
  assumes "wireable (VDict d)" "\<not> depthExceeds (VDict d) bud"
    and "x \<in> fst ` set (listOf d) \<union> snd ` set (listOf d)"
  shows "fits (VDict d) bud x 3"
proof -
  have "size_list (size_prod size size) (listOf d) < size (VDict d)" by (simp split: option.splits)
  with pair_size [OF assms(3)] have "size x < size (VDict d)" by linarith
  moreover have "wireablePairs (listOf d)" "3 \<le> bud" "\<not> anyPairExceeds (listOf d) (bud - 3)"
    using assms(1,2) by (auto simp: wireable_containers depth_containers)
  ultimately show ?thesis
    using assms(3) unfolding fits_def wireablePairs_iff anyPairExceeds_iff by blast
qed

lemma type_size:
  "x \<in> fst ` set (attrPairs (tyAttrs t)) \<union> snd ` set (attrPairs (tyAttrs t)) \<Longrightarrow> size x < size t"
  using pair_size [of x "attrPairs (tyAttrs t)"] by (cases t) (auto split: option.splits)

lemma type_children:
  assumes "wireableType t" "\<not> classTypeExceeds t b"
    and "x \<in> fst ` set (attrPairs (tyAttrs t)) \<union> snd ` set (attrPairs (tyAttrs t))"
  shows "wireable x" "\<not> depthExceeds x (b - 2)" "2 \<le> b"
  using assms
  by (cases t; auto simp: costs wireablePairs_iff anyPairExceeds_iff split: option.splits)+

lemma fits_type:
  assumes "wireable (VType t)" "\<not> depthExceeds (VType t) bud"
    and x: "x \<in> fst ` set (attrPairs (tyAttrs t)) \<union> snd ` set (attrPairs (tyAttrs t))"
  shows "fits (VType t) bud x 4"
proof -
  have ok: "wireableType t" using assms(1) by (simp add: wireable_containers)
  then have "tyOrigin t \<noteq> OriginBuiltin" using x by (cases t) auto
  then have b: "2 \<le> bud" "\<not> classTypeExceeds t (bud - 2)"
    using assms(2) by (simp_all add: depth_containers)
  show ?thesis
    using type_children [OF ok b(2) x] type_size [OF x] by (simp add: fits_def)
qed

lemma fits_inst:
  assumes "wireable v" "\<not> depthExceeds v bud" "v = VInstance t u attrs \<or> v = VInstancePtr q t u attrs"
  shows "x \<in> fst ` set (attrPairs attrs) \<union> snd ` set (attrPairs attrs) \<Longrightarrow> fits v bud x 4"
    and "x \<in> fst ` set (attrPairs (tyAttrs t)) \<union> snd ` set (attrPairs (tyAttrs t)) \<Longrightarrow> fits v bud x 5"
proof -
  have v: "wireableType t" "wireablePairs (attrPairs attrs)" "\<not> classTypeExceeds t (bud - 3)"
    "4 \<le> bud" "\<not> anyPairExceeds (attrPairs attrs) (bud - 4)"
    using assms(3,1,2) by (elim disjE; simp add: inst_containers)+
  have sizes: "size t < size v" "size_list (size_prod size size) (attrPairs attrs) < size v"
    using assms(3) by (elim disjE; simp split: option.splits)+
  show "fits v bud x 4" if x: "x \<in> fst ` set (attrPairs attrs) \<union> snd ` set (attrPairs attrs)"
  proof -
    have "size x < size v" using pair_size [OF x] sizes(2) by linarith
    with x v show ?thesis unfolding fits_def wireablePairs_iff anyPairExceeds_iff by blast
  qed
  show "fits v bud x 5" if "x \<in> fst ` set (attrPairs (tyAttrs t)) \<union> snd ` set (attrPairs (tyAttrs t))"
    using type_children [OF v(1,3) that] type_size [OF that] sizes by (simp add: fits_def)
qed

section \<open>Fields as byte strings\<close>

definition msgF :: "protowire \<Rightarrow> int \<Rightarrow> bytes \<Rightarrow> bytes" where
  "msgF pw num m = AppendTag pw [] num BytesType @ AppendBytes pw [] m"

definition varF :: "protowire \<Rightarrow> int \<Rightarrow> u64 \<Rightarrow> bytes" where
  "varF pw num v = AppendTag pw [] num VarintType @ AppendVarint pw [] v"

definition fixF :: "protowire \<Rightarrow> int \<Rightarrow> u64 \<Rightarrow> bytes" where
  "fixF pw num v = AppendTag pw [] num Fixed64Type @ AppendFixed64 pw [] v"

definition uintF :: "protowire \<Rightarrow> int \<Rightarrow> u64 \<Rightarrow> bytes" where
  "uintF pw num v = (if v = 0 then [] else varF pw num v)"

definition strF :: "protowire \<Rightarrow> int \<Rightarrow> string \<Rightarrow> bytes" where
  "strF pw num s = (if s = [] then [] else msgF pw num (bytes_of_string s))"

definition ptrF :: "('a \<Rightarrow> bytes) \<Rightarrow> 'a ptr \<Rightarrow> bytes" where
  "ptrF f p = (case p of None \<Rightarrow> [] | Some (_, x) \<Rightarrow> f x)"

lemma w32_cast [simp]: "ucast (scast v :: u64) = (v :: 32 word)"
  by (rule bit_word_eqI) (simp add: bit_ucast_iff bit_signed_iff)

lemma w32_cast_up [simp]: "ucast (ucast v :: u64) = (v :: 32 word)"
  by (rule bit_word_eqI) (auto simp: bit_ucast_iff dest: bit_imp_le_length)

lemma w32_cast_zero [simp]: "(scast v :: u64) = 0 \<longleftrightarrow> v = (0 :: 32 word)"
  by (metis w32_cast unsigned_0 signed_0)

lemma w32_cast_up_zero [simp]: "(ucast v :: u64) = 0 \<longleftrightarrow> v = (0 :: 32 word)"
  by (metis w32_cast_up unsigned_0)

lemma unat_byte_cast [simp]: "unat (ucast (x :: byte) :: u64) = unat x"
  using unsigned_less [of x, where ?'a = nat]
  by (simp add: unsigned_ucast_eq take_bit_nat_eq_self)

lemma byte_cast_zero [simp]: "(ucast (x :: byte) :: u64) = 0 \<longleftrightarrow> x = 0"
  by (metis unat_byte_cast unat_eq_zero)

lemma byte_cast [simp]: "ucast (ucast x :: u64) = (x :: byte)"
  by (rule bit_word_eqI) (auto simp: bit_ucast_iff dest: bit_imp_le_length)

context protowire_format
begin

lemma appendMessage_F: "appendMessage pw b num m = b @ msgF pw num m"
  unfolding appendMessage_def msgF_def by (subst bytes_append) (subst tag_append, simp)

lemma appendVarintField_F: "appendVarintField pw b num v = b @ varF pw num v"
  unfolding appendVarintField_def varF_def by (subst varint_append) (subst tag_append, simp)

lemma appendFixed_F:
  "AppendFixed64 pw (AppendTag pw b num Fixed64Type) v = b @ fixF pw num v"
  unfolding fixF_def by (subst fixed64_append) (subst tag_append, simp)

lemma appendVarint_F:
  "AppendVarint pw (AppendTag pw b num VarintType) v = b @ varF pw num v"
  unfolding varF_def by (subst varint_append) (subst tag_append, simp)

lemma appendUintField_F: "appendUintField pw b num v = b @ uintF pw num v"
  by (simp add: appendUintField_def uintF_def appendVarintField_F)

lemma appendBoolField_F: "appendBoolField pw b num v = b @ uintF pw num (if v then 1 else 0)"
  by (simp add: appendBoolField_def uintF_def appendVarintField_F)

lemma appendInt32Field_F: "appendInt32Field pw b num v = b @ uintF pw num (scast v)"
  by (simp add: appendInt32Field_def uintF_def appendVarintField_F)

lemma appendStringAlways_F: "appendStringAlways pw b num s = b @ msgF pw num (bytes_of_string s)"
  by (simp add: appendStringAlways_eq appendMessage_F)

lemma appendBytesAlways_F: "appendBytesAlways pw b num m = b @ msgF pw num m"
  by (simp add: appendBytesAlways_eq appendMessage_F)

lemma appendStringField_F: "appendStringField pw b num s = b @ strF pw num s"
  by (simp add: appendStringField_eq appendMessage_F strF_def)

lemma appendOffset_F: "appendOffset pw b num p = b @ ptrF (\<lambda>x. varF pw num (scast x)) p"
  by (simp add: appendOffset_def ptrF_def appendVarintField_F split: option.splits prod.splits)

lemma appendName_F: "appendName pw b num p = b @ ptrF (\<lambda>x. msgF pw num (bytes_of_string x)) p"
  by (simp add: appendName_def ptrF_def appendStringAlways_F split: option.splits prod.splits)

lemmas append_F = appendMessage_F appendVarintField_F appendFixed_F appendVarint_F appendUintField_F
  appendBoolField_F appendInt32Field_F appendStringAlways_F appendBytesAlways_F appendStringField_F
  appendOffset_F appendName_F

text \<open>One round of a loop on each of them. A field that is left out has the value that the local
  variable starts with.\<close>

lemma loop_msgF:
  assumes "1 \<le> num" "num < 2 ^ 29"
    and "body num BytesType (new_reader (AppendBytes pw [] m @ rest)) s = (Inr s2, new_reader rest)"
  shows "readLoop pw body (new_reader (msgF pw num m @ rest)) s = readLoop pw body (new_reader rest) s2"
  using assms tag_pos [of num BytesType]
  by (subst readLoop.simps) (simp add: msgF_def next_tag)

lemma loop_varF:
  assumes "1 \<le> num" "num < 2 ^ 29"
    and "body num VarintType (new_reader (AppendVarint pw [] v @ rest)) s = (Inr s2, new_reader rest)"
  shows "readLoop pw body (new_reader (varF pw num v @ rest)) s = readLoop pw body (new_reader rest) s2"
  using assms tag_pos [of num VarintType]
  by (subst readLoop.simps) (simp add: varF_def next_tag)

lemma loop_fixF:
  assumes "1 \<le> num" "num < 2 ^ 29"
    and "body num Fixed64Type (new_reader (AppendFixed64 pw [] v @ rest)) s = (Inr s2, new_reader rest)"
  shows "readLoop pw body (new_reader (fixF pw num v @ rest)) s = readLoop pw body (new_reader rest) s2"
  using assms tag_pos [of num Fixed64Type]
  by (subst readLoop.simps) (simp add: fixF_def next_tag)

lemma loop_uintF:
  assumes "1 \<le> num" "num < 2 ^ 29"
    and "body num VarintType (new_reader (AppendVarint pw [] v @ rest)) s = (Inr s2, new_reader rest)"
    and "v = 0 \<longrightarrow> s2 = s"
  shows "readLoop pw body (new_reader (uintF pw num v @ rest)) s = readLoop pw body (new_reader rest) s2"
  using assms by (auto simp: uintF_def intro: loop_varF)

lemma loop_strF:
  assumes "1 \<le> num" "num < 2 ^ 29"
    and "body num BytesType (new_reader (AppendBytes pw [] (bytes_of_string x) @ rest)) s
      = (Inr s2, new_reader rest)"
    and "x = [] \<longrightarrow> s2 = s"
  shows "readLoop pw body (new_reader (strF pw num x @ rest)) s = readLoop pw body (new_reader rest) s2"
  using assms by (auto simp: strF_def intro: loop_msgF)

lemmas loop_F = loop_msgF loop_varF loop_fixF loop_uintF loop_strF
  loop_msgF [where rest = "[]", simplified] loop_varF [where rest = "[]", simplified]
  loop_fixF [where rest = "[]", simplified] loop_uintF [where rest = "[]", simplified]
  loop_strF [where rest = "[]", simplified]

lemma msgF_length: "length m \<le> length (msgF pw num m)"
  by (simp add: msgF_def bytes_length trans_le_add2)

lemma strF_length: "length s \<le> length (strF pw num s)"
  using msgF_length [of "bytes_of_string s"] by (simp add: strF_def)

text \<open>The numbers that are narrowed after reading come back when they fit.\<close>

lemma read_w32: "rd_w32 pw num VarintType (new_reader (AppendVarint pw [] v @ rest))
    = (ucast v, new_reader rest)"
  by (simp add: rd_w32_def read_varint)

lemma read_u8: "rd_u8 pw num VarintType (new_reader (AppendVarint pw [] (ucast (x :: byte)) @ rest))
    = (x, new_reader rest)"
proof -
  have "\<not> (255 :: u64) < ucast x"
    using unsigned_less [of x, where ?'a = nat] by (simp add: word_less_nat_alt)
  then show ?thesis by (simp add: rd_u8_def read_varint clampU32_def)
qed

lemma read_bool: "rd_bool pw num VarintType (new_reader (AppendVarint pw [] v @ rest))
    = (v \<noteq> 0, new_reader rest)"
  by (simp add: rd_bool_def read_varint)

lemmas reads = read_w32 read_u8 read_bool read_varint read_str read_bytes read_fixed64
  read_w32 [where rest = "[]", simplified] read_u8 [where rest = "[]", simplified]
  read_bool [where rest = "[]", simplified] read_varint [where rest = "[]", simplified]
  read_str [where rest = "[]", simplified] read_bytes [where rest = "[]", simplified]
  read_fixed64 [where rest = "[]", simplified]

lemma date_fields:
  "readLoop pw (dateField pw) (new_reader (appendDate pw x)) \<lparr>dYear = 0, dMonth = 0, dDay = 0\<rparr>
    = (Inr x, new_reader [])"
  by (simp add: appendDate_def append_F Let_def loop_F dateField_def setField_def reads)

lemmas fields = append_F Let_def loop_F setField_def reads

lemma fields_done: "readLoop pw body (new_reader msg) s = (Inr s2, new_reader []) \<Longrightarrow>
    readFields pw body msg s = Inr s2"
  by (simp add: readFields_def)

lemma timeDelta_fields:
  "readLoop pw (timeDeltaField pw) (new_reader (appendTimeDelta pw x))
     \<lparr>tdDays = 0, tdSeconds = 0, tdMicroseconds = 0\<rparr> = (Inr x, new_reader [])"
  by (simp add: appendTimeDelta_def timeDeltaField_def fields)

lemma time_fields:
  assumes "length (appendTime pw x) < 2 ^ 63"
  shows "readLoop pw (timeField pw) (new_reader (appendTime pw x)) (zeroTime, ds)
    = (case place (tOffset x) (dNext ds) of (off, a) \<Rightarrow>
        (case place (tZone x) a of (zone, a) \<Rightarrow>
           (Inr (x\<lparr>tOffset := off, tZone := zone\<rparr>, ds\<lparr>dNext := a\<rparr>), new_reader [])))"
proof -
  have "length n < 2 ^ 63" if "tZone x = Some (q, n)" for q n
    using assms msgF_length [of "bytes_of_string n" 6] that
    by (simp add: appendTime_def append_F Let_def ptrF_def)
  then show ?thesis
    by (cases "tOffset x"; cases "tZone x")
      (auto simp: appendTime_def timeField_def zeroTime_def place_def ptrF_def setPtr_def alloc_def
        fields)
qed

lemma dateTime_fields:
  assumes "length (appendDateTime pw x) < 2 ^ 63"
  shows "readLoop pw (dateTimeField pw) (new_reader (appendDateTime pw x)) (zeroDateTime, ds)
    = (case place (dtOffset x) (dNext ds) of (off, a) \<Rightarrow>
        (case place (dtZone x) a of (zone, a) \<Rightarrow>
           (Inr (x\<lparr>dtOffset := off, dtZone := zone\<rparr>, ds\<lparr>dNext := a\<rparr>), new_reader [])))"
proof -
  have "length n < 2 ^ 63" if "dtZone x = Some (q, n)" for q n
    using assms msgF_length [of "bytes_of_string n" 9] that
    by (simp add: appendDateTime_def append_F Let_def ptrF_def)
  then show ?thesis
    by (cases "dtOffset x"; cases "dtZone x")
      (auto simp: appendDateTime_def dateTimeField_def zeroDateTime_def place_def ptrF_def setPtr_def
        alloc_def fields)
qed

lemma timeZone_fields:
  assumes "length (appendTimeZoneBody pw [] x) < 2 ^ 63"
  shows "readLoop pw (timeZoneField pw) (new_reader (appendTimeZoneBody pw [] x))
      (\<lparr>tzOffset = 0, tzName = None\<rparr>, ds)
    = (case place (tzName x) (dNext ds) of (name, a) \<Rightarrow>
        (Inr (x\<lparr>tzName := name\<rparr>, ds\<lparr>dNext := a\<rparr>), new_reader []))"
proof -
  have "length n < 2 ^ 63" if "tzName x = Some (q, n)" for q n
    using assms msgF_length [of "bytes_of_string n" 2] that
    by (simp add: appendTimeZoneBody_def append_F Let_def)
  then show ?thesis
    by (cases "tzName x")
      (auto simp: appendTimeZoneBody_def timeZoneField_def place_def setPtr_def alloc_def fields)
qed

end

section \<open>Numbers\<close>

lemma big_roundtrip: "big_of_bytes (big_bytes n) = n"
proof -
  have "le_nat (be_rev n) = n"
  proof (induction n rule: be_rev.induct)
    case (1 n)
    then show ?case by (subst be_rev.simps) (simp add: unat_byte)
  qed
  then show ?thesis by (simp add: big_of_bytes_def big_bytes_def)
qed

lemma bitlen_bounds: "0 < n \<Longrightarrow> 2 ^ (bitlen n - 1) \<le> n \<and> n < 2 ^ bitlen n"
proof (induction n rule: bitlen.induct)
  case (1 n)
  show ?case
  proof (cases "n div 2 = 0")
    case True
    with "1.prems" have "n = 1" by simp
    then show ?thesis by (simp add: bitlen.simps)
  next
    case False
    define k where "k = bitlen (n div 2 div 2)"
    from False have k: "bitlen (n div 2) = Suc k" by (subst bitlen.simps) (simp add: k_def)
    with False 1 have "2 ^ k \<le> n div 2" "n div 2 < 2 ^ Suc k" by auto
    then have "2 * 2 ^ k \<le> n" "n < 2 * 2 ^ Suc k" by auto
    with k "1.prems" show ?thesis by (subst (1 2) bitlen.simps) simp
  qed
qed

lemma bitlen_53: "2 ^ 52 \<le> m \<Longrightarrow> m < 2 ^ 53 \<Longrightarrow> bitlen m = 53"
proof -
  assume m: "2 ^ 52 \<le> m" "m < 2 ^ 53"
  then have b: "2 ^ (bitlen m - 1) \<le> m" "m < 2 ^ bitlen m" using bitlen_bounds [of m] by simp_all
  then have "(2 :: nat) ^ 52 < 2 ^ bitlen m" "(2 :: nat) ^ (bitlen m - 1) < 2 ^ 53"
    using m by linarith+
  then have "52 < bitlen m" "bitlen m - 1 < 53"
    by (simp_all only: power_strict_increasing_iff [of 2] one_less_numeral_iff semiring_norm)
  then show ?thesis by simp
qed

lemma bitlen_52: "m < 2 ^ 52 \<Longrightarrow> bitlen m \<le> 52"
proof (cases "m = 0")
  case False
  assume "m < 2 ^ 52"
  with False bitlen_bounds [of m] have "(2 :: nat) ^ (bitlen m - 1) < 2 ^ 52" by simp
  then have "bitlen m - 1 < 52"
    by (simp only: power_strict_increasing_iff [of 2] one_less_numeral_iff semiring_norm)
  then show ?thesis by simp
qed (simp add: bitlen.simps)

text \<open>The sign, the exponent and the fraction of a bit pattern.\<close>

lemma float_parts:
  fixes x fr :: nat
  assumes "x < 2048" "fr < 2 ^ 52" and sb: "sb = (if neg then 2 ^ 63 else 0)"
  shows "sb + (x * 2 ^ 52 + fr) < 2 ^ 64" and "(2 ^ 63 \<le> sb + (x * 2 ^ 52 + fr)) = neg"
    and "(sb + (x * 2 ^ 52 + fr)) div 2 ^ 52 mod 2048 = x"
    and "(sb + (x * 2 ^ 52 + fr)) mod 2 ^ 52 = fr"
proof -
  have "x * 2 ^ 52 + fr < 2 ^ 63" using assms(1,2) by simp
  then show "sb + (x * 2 ^ 52 + fr) < 2 ^ 64" "(2 ^ 63 \<le> sb + (x * 2 ^ 52 + fr)) = neg"
    by (auto simp: sb)
  have eq: "sb + (x * 2 ^ 52 + fr) = fr + (sb div 2 ^ 52 + x) * 2 ^ 52" by (simp add: sb)
  show "(sb + (x * 2 ^ 52 + fr)) mod 2 ^ 52 = fr"
    unfolding eq using assms(2) by (subst mod_mult_self1) simp
  have "(sb + (x * 2 ^ 52 + fr)) div 2 ^ 52 = sb div 2 ^ 52 + x"
    unfolding eq using assms(2) by (subst div_mult_self1) simp_all
  moreover have "(sb div 2 ^ 52 + x) mod 2048 = x" using assms(1) by (simp add: sb)
  ultimately show "(sb + (x * 2 ^ 52 + fr)) div 2 ^ 52 mod 2048 = x" by simp
qed

text \<open>A normalised float comes back from its bits.\<close>

lemma float_roundtrip: "float_ok f \<Longrightarrow> Float64frombits (Float64bits f) = f"
proof (cases f)
  case FNaN
  then show ?thesis by (simp add: Float64bits_def Float64frombits_def Let_def)
next
  case (FInf neg)
  then show ?thesis by (cases neg) (simp_all add: Float64bits_def Float64frombits_def Let_def)
next
  case (FFin neg m e)
  assume ok: "float_ok f"
  define sb :: nat where "sb = (if neg then 2 ^ 63 else 0)"
  have word: "unat (of_nat k :: u64) = k" if "k < 2 ^ 64" for k
    using that by (simp add: unat_of_nat)
  show ?thesis
  proof (cases "m < 2 ^ 52")
    case True
    with ok FFin have e: "e = - 1074" by (auto simp: float_ok_def)
    have "norm64 m e = (m, e)"
      using bitlen_52 [OF True] by (simp add: norm64_def e Let_def)
    with True have bits: "Float64bits f = of_nat (sb + (0 * 2 ^ 52 + m))"
      by (simp add: Float64bits_def FFin sb_def)
    note k = float_parts [of 0 m sb neg, OF _ True sb_def]
    show ?thesis
      unfolding bits Float64frombits_def Let_def using k
      by (simp only: word zero_less_numeral simp_thms if_False if_True FFin e zero_neq_numeral)
  next
    case False
    with ok FFin have m: "2 ^ 52 \<le> m" "m < 2 ^ 53" "- 1074 \<le> e" "e \<le> 971"
      by (auto simp: float_ok_def)
    have "norm64 m e = (m, e)"
      using bitlen_53 [OF m(1,2)] m by (simp add: norm64_def Let_def)
    moreover define x where "x = nat (e + 1075)"
    moreover define fr where "fr = m - 2 ^ 52"
    ultimately have bits: "Float64bits f = of_nat (sb + (x * 2 ^ 52 + fr))"
      using False by (simp add: Float64bits_def FFin sb_def)
    have x: "x < 2048" "x \<noteq> 2047" "x \<noteq> 0" "int x - 1075 = e" and fr: "fr < 2 ^ 52" "fr + 2 ^ 52 = m"
      using m by (auto simp: x_def fr_def)
    note k = float_parts [OF x(1) fr(1) sb_def]
    show ?thesis
      unfolding bits Float64frombits_def Let_def using k x fr
      by (simp only: word simp_thms if_False FFin)
  qed
qed

section \<open>Paying for a value\<close>

definition affords :: "nat \<Rightarrow> dstate \<Rightarrow> bool" where
  "affords n ds \<longleftrightarrow> (case dRemaining ds of None \<Rightarrow> True | Some m \<Rightarrow> int n \<le> m)"

definition paid :: "nat \<Rightarrow> dstate \<Rightarrow> dstate" where
  "paid n ds = ds\<lparr>dRemaining := map_option (\<lambda>m. m - int n) (dRemaining ds)\<rparr>"

lemma charge_paid: "affords n ds \<Longrightarrow> charge n ds = Inr (paid n ds)"
  by (cases "dRemaining ds") (auto simp: affords_def charge_def paid_def)

lemma affords_paid [simp]: "affords k (paid n ds) \<longleftrightarrow> dRemaining ds = None \<or> affords (n + k) ds"
  by (cases "dRemaining ds") (auto simp: affords_def paid_def)

lemma affords_addr [simp]: "affords n (ds\<lparr>dNext := a\<rparr>) = affords n ds"
  by (simp add: affords_def)

lemma affords_less: "affords n ds \<Longrightarrow> k \<le> n \<Longrightarrow> affords k ds"
  by (auto simp: affords_def split: option.splits)

lemma paid_next [simp]: "dNext (paid n ds) = dNext ds"
  by (simp add: paid_def)

lemma paid_addr [simp]: "paid n (ds\<lparr>dNext := a\<rparr>) = (paid n ds)\<lparr>dNext := a\<rparr>"
  by (simp add: paid_def)

lemma paid_zero [simp]: "paid 0 ds = ds"
  by (simp add: paid_def option.map_ident)

lemma paid_paid [simp]: "paid k (paid n ds) = paid (n + k) ds"
  by (cases "dRemaining ds") (simp_all add: paid_def)

lemma next_same [simp]: "ds\<lparr>dNext := dNext ds\<rparr> = ds"
  by simp

text \<open>The result of decoding \<open>v\<close>, and of decoding a list or pairs of values in turn.\<close>

definition arrived :: "pyval \<Rightarrow> dstate \<Rightarrow> pyval \<times> dstate" where
  "arrived v ds =
     (case arrive v (dNext ds) of (w, a) \<Rightarrow> (w, (paid (resident v) ds)\<lparr>dNext := a\<rparr>))"

definition decodes :: "protowire \<Rightarrow> nat \<Rightarrow> pyval \<Rightarrow> bytes \<Rightarrow> bool" where
  "decodes pw depth v body \<longleftrightarrow>
     (\<forall>ds. affords (resident v) ds \<longrightarrow> decodeValue pw depth body ds = Inr (arrived v ds))"

text \<open>The three groups of values that have no values inside.\<close>

definition is_scalar :: "pyval \<Rightarrow> bool" where
  "is_scalar v \<longleftrightarrow>
     (case v of
        VNone \<Rightarrow> True | VEllipsis \<Rightarrow> True | VNotImplemented \<Rightarrow> True | VBool q \<Rightarrow> True | VInt t x \<Rightarrow> True
      | VBig b \<Rightarrow> True | VFloat32 f \<Rightarrow> True | VFloat64 f \<Rightarrow> True | VStr s \<Rightarrow> True | VBytes m \<Rightarrow> True
      | VBuiltinFunction s \<Rightarrow> True | VPath s \<Rightarrow> True | _ \<Rightarrow> False)"

definition is_struct :: "pyval \<Rightarrow> bool" where
  "is_struct v \<longleftrightarrow>
     (case v of
        VDate d \<Rightarrow> True | VTime t \<Rightarrow> True | VDateTime dt \<Rightarrow> True | VTimeDelta td \<Rightarrow> True
      | VTimeZone tz \<Rightarrow> True | _ \<Rightarrow> False)"

definition is_text :: "pyval \<Rightarrow> bool" where
  "is_text v \<longleftrightarrow>
     (case v of
        VException s m \<Rightarrow> True | VFunction s doc \<Rightarrow> True | VFileHandle q s m pos \<Rightarrow> True
      | VFileHandleVal s m pos \<Rightarrow> True | _ \<Rightarrow> False)"

text \<open>The fields of a type before its attributes.\<close>

definition typeHead :: "protowire \<Rightarrow> string \<Rightarrow> bytes \<Rightarrow> typeOrigin \<Rightarrow> bool \<Rightarrow> bytes" where
  "typeHead pw n idf origin dc =
     strF pw 1 n @ idf @ uintF pw 3 (ucast origin) @ uintF pw 4 (if dc then 1 else 0)"

context protowire_format
begin

lemma appendItems_app:
  "appendItems pw num b xs = map_sum (\<lambda>e. e) (\<lambda>t. b @ t) (appendItems pw num [] xs)"
proof (induction xs arbitrary: b)
  case Nil
  then show ?case by simp
next
  case (Cons x xs)
  show ?case
    by (cases "AppendValue pw [] x")
      (simp_all add: valueField_def appendMessage_F Cons [of "b @ _"] Cons [of "msgF _ _ _"]
        sum.map_comp comp_def)
qed

lemma appendItems_Cons:
  assumes "appendItems pw num [] (x # xs) = Inr m"
  obtains bx t where "AppendValue pw [] x = Inr bx" "appendItems pw num [] xs = Inr t"
    "m = msgF pw num bx @ t"
proof -
  obtain bx where bx: "AppendValue pw [] x = Inr bx"
    using assms by (cases "AppendValue pw [] x") (simp_all add: valueField_def)
  then have m: "map_sum (\<lambda>e. e) (\<lambda>t. msgF pw num bx @ t) (appendItems pw num [] xs) = Inr m"
    using assms appendItems_app [of num "msgF pw num bx" xs]
    by (simp add: valueField_def appendMessage_F)
  then obtain t where "appendItems pw num [] xs = Inr t"
    by (cases "appendItems pw num [] xs") simp_all
  with bx m that show thesis by simp
qed

lemma items_loop:
  assumes step: "\<And>m rest acc ds v ds2. length m < 2 ^ 63 \<Longrightarrow> decodeValue pw d m ds = Inr (v, ds2) \<Longrightarrow>
      F num BytesType (new_reader (AppendBytes pw [] m @ rest)) (S acc ds)
        = (Inr (S (acc @ [v]) ds2), new_reader rest)"
    and num: "1 \<le> num" "num < 2 ^ 29"
    and elems: "\<And>x bx. x \<in> set xs \<Longrightarrow> AppendValue pw [] x = Inr bx \<Longrightarrow> length bx < 2 ^ 63 \<Longrightarrow>
      decodes pw d x bx"
    and enc: "appendItems pw num [] xs = Inr m" and len: "length m < 2 ^ 63"
    and pay: "affords (residentItems xs) ds"
  shows "readLoop pw F (new_reader (m @ rest)) (S acc ds)
    = (case arriveItems xs (dNext ds) of (ys, a) \<Rightarrow>
        readLoop pw F (new_reader rest) (S (acc @ ys) ((paid (residentItems xs) ds)\<lparr>dNext := a\<rparr>)))"
  using elems enc len pay
proof (induction xs arbitrary: m ds acc)
  case Nil
  then show ?case by simp
next
  case (Cons x xs)
  obtain bx t where bx: "AppendValue pw [] x = Inr bx" "appendItems pw num [] xs = Inr t"
    "m = msgF pw num bx @ t" using Cons.prems(2) by (rule appendItems_Cons)
  have len: "length bx < 2 ^ 63" "length t < 2 ^ 63"
    using Cons.prems(3) msgF_length [of bx num] by (simp_all add: bx)
  have pay: "affords (resident x) ds" using Cons.prems(4) by (auto intro: affords_less)
  obtain y a where y: "arrive x (dNext ds) = (y, a)" by fastforce
  have "decodeValue pw d bx ds = Inr (arrived x ds)"
    using Cons.prems(1) [OF _ bx(1) len(1)] pay by (auto simp: decodes_def)
  then have dv: "decodeValue pw d bx ds = Inr (y, (paid (resident x) ds)\<lparr>dNext := a\<rparr>)"
    by (simp add: arrived_def y)
  have pay2: "affords (residentItems xs) ((paid (resident x) ds)\<lparr>dNext := a\<rparr>)"
    using Cons.prems(4) by simp
  have IH: "readLoop pw F (new_reader (t @ rest)) (S acc2 ds2)
      = (case arriveItems xs (dNext ds2) of (ys, a) \<Rightarrow>
          readLoop pw F (new_reader rest) (S (acc2 @ ys) ((paid (residentItems xs) ds2)\<lparr>dNext := a\<rparr>)))"
    if "affords (residentItems xs) ds2" for acc2 ds2
    using Cons.IH [OF _ bx(2) len(2) that] Cons.prems(1) by auto
  show ?case
    using loop_msgF [of num F bx "t @ rest" "S acc ds", OF num step [OF len(1) dv]]
    by (simp add: bx IH [OF pay2] y split: prod.splits)
qed

lemma pair_decodes:
  assumes k: "decodes pw d k bk" "length bk < 2 ^ 63" and v: "decodes pw d v bv" "length bv < 2 ^ 63"
    and pay: "affords (resident k + resident v) ds"
  shows "decodePair pw (decodeValue pw d) (msgF pw 1 bk @ msgF pw 2 bv) ds
    = (case arrive k (dNext ds) of (k2, a) \<Rightarrow>
        (case arrive v a of (v2, a) \<Rightarrow>
           Inr ((k2, v2), (paid (resident k + resident v) ds)\<lparr>dNext := a\<rparr>)))"
proof -
  obtain k2 a where ka: "arrive k (dNext ds) = (k2, a)" by fastforce
  obtain v2 a2 where va: "arrive v a = (v2, a2)" by fastforce
  define ds1 where "ds1 = (paid (resident k) ds)\<lparr>dNext := a\<rparr>"
  have dk: "decodeValue pw d bk ds = Inr (k2, ds1)"
    using k(1) affords_less [OF pay, of "resident k"]
    by (simp add: decodes_def arrived_def ka ds1_def)
  have dv: "decodeValue pw d bv ds1 = Inr (v2, (paid (resident k + resident v) ds)\<lparr>dNext := a2\<rparr>)"
    using v(1) pay by (simp add: decodes_def arrived_def va ds1_def)
  show ?thesis
    using k(2) v(2) by (simp add: decodePair_def readFields_def loop_F subField_def reads dk dv ka va)
qed

lemma appendDictBody_app:
  "appendDictBody pw b ps = map_sum (\<lambda>e. e) (\<lambda>t. b @ t) (appendDictBody pw [] ps)"
proof (induction ps arbitrary: b)
  case Nil
  then show ?case by simp
next
  case (Cons kv ps)
  show ?case
    by (cases kv; cases "AppendValue pw [] (fst kv)"; cases "AppendValue pw [] (snd kv)")
      (simp_all add: valueField_def appendMessage_F Cons [of "b @ _"] Cons [of "msgF _ _ _"]
        sum.map_comp comp_def)
qed

lemma appendDictBody_Cons:
  assumes "appendDictBody pw [] ((k, v) # ps) = Inr m"
  obtains bk bv t where "AppendValue pw [] k = Inr bk" "AppendValue pw [] v = Inr bv"
    "appendDictBody pw [] ps = Inr t" "m = msgF pw 1 (msgF pw 1 bk @ msgF pw 2 bv) @ t"
proof -
  obtain bk where bk: "AppendValue pw [] k = Inr bk"
    using assms by (cases "AppendValue pw [] k") (simp_all add: valueField_def)
  obtain bv where bv: "AppendValue pw [] v = Inr bv"
    using assms bk by (cases "AppendValue pw [] v") (simp_all add: valueField_def)
  let ?p = "msgF pw 1 (msgF pw 1 bk @ msgF pw 2 bv)"
  have m: "map_sum (\<lambda>e. e) (\<lambda>t. ?p @ t) (appendDictBody pw [] ps) = Inr m"
    using assms bk bv appendDictBody_app [of ?p ps] by (simp add: valueField_def appendMessage_F)
  then obtain t where "appendDictBody pw [] ps = Inr t"
    by (cases "appendDictBody pw [] ps") simp_all
  with bk bv m that show thesis by simp
qed

lemma dict_loop:
  assumes elems: "\<And>x bx. x \<in> fst ` set ps \<union> snd ` set ps \<Longrightarrow> AppendValue pw [] x = Inr bx \<Longrightarrow>
      length bx < 2 ^ 63 \<Longrightarrow> decodes pw d x bx"
    and enc: "appendDictBody pw [] ps = Inr m" and len: "length m < 2 ^ 63"
    and pay: "affords (residentPairs ps) ds"
    and F: "F = (\<lambda>num ty r (acc, ds).
      if num \<noteq> 1 then (Inr (acc, ds), rd_skip pw num ty r)
      else subField (rd_bytes pw num ty r) ds (decodePair pw (decodeValue pw d))
        (\<lambda>kv ds. (acc @ [kv], ds)))"
  shows "readLoop pw F (new_reader m) (acc, ds)
    = (case arrivePairs ps (dNext ds) of (qs, a) \<Rightarrow>
        (Inr (acc @ qs, (paid (residentPairs ps) ds)\<lparr>dNext := a\<rparr>), new_reader []))"
  using elems enc len pay
proof (induction ps arbitrary: m ds acc)
  case Nil
  then show ?case by simp
next
  case (Cons kv ps)
  obtain k v where kv: "kv = (k, v)" by fastforce
  obtain bk bv t where b: "AppendValue pw [] k = Inr bk" "AppendValue pw [] v = Inr bv"
    "appendDictBody pw [] ps = Inr t" "m = msgF pw 1 (msgF pw 1 bk @ msgF pw 2 bv) @ t"
    using Cons.prems(2) unfolding kv by (rule appendDictBody_Cons)
  let ?p = "msgF pw 1 bk @ msgF pw 2 bv"
  have len: "length ?p < 2 ^ 63" "length bk < 2 ^ 63" "length bv < 2 ^ 63" "length t < 2 ^ 63"
    using Cons.prems(3) msgF_length [of ?p 1] msgF_length [of bk 1] msgF_length [of bv 2]
    by (simp_all add: b)
  have dk: "decodes pw d k bk" and dv: "decodes pw d v bv"
    using Cons.prems(1) b(1,2) len(2,3) by (auto simp: kv)
  have pay: "affords (resident k + resident v) ds"
    using Cons.prems(4) by (auto simp: kv intro: affords_less)
  obtain k2 a where ka: "arrive k (dNext ds) = (k2, a)" by fastforce
  obtain v2 a2 where va: "arrive v a = (v2, a2)" by fastforce
  have dp: "decodePair pw (decodeValue pw d) ?p ds
      = Inr ((k2, v2), (paid (resident k + resident v) ds)\<lparr>dNext := a2\<rparr>)"
    using pair_decodes [OF dk len(2) dv len(3) pay] by (simp add: ka va)
  have step: "F 1 BytesType (new_reader (AppendBytes pw [] ?p @ t)) (acc, ds)
      = (Inr (acc @ [(k2, v2)], (paid (resident k + resident v) ds)\<lparr>dNext := a2\<rparr>), new_reader t)"
    using len(1) by (simp add: F subField_def reads dp)
  have pay2: "affords (residentPairs ps) ((paid (resident k + resident v) ds)\<lparr>dNext := a2\<rparr>)"
    using Cons.prems(4) by (simp add: kv)
  have IH: "readLoop pw F (new_reader t) (acc2, ds2)
      = (case arrivePairs ps (dNext ds2) of (qs, a) \<Rightarrow>
          (Inr (acc2 @ qs, (paid (residentPairs ps) ds2)\<lparr>dNext := a\<rparr>), new_reader []))"
    if "affords (residentPairs ps) ds2" for acc2 ds2
    using Cons.IH [OF _ b(3) len(4) that] Cons.prems(1) by auto
  show ?case
    using loop_msgF [of 1 F ?p t "(acc, ds)", OF _ _ step]
    by (simp add: b IH [OF pay2] kv ka va split: prod.splits)
qed

lemma dict_decodes:
  assumes "\<And>x bx. x \<in> fst ` set ps \<union> snd ` set ps \<Longrightarrow> AppendValue pw [] x = Inr bx \<Longrightarrow>
      length bx < 2 ^ 63 \<Longrightarrow> decodes pw d x bx"
    and "appendDictBody pw [] ps = Inr m" and "length m < 2 ^ 63" and "affords (residentPairs ps) ds"
  shows "decodeDict pw (decodeValue pw d) m ds
    = (case arrivePairs ps (dNext ds) of (qs, a) \<Rightarrow>
        Inr (qs, (paid (residentPairs ps) ds)\<lparr>dNext := a\<rparr>))"
  using dict_loop [OF assms refl, where acc = "[]"]
  by (simp add: decodeDict_def readFields_def split: prod.splits)

lemma list_decodes:
  assumes "\<And>x bx. x \<in> set xs \<Longrightarrow> AppendValue pw [] x = Inr bx \<Longrightarrow> length bx < 2 ^ 63 \<Longrightarrow>
      decodes pw d x bx"
    and "appendItems pw 1 [] xs = Inr m" and "length m < 2 ^ 63" and "affords (residentItems xs) ds"
  shows "decodeObjectList pw (decodeValue pw d) m ds
    = (case arriveItems xs (dNext ds) of (ys, a) \<Rightarrow>
        Inr (ys, (paid (residentItems xs) ds)\<lparr>dNext := a\<rparr>))"
proof -
  let ?F = "\<lambda>num ty r (items, ds).
    if num \<noteq> 1 then (Inr (items, ds), rd_skip pw num ty r)
    else subField (rd_bytes pw num ty r) ds (decodeValue pw d) (\<lambda>v ds. (items @ [v], ds))"
  have step: "?F 1 BytesType (new_reader (AppendBytes pw [] m @ rest)) (acc, ds)
      = (Inr (acc @ [v], ds2), new_reader rest)"
    if "length m < 2 ^ 63" "decodeValue pw d m ds = Inr (v, ds2)" for m rest acc ds v ds2
    using that by (simp add: subField_def reads)
  show ?thesis
    using items_loop [of d ?F 1 "\<lambda>acc ds. (acc, ds)" xs m ds "[]" "[]", OF step] assms
    by (simp add: decodeObjectList_def readFields_def split: prod.splits)
qed

lemma uuid_message:
  assumes "uuid_ok u"
  obtains raw where "appendUUIDMessage pw b num u = Inr (b @ msgF pw num (msgF pw 1 raw))"
    "decodeUUIDMessage pw (msgF pw 1 raw) = Inr u" "u \<noteq> []"
proof -
  obtain raw where raw: "ParseUUID u = Inr raw" "FormatUUID raw = Inr u"
    using assms by (auto simp: uuid_ok_def split: sum.splits)
  have len: "length raw = 16" using raw(2) by (simp add: FormatUUID_def split: if_splits)
  have "u \<noteq> []" using raw(1) by (auto simp: ParseUUID_def)
  moreover have "decodeUUIDMessage pw (msgF pw 1 raw) = Inr u"
    using raw(2) by (simp add: decodeUUIDMessage_def readFields_def loop_F reads len)
  moreover have "appendUUIDMessage pw b num u = Inr (b @ msgF pw num (msgF pw 1 raw))"
    by (simp add: appendUUIDMessage_def raw(1) append_F)
  ultimately show thesis using that by blast
qed

lemma type_id:
  assumes "wireableType (PyType n u origin dc attrs)"
  obtains idf where
    "(if u \<noteq> [] then appendUUIDMessage pw (strF pw 1 n) 2 u else Inr (strF pw 1 n))
      = Inr (strF pw 1 n @ idf)"
    "\<And>dv rest s ds. length idf < 2 ^ 63 \<Longrightarrow>
      readLoop pw (typeField pw dv) (new_reader (idf @ rest)) (s, ds)
      = readLoop pw (typeField pw dv) (new_reader rest)
          (if u = [] then s else s\<lparr>tfID := Some u\<rparr>, ds)"
proof (cases "u = []")
  case True
  then show thesis using that [of "[]"] by simp
next
  case False
  with assms have "uuid_ok u" by (auto split: if_splits)
  then obtain raw where raw: "decodeUUIDMessage pw (msgF pw 1 raw) = Inr u"
    "appendUUIDMessage pw (strF pw 1 n) 2 u = Inr (strF pw 1 n @ msgF pw 2 (msgF pw 1 raw))"
    by (rule uuid_message)
  show thesis
  proof (rule that)
    show "(if u \<noteq> [] then appendUUIDMessage pw (strF pw 1 n) 2 u else Inr (strF pw 1 n))
        = Inr (strF pw 1 n @ msgF pw 2 (msgF pw 1 raw))" using raw False by simp
    fix dv rest s ds
    assume "length (msgF pw 2 (msgF pw 1 raw)) < 2 ^ 63"
    then have "length (msgF pw 1 raw) < 2 ^ 63" using msgF_length [of "msgF pw 1 raw" 2] by linarith
    then show "readLoop pw (typeField pw dv) (new_reader (msgF pw 2 (msgF pw 1 raw) @ rest)) (s, ds)
      = readLoop pw (typeField pw dv) (new_reader rest)
          (if u = [] then s else s\<lparr>tfID := Some u\<rparr>, ds)"
      using raw False by (simp add: loop_F typeField_def subField_def reads)
  qed
qed

lemma type_head:
  assumes "wireableType (PyType n u origin dc attrs)"
  obtains idf where
    "appendTypeBody pw [] (PyType n u origin dc attrs)
      = (if attrPairs attrs = [] then Inr (typeHead pw n idf origin dc)
         else valueField pw (typeHead pw n idf origin dc) 5 (appendDictBody pw [] (attrPairs attrs)))"
    "\<And>dv rest ds. length (typeHead pw n idf origin dc) < 2 ^ 63 \<Longrightarrow>
      readLoop pw (typeField pw dv) (new_reader (typeHead pw n idf origin dc @ rest))
        (\<lparr>tfName = [], tfID = None, tfOrigin = OriginUnspecified, tfDataclass = False,
          tfAttrs = None\<rparr>, ds)
      = readLoop pw (typeField pw dv) (new_reader rest)
          (\<lparr>tfName = n, tfID = (if u = [] then None else Some u), tfOrigin = origin,
            tfDataclass = dc, tfAttrs = None\<rparr>, ds)"
proof -
  obtain idf where idf:
    "(if u \<noteq> [] then appendUUIDMessage pw (strF pw 1 n) 2 u else Inr (strF pw 1 n))
      = Inr (strF pw 1 n @ idf)"
    "\<And>dv rest s ds. length idf < 2 ^ 63 \<Longrightarrow>
      readLoop pw (typeField pw dv) (new_reader (idf @ rest)) (s, ds)
      = readLoop pw (typeField pw dv) (new_reader rest)
          (if u = [] then s else s\<lparr>tfID := Some u\<rparr>, ds)"
    using assms by (rule type_id) (erule that, assumption)
  show thesis
  proof (rule that [of idf])
    show "appendTypeBody pw [] (PyType n u origin dc attrs)
        = (if attrPairs attrs = [] then Inr (typeHead pw n idf origin dc)
           else valueField pw (typeHead pw n idf origin dc) 5 (appendDictBody pw [] (attrPairs attrs)))"
      by (simp add: append_F idf(1) Let_def typeHead_def)
    fix dv rest ds
    assume "length (typeHead pw n idf origin dc) < 2 ^ 63"
    then have "length n < 2 ^ 63" "length idf < 2 ^ 63"
      using strF_length [of n 1] by (simp_all add: typeHead_def)
    then show "readLoop pw (typeField pw dv) (new_reader (typeHead pw n idf origin dc @ rest))
        (\<lparr>tfName = [], tfID = None, tfOrigin = OriginUnspecified, tfDataclass = False,
          tfAttrs = None\<rparr>, ds)
      = readLoop pw (typeField pw dv) (new_reader rest)
          (\<lparr>tfName = n, tfID = (if u = [] then None else Some u), tfOrigin = origin,
            tfDataclass = dc, tfAttrs = None\<rparr>, ds)"
      by (simp add: typeHead_def loop_F idf(2) typeField_def setField_def reads OriginUnspecified_def)
  qed
qed

lemma type_decodes:
  assumes ok: "wireableType t" and enc: "appendTypeBody pw [] t = Inr m" and len: "length m < 2 ^ 63"
    and elems: "\<And>x bx. x \<in> fst ` set (attrPairs (tyAttrs t)) \<union> snd ` set (attrPairs (tyAttrs t)) \<Longrightarrow>
      AppendValue pw [] x = Inr bx \<Longrightarrow> length bx < 2 ^ 63 \<Longrightarrow> decodes pw d x bx"
    and pay: "affords (residentType t) ds"
  shows "decodeType pw (decodeValue pw d) m ds
    = (case arriveType t (dNext ds) of (t2, a) \<Rightarrow> Inr (t2, (paid (residentType t) ds)\<lparr>dNext := a\<rparr>))"
proof -
  obtain n u origin dc attrs where t: "t = PyType n u origin dc attrs" by (cases t)
  define ps where "ps = attrPairs attrs"
  obtain idf where body: "appendTypeBody pw [] t
      = (if ps = [] then Inr (typeHead pw n idf origin dc)
         else valueField pw (typeHead pw n idf origin dc) 5 (appendDictBody pw [] ps))"
    and head: "\<And>dv rest ds. length (typeHead pw n idf origin dc) < 2 ^ 63 \<Longrightarrow>
      readLoop pw (typeField pw dv) (new_reader (typeHead pw n idf origin dc @ rest))
        (\<lparr>tfName = [], tfID = None, tfOrigin = OriginUnspecified, tfDataclass = False,
          tfAttrs = None\<rparr>, ds)
      = readLoop pw (typeField pw dv) (new_reader rest)
          (\<lparr>tfName = n, tfID = (if u = [] then None else Some u), tfOrigin = origin,
            tfDataclass = dc, tfAttrs = None\<rparr>, ds)"
    using ok unfolding t ps_def by (rule type_head) (erule that [unfolded t ps_def], assumption)
  show ?thesis
  proof (cases "ps = []")
    case True
    then have m: "m = typeHead pw n idf origin dc" using enc body by simp
    show ?thesis
      using head [of "decodeValue pw d" "[]" ds] ok True len
      by (auto simp: decodeType_def readFields_def m t Let_def storeAttrs_def simp flip: ps_def
          split: if_splits)
  next
    case False
    then obtain ats where ats: "appendDictBody pw [] ps = Inr ats"
      and m: "m = typeHead pw n idf origin dc @ msgF pw 5 ats"
      using enc body by (cases "appendDictBody pw [] ps") (simp_all add: append_F valueField_def)
    have small: "length (typeHead pw n idf origin dc) < 2 ^ 63" "length ats < 2 ^ 63"
      using len msgF_length [of ats 5] by (simp_all add: m)
    have "affords (residentPairs ps) ds" using pay by (simp add: t ps_def)
    then have dict: "decodeDict pw (decodeValue pw d) ats ds
      = (case arrivePairs ps (dNext ds) of (qs, a) \<Rightarrow>
          Inr (qs, (paid (residentPairs ps) ds)\<lparr>dNext := a\<rparr>))"
      using dict_decodes [of ps d ats ds] elems ats small(2) by (simp add: t ps_def)
    obtain qs a where qs: "arrivePairs ps (dNext ds) = (qs, a)" by fastforce
    have "qs \<noteq> []" using qs False by (cases ps) (auto split: prod.splits)
    then show ?thesis
      using head [of "decodeValue pw d" "msgF pw 5 ats" ds] ok small dict False
      by (auto simp: decodeType_def readFields_def m t Let_def storeAttrs_def loop_F typeField_def
          subField_def reads qs keepAttrs_def alloc_def simp flip: ps_def split: if_splits)
  qed
qed

lemma foldl_names:
  "foldl (\<lambda>body f. appendStringAlways pw body 2 f) b fs
    = b @ concat (map (\<lambda>f. msgF pw 2 (bytes_of_string f)) fs)"
  by (induction fs arbitrary: b) (simp_all add: append_F)

lemma namedTuple_decodes:
  assumes elems: "\<And>x bx. x \<in> set xs \<Longrightarrow> AppendValue pw [] x = Inr bx \<Longrightarrow> length bx < 2 ^ 63 \<Longrightarrow>
      decodes pw d x bx"
    and enc: "appendItems pw 3 (foldl (\<lambda>body f. appendStringAlways pw body 2 f)
        (appendStringField pw [] 1 t) fs) xs = Inr m"
    and len: "length m < 2 ^ 63" and pay: "affords (residentItems xs) ds"
  shows "decodeNamedTuple pw (decodeValue pw d) m ds
    = (case arriveItems xs (dNext ds) of (ys, a) \<Rightarrow>
        Inr (VNamedTuple t fs ys, (paid (residentItems xs) ds)\<lparr>dNext := a\<rparr>))"
proof -
  let ?F = "\<lambda>num ty r ((t, fs, vs), ds).
     if num = 1 then setField (rd_str pw num ty r) (\<lambda>v. ((v, fs, vs), ds))
     else if num = 2 then setField (rd_str pw num ty r) (\<lambda>v. ((t, fs @ [v], vs), ds))
     else if num = 3 then subField (rd_bytes pw num ty r) ds (decodeValue pw d)
       (\<lambda>v ds. ((t, fs, vs @ [v]), ds))
     else (Inr ((t, fs, vs), ds), rd_skip pw num ty r)"
  let ?ns = "concat (map (\<lambda>f. msgF pw 2 (bytes_of_string f)) fs)"
  obtain it where it: "appendItems pw 3 [] xs = Inr it" and m: "m = strF pw 1 t @ ?ns @ it"
    using enc [unfolded foldl_names appendStringField_F] appendItems_app [of 3 "strF pw 1 t @ ?ns" xs]
    by (cases "appendItems pw 3 [] xs") simp_all
  have lens: "length t < 2 ^ 63" "length ?ns < 2 ^ 63" "length it < 2 ^ 63"
    using len strF_length [of t 1] by (simp_all add: m)
  have head: "readLoop pw ?F (new_reader m) (([], [], []), ds)
      = readLoop pw ?F (new_reader (?ns @ it)) ((t, [], []), ds)"
    using lens(1) by (simp add: m loop_F setField_def reads)
  have names: "readLoop pw ?F (new_reader (concat (map (\<lambda>f. msgF pw 2 (bytes_of_string f)) gs) @ it))
        ((t, hs, []), ds)
      = readLoop pw ?F (new_reader it) ((t, hs @ gs, []), ds)"
    if "length (concat (map (\<lambda>f. msgF pw 2 (bytes_of_string f)) gs)) < 2 ^ 63" for gs hs
    using that
  proof (induction gs arbitrary: hs)
    case (Cons g gs)
    then have "length g < 2 ^ 63"
      using msgF_length [of "bytes_of_string g" 2] by simp
    with Cons show ?case by (simp add: loop_F setField_def reads)
  qed simp
  have step: "?F 3 BytesType (new_reader (AppendBytes pw [] m @ rest)) ((t, fs, acc), ds)
      = (Inr ((t, fs, acc @ [v]), ds2), new_reader rest)"
    if "length m < 2 ^ 63" "decodeValue pw d m ds = Inr (v, ds2)" for m rest acc ds v ds2
    using that by (simp add: subField_def reads)
  have "readLoop pw ?F (new_reader it) ((t, fs, []), ds)
      = (case arriveItems xs (dNext ds) of (ys, a) \<Rightarrow>
          (Inr ((t, fs, ys), (paid (residentItems xs) ds)\<lparr>dNext := a\<rparr>), new_reader []))"
    using items_loop [of d ?F 3 "\<lambda>acc ds. ((t, fs, acc), ds)" xs it ds "[]" "[]", OF step]
      elems it lens(3) pay by (simp split: prod.splits)
  with head names [OF lens(2), of "[]"] show ?thesis
    by (simp add: decodeNamedTuple_def readFields_def split: prod.splits)
qed

lemma inst_decodes:
  assumes ok: "wireableType t" "tyOrigin t \<noteq> OriginBuiltin" "uuid_ok u"
    and enc: "appendInstance pw [] t u attrs = Inr body" and len: "length body < 2 ^ 63"
    and elems: "\<And>x bx. x \<in> fst ` set (attrPairs attrs) \<union> snd ` set (attrPairs attrs) \<Longrightarrow>
      AppendValue pw [] x = Inr bx \<Longrightarrow> length bx < 2 ^ 63 \<Longrightarrow> decodes pw d x bx"
    and telems: "\<And>x bx. x \<in> fst ` set (attrPairs (tyAttrs t)) \<union> snd ` set (attrPairs (tyAttrs t)) \<Longrightarrow>
      AppendValue pw [] x = Inr bx \<Longrightarrow> length bx < 2 ^ 63 \<Longrightarrow> decodes pw (Suc d) x bx"
    and pay: "affords (residentType t + residentPairs (attrPairs attrs)) ds"
  obtains m where "body = msgF pw 24 m" "length m < 2 ^ 63"
    "decodeInstance pw (decodeValue pw d) (decodeValue pw (Suc d)) m ds
      = (case arriveInst t u attrs (dNext ds) of (w, a) \<Rightarrow>
          Inr (w, (paid (residentType t + residentPairs (attrPairs attrs)) ds)\<lparr>dNext := a\<rparr>))"
proof -
  define ps where "ps = attrPairs attrs"
  obtain ty where ty: "appendTypeBody pw [] t = Inr ty"
    using enc by (cases "appendTypeBody pw [] t") simp_all
  obtain raw where raw: "decodeUUIDMessage pw (msgF pw 1 raw) = Inr u"
    "appendUUIDMessage pw (msgF pw 1 ty) 2 u = Inr (msgF pw 1 ty @ msgF pw 2 (msgF pw 1 raw))"
    using ok(3) by (rule uuid_message)
  obtain ats where ats: "appendDictBody pw [] ps = Inr ats"
    using enc ty raw by (cases "appendDictBody pw [] ps") (simp_all add: append_F flip: ps_def)
  let ?m = "msgF pw 1 ty @ msgF pw 2 (msgF pw 1 raw) @ msgF pw 3 ats"
  have body: "body = msgF pw 24 ?m" using enc ty raw ats by (simp add: append_F flip: ps_def)
  have lens: "length ?m < 2 ^ 63" "length ty < 2 ^ 63" "length (msgF pw 1 raw) < 2 ^ 63" "length ats < 2 ^ 63"
    using len msgF_length [of ?m 24] msgF_length [of ty 1] msgF_length [of "msgF pw 1 raw" 2]
      msgF_length [of ats 3] by (simp_all add: body)
  obtain t2 a where t2: "arriveType t (dNext ds) = (t2, a)" by fastforce
  obtain qs a2 where qs: "arrivePairs ps a = (qs, a2)" by fastforce
  have origin: "tyOrigin t2 = tyOrigin t" using t2 by (cases t) (auto split: prod.splits)
  define ds1 where "ds1 = (paid (residentType t) ds)\<lparr>dNext := a\<rparr>"
  have dt: "decodeType pw (decodeValue pw (Suc d)) ty ds = Inr (t2, ds1)"
    using type_decodes [OF ok(1) ty lens(2) telems affords_less [OF pay]] by (simp add: t2 ds1_def)
  have dd: "decodeDict pw (decodeValue pw d) ats ds1
      = Inr (qs, (paid (residentType t + residentPairs ps) ds)\<lparr>dNext := a2\<rparr>)"
    using dict_decodes [of ps d ats ds1] elems ats lens(4) pay by (simp add: ds1_def qs flip: ps_def)
  have "decodeInstance pw (decodeValue pw d) (decodeValue pw (Suc d)) ?m ds
      = (case arriveInst t u attrs (dNext ds) of (w, a) \<Rightarrow>
          Inr (w, (paid (residentType t + residentPairs (attrPairs attrs)) ds)\<lparr>dNext := a\<rparr>))"
    using lens ok(2)
    by (simp add: decodeInstance_def readFields_def loop_F instField_def subField_def reads dt raw dd
        t2 qs origin keepAttrs_def storeAttrs_def alloc_def flip: ps_def)
  with body lens(1) show thesis by (rule that)
qed

text \<open>The messages without values inside.\<close>

lemma big_decodes:
  assumes "\<not> isInt64 x" "length (big_bytes (nat \<bar>x\<bar>)) < 2 ^ 63"
    and "affords (length (big_bytes (nat \<bar>x\<bar>))) ds"
  shows "decodeBig pw (uintF pw 1 (if x < 0 then 1 else 0) @ msgF pw 2 (big_bytes (nat \<bar>x\<bar>))) ds
    = Inr (VBig (Some x), paid (length (big_bytes (nat \<bar>x\<bar>))) ds)"
  using assms
  by (simp add: decodeBig_def readFields_def loop_F setField_def reads charge_paid big_roundtrip
      IntValue_def)

lemma exception_decodes:
  assumes "length t < 2 ^ 63" "length m < 2 ^ 63"
  shows "decodeExceptionValue pw (strF pw 1 t @ strF pw 2 m) ds = Inr (VException t m, ds)"
  using assms by (simp add: decodeExceptionValue_def readFields_def loop_F setField_def reads)

lemma function_decodes:
  assumes "length name < 2 ^ 63" "\<And>q x. doc = Some (q, x) \<Longrightarrow> length x < 2 ^ 63"
  shows "decodeFunction pw (strF pw 1 name @ ptrF (\<lambda>x. msgF pw 2 (bytes_of_string x)) doc) ds
    = (case place doc (dNext ds) of (doc, a) \<Rightarrow> Inr (VFunction name doc, ds\<lparr>dNext := a\<rparr>))"
  using assms
  by (cases doc) (auto simp: decodeFunction_def readFields_def loop_F setField_def setPtr_def alloc_def
      reads ptrF_def place_def)

lemma handle_decodes:
  assumes "length path < 2 ^ 63" "length mode < 2 ^ 63" "validHandleMode mode"
  shows "decodeFileHandle pw (strF pw 1 path @ strF pw 2 mode @ uintF pw 3 pos) ds
    = Inr (VFileHandle (dNext ds) path mode pos, ds\<lparr>dNext := Suc (dNext ds)\<rparr>)"
  using assms by (simp add: decodeFileHandle_def readFields_def loop_F setField_def reads)

text \<open>A value is one field of a \<^verbatim>\<open>MontyObject\<close>.\<close>

lemma decodes_by_arm:
  assumes "depth \<le> maxDecodeNesting"
    and "\<And>ds. affords (resident v) ds \<Longrightarrow>
      readLoop pw (valueArm pw (decodeValue pw (Suc depth)) (decodeValue pw (Suc (Suc depth))))
        (new_reader body) (VNone, False, paid nodeHostSize ds)
      = (case arrive v (dNext ds) of (w, a) \<Rightarrow>
          (Inr (w, True, (paid (resident v) ds)\<lparr>dNext := a\<rparr>), new_reader []))"
  shows "decodes pw depth v body"
  unfolding decodes_def
proof (intro allI impI)
  fix ds
  assume pay: "affords (resident v) ds"
  have "affords nodeHostSize ds"
    using pay by (rule affords_less) (simp add: resident.simps)
  then show "decodeValue pw depth body ds = Inr (arrived v ds)"
    using assms(1) assms(2) [OF pay]
    by (subst decodeValue.simps) (simp add: charge_paid readFields_def arrived_def split: prod.splits)
qed

lemmas arm_simps = valueArm_def Let_def subField_def setField_def chargedField_def reads

text \<open>An integer of any type is one varint, or a big integer when it does not fit.\<close>

lemma integer_decodes:
  assumes depth: "depth \<le> maxDecodeNesting" and len: "length (appendBig pw [] x) < 2 ^ 63"
    and v: "\<And>a. arrive v a = (IntValue x, a)"
    and res: "resident v = nodeHostSize + (if isInt64 x then 0 else length (big_bytes (nat \<bar>x\<bar>)))"
  shows "decodes pw depth v (appendBig pw [] x)"
proof (cases "isInt64 x")
  case True
  then have "appendBig pw [] x = varF pw 5 (EncodeZigZag pw x)"
    by (simp add: appendBig_def appendInt_def append_F)
  moreover have "DecodeZigZag pw (EncodeZigZag pw x) = x"
    using True by (simp add: isInt64_def zigzag)
  ultimately show ?thesis
    using depth True
    by (intro decodes_by_arm) (simp_all add: v res IntValue_def loop_F arm_simps)
next
  case False
  let ?m = "uintF pw 1 (if x < 0 then 1 else 0) @ msgF pw 2 (big_bytes (nat \<bar>x\<bar>))"
  have body: "appendBig pw [] x = msgF pw 6 ?m"
    using False by (simp add: appendBig_def append_F Let_def)
  have lens: "length ?m < 2 ^ 63" "length (big_bytes (nat \<bar>x\<bar>)) < 2 ^ 63"
    using len msgF_length [of ?m 6] msgF_length [of "big_bytes (nat \<bar>x\<bar>)" 2] by (simp_all add: body)
  have "decodeBig pw ?m (paid nodeHostSize ds)
      = Inr (VBig (Some x), paid (nodeHostSize + length (big_bytes (nat \<bar>x\<bar>))) ds)"
    if "affords (nodeHostSize + length (big_bytes (nat \<bar>x\<bar>))) ds" for ds
    using big_decodes [OF False lens(2), of "paid nodeHostSize ds"] that by simp
  then show ?thesis
    using depth False lens(1) unfolding body
    by (intro decodes_by_arm) (simp_all add: v res IntValue_def loop_F arm_simps)
qed

lemma int_value: "wireable (VInt t x) \<Longrightarrow> AppendValue pw [] (VInt t x) = Inr (appendBig pw [] x)"
  by (auto simp: wireable.simps appendUint_def appendBig_def isInt64_def split: if_splits)

lemma scalar_decodes_aux:
  assumes depth: "depth \<le> maxDecodeNesting" and ok: "wireable v"
    and enc: "AppendValue pw [] v = Inr body" and len: "length body < 2 ^ 63"
    and v: "v = VNone \<or> v = VEllipsis \<or> v = VNotImplemented \<or> v = VBool q \<or> v = VInt t x \<or> v = VBig b
      \<or> v = VFloat32 f \<or> v = VFloat64 f \<or> v = VStr s \<or> v = VBytes m \<or> v = VBuiltinFunction s
      \<or> v = VPath s"
  shows "decodes pw depth v body"
proof -
  have float: "Float64frombits (Float64bits f) = f" if "v = VFloat32 f \<or> v = VFloat64 f"
    using ok that by (auto simp: wireable.simps float_roundtrip)
  have short: "length c < 2 ^ 63" if "body = msgF pw num c" for num c
    using len msgF_length [of c num] that by simp
  note arms = decodes_by_arm [OF depth] and defs = arrive.simps resident.simps loop_F arm_simps append_F
  consider "v = VNone \<or> v = VEllipsis \<or> v = VNotImplemented \<or> v = VBool q \<or> v = VBig None"
    | "v = VInt t x" | y where "v = VBig (Some y)" | "v = VFloat32 f \<or> v = VFloat64 f"
    | "v = VStr s" | "v = VBytes m" | "v = VBuiltinFunction s" | "v = VPath s"
    using v by (cases b) auto
  then show ?thesis
  proof cases
    case 1
    then show ?thesis
      by (elim disjE; intro arms) (use enc in \<open>auto simp: defs bool_code\<close>)
  next
    case 2
    then have "body = appendBig pw [] x" using enc ok int_value by simp
    with 2 depth len show ?thesis by (auto intro!: integer_decodes simp: arrive.simps resident.simps)
  next
    case 3
    then have "body = appendBig pw [] y" using enc by simp
    with 3 depth len show ?thesis by (auto intro!: integer_decodes simp: arrive.simps resident.simps)
  next
    case 4
    with float show ?thesis
      by (elim disjE; intro arms) (use enc in \<open>auto simp: defs\<close>)
  next
    case 5
    then have "body = msgF pw 8 (bytes_of_string s)" using enc by (simp add: append_F)
    with 5 short [OF this] show ?thesis by (intro arms) (simp add: defs charge_paid)
  next
    case 6
    then have "body = msgF pw 9 m" using enc by (simp add: append_F)
    with 6 short [OF this] show ?thesis by (intro arms) (simp add: defs charge_paid)
  next
    case 7
    then have "body = msgF pw 26 (bytes_of_string s)" using enc by (simp add: append_F)
    with 7 short [OF this] show ?thesis by (intro arms) (simp add: defs)
  next
    case 8
    then have "body = msgF pw 27 (bytes_of_string s)" using enc by (simp add: append_F)
    with 8 short [OF this] show ?thesis by (intro arms) (simp add: defs)
  qed
qed

lemma scalar_decodes:
  assumes "depth \<le> maxDecodeNesting" "wireable v" "AppendValue pw [] v = Inr body"
    "length body < 2 ^ 63" "is_scalar v"
  shows "decodes pw depth v body"
proof -
  have "\<exists>q t x b f s m. v = VNone \<or> v = VEllipsis \<or> v = VNotImplemented \<or> v = VBool q \<or> v = VInt t x \<or> v = VBig b
        \<or> v = VFloat32 f \<or> v = VFloat64 f \<or> v = VStr s \<or> v = VBytes m \<or> v = VBuiltinFunction s
        \<or> v = VPath s"
    using assms(5) by (cases v) (auto simp: is_scalar_def)
  then show ?thesis using scalar_decodes_aux [OF assms(1-4)] by blast
qed

text \<open>The other leaves are one message each, whose decoder gives the value at once.\<close>

lemma decodes_message:
  assumes depth: "depth \<le> maxDecodeNesting" and len: "length (msgF pw num m) < 2 ^ 63"
    and num: "1 \<le> num" "num < 2 ^ 29"
    and res: "resident v = nodeHostSize"
    and arm: "\<And>ds. length m < 2 ^ 63 \<Longrightarrow>
      valueArm pw (decodeValue pw (Suc depth)) (decodeValue pw (Suc (Suc depth))) num BytesType
        (new_reader (AppendBytes pw [] m)) (VNone, False, ds)
      = (case arrive v (dNext ds) of (w, a) \<Rightarrow> (Inr (w, True, ds\<lparr>dNext := a\<rparr>), new_reader []))"
  shows "decodes pw depth v (msgF pw num m)"
proof -
  have small: "length m < 2 ^ 63" using len msgF_length [of m num] by simp
  show ?thesis
  proof (rule decodes_by_arm [OF depth])
    fix ds :: dstate
    obtain w a where wa: "arrive v (dNext ds) = (w, a)" by fastforce
    then have "valueArm pw (decodeValue pw (Suc depth)) (decodeValue pw (Suc (Suc depth))) num BytesType
        (new_reader (AppendBytes pw [] m @ [])) (VNone, False, paid nodeHostSize ds)
      = (Inr (w, True, (paid nodeHostSize ds)\<lparr>dNext := a\<rparr>), new_reader [])"
      using arm [OF small, of "paid nodeHostSize ds"] by simp
    then show "readLoop pw (valueArm pw (decodeValue pw (Suc depth)) (decodeValue pw (Suc (Suc depth))))
        (new_reader (msgF pw num m)) (VNone, False, paid nodeHostSize ds)
      = (case arrive v (dNext ds) of (w, a) \<Rightarrow>
          (Inr (w, True, (paid (resident v) ds)\<lparr>dNext := a\<rparr>), new_reader []))"
      using loop_msgF [OF num, where rest = "[]"] wa res by simp
  qed
qed

lemma clock_placed:
  "place off a = (off2, a2) \<Longrightarrow> place zone a2 = (zone2, a3) \<Longrightarrow>
   validateClock h mi s us off2 zone2 = validateClock h mi s us off zone"
  by (auto simp: place_def validateClock_def split: option.splits)

lemma time_decodes:
  assumes "wireable (VTime x)" "length (appendTime pw x) < 2 ^ 63"
  shows "decodeTime pw (appendTime pw x) ds
    = (case arrive (VTime x) (dNext ds) of (w, a) \<Rightarrow> Inr (w, ds\<lparr>dNext := a\<rparr>))"
proof -
  obtain off a where off: "place (tOffset x) (dNext ds) = (off, a)" by fastforce
  obtain zone a2 where zone: "place (tZone x) a = (zone, a2)" by fastforce
  show ?thesis
    using assms clock_placed [OF off zone]
    by (simp add: decodeTime_def readFields_def time_fields off zone arrive.simps wireable.simps not_less)
qed

lemma dateTime_decodes:
  assumes "wireable (VDateTime x)" "length (appendDateTime pw x) < 2 ^ 63"
  shows "decodeDateTime pw (appendDateTime pw x) ds
    = (case arrive (VDateTime x) (dNext ds) of (w, a) \<Rightarrow> Inr (w, ds\<lparr>dNext := a\<rparr>))"
proof -
  obtain off a where off: "place (dtOffset x) (dNext ds) = (off, a)" by fastforce
  obtain zone a2 where zone: "place (dtZone x) a = (zone, a2)" by fastforce
  show ?thesis
    using assms clock_placed [OF off zone]
    by (simp add: decodeDateTime_def readFields_def dateTime_fields off zone arrive.simps
        wireable.simps)
qed

lemma timeZone_decodes:
  assumes "wireable (VTimeZone x)" "length (appendTimeZoneBody pw [] x) < 2 ^ 63"
  shows "decodeTimeZone pw (appendTimeZoneBody pw [] x) ds
    = (case place (tzName x) (dNext ds) of (name, a) \<Rightarrow> Inr (x\<lparr>tzName := name\<rparr>, ds\<lparr>dNext := a\<rparr>))"
proof -
  obtain name a where "place (tzName x) (dNext ds) = (name, a)" by fastforce
  then show ?thesis
    using assms by (simp add: decodeTimeZone_def readFields_def timeZone_fields wireable.simps not_le)
qed

lemma struct_decodes_aux:
  assumes depth: "depth \<le> maxDecodeNesting" and ok: "wireable v"
    and enc: "AppendValue pw [] v = Inr body" and len: "length body < 2 ^ 63"
    and v: "v = VDate d \<or> v = VTime t \<or> v = VDateTime dt \<or> v = VTimeDelta td \<or> v = VTimeZone tz"
  shows "decodes pw depth v body"
  using v
proof (elim disjE)
  assume v: "v = VDate d"
  then have "body = msgF pw 17 (appendDate pw d)" using enc by (simp add: append_F)
  with v ok len show ?thesis
    by (auto intro!: decodes_message [OF depth] simp: resident.simps arrive.simps arm_simps
        decodeDate_def fields_done [OF date_fields] wireable.simps)
next
  assume v: "v = VTimeDelta td"
  then have "body = msgF pw 20 (appendTimeDelta pw td)" using enc by (simp add: append_F)
  with v ok len show ?thesis
    by (auto intro!: decodes_message [OF depth] simp: resident.simps arrive.simps arm_simps
        decodeTimeDelta_def fields_done [OF timeDelta_fields] wireable.simps)
next
  assume v: "v = VTime t"
  then have "body = msgF pw 18 (appendTime pw t)" using enc by (simp add: append_F)
  with v ok len show ?thesis
    by (auto intro!: decodes_message [OF depth] simp: resident.simps arm_simps time_decodes
        split: prod.splits)
next
  assume v: "v = VDateTime dt"
  then have "body = msgF pw 19 (appendDateTime pw dt)" using enc by (simp add: append_F)
  with v ok len show ?thesis
    by (auto intro!: decodes_message [OF depth] simp: resident.simps arm_simps dateTime_decodes
        split: prod.splits)
next
  assume v: "v = VTimeZone tz"
  then have "body = msgF pw 21 (appendTimeZoneBody pw [] tz)" using enc by (simp add: append_F)
  with v ok len show ?thesis
    by (auto intro!: decodes_message [OF depth] simp: resident.simps arm_simps timeZone_decodes
        arrive.simps split: prod.splits)
qed

lemma struct_decodes:
  assumes "depth \<le> maxDecodeNesting" "wireable v" "AppendValue pw [] v = Inr body"
    "length body < 2 ^ 63" "is_struct v"
  shows "decodes pw depth v body"
proof -
  have "\<exists>d t dt td tz. v = VDate d \<or> v = VTime t \<or> v = VDateTime dt \<or> v = VTimeDelta td \<or> v = VTimeZone tz"
    using assms(5) by (cases v) (auto simp: is_struct_def)
  then show ?thesis using struct_decodes_aux [OF assms(1-4)] by blast
qed

lemma text_decodes_aux:
  assumes depth: "depth \<le> maxDecodeNesting" and ok: "wireable v"
    and enc: "AppendValue pw [] v = Inr body" and len: "length body < 2 ^ 63"
    and v: "v = VException s m \<or> v = VFunction s doc \<or> v = VFileHandle q s m pos
      \<or> v = VFileHandleVal s m pos"
  shows "decodes pw depth v body"
proof -
  consider "v = VException s m" | "v = VFunction s doc"
    | "v = VFileHandle q s m pos \<or> v = VFileHandleVal s m pos" using v by blast
  then show ?thesis
  proof cases
    case 1
    let ?m = "strF pw 1 s @ strF pw 2 m"
    have body: "body = msgF pw 22 ?m" using enc 1 by (auto simp: append_F Let_def strF_def)
    have "length s < 2 ^ 63" "length m < 2 ^ 63"
      using len msgF_length [of ?m 22] strF_length [of s 1] strF_length [of m 2] by (simp_all add: body)
    with 1 len show ?thesis
      unfolding body by (auto intro!: decodes_message [OF depth]
          simp: resident.simps arrive.simps arm_simps exception_decodes)
  next
    case 2
    let ?m = "strF pw 1 s @ ptrF (\<lambda>x. msgF pw 2 (bytes_of_string x)) doc"
    have body: "body = msgF pw 25 ?m" using enc 2 by (auto simp: append_F)
    have "length x < 2 ^ 63" if "doc = Some (q, x)" for q x
      using len msgF_length [of ?m 25] msgF_length [of "bytes_of_string x" 2] that
      by (simp add: body ptrF_def)
    moreover have "length s < 2 ^ 63"
      using len msgF_length [of ?m 25] strF_length [of s 1] by (simp add: body)
    ultimately show ?thesis
      using 2 len unfolding body by (auto intro!: decodes_message [OF depth]
          simp: resident.simps arrive.simps arm_simps function_decodes split: prod.splits)
  next
    case 3
    let ?m = "strF pw 1 s @ strF pw 2 m @ uintF pw 3 pos"
    have body: "body = msgF pw 28 ?m" using enc 3 by (auto simp: append_F appendFileHandle_def Let_def)
    have "length s < 2 ^ 63" "length m < 2 ^ 63"
      using len msgF_length [of ?m 28] strF_length [of s 1] strF_length [of m 2] by (simp_all add: body)
    with 3 ok len show ?thesis
      unfolding body by (auto intro!: decodes_message [OF depth]
          simp: resident.simps arrive.simps arm_simps handle_decodes wireable.simps)
  qed
qed

lemma text_decodes:
  assumes "depth \<le> maxDecodeNesting" "wireable v" "AppendValue pw [] v = Inr body"
    "length body < 2 ^ 63" "is_text v"
  shows "decodes pw depth v body"
proof -
  have "\<exists>s m doc q pos. v = VException s m \<or> v = VFunction s doc \<or> v = VFileHandle q s m pos
        \<or> v = VFileHandleVal s m pos"
    using assms(5) by (cases v) (auto simp: is_text_def)
  then show ?thesis using text_decodes_aux [OF assms(1-4)] by blast
qed

text \<open>
  A container at some depth is read when its elements are read one level deeper. The nesting check
  costs two for each level, so it runs out before the decoder does.
\<close>

lemma items_value:
  assumes depth: "depth \<le> maxDecodeNesting" and enc: "AppendValue pw [] v = Inr body"
    and len: "length body < 2 ^ 63"
    and elems: "\<And>x bx. x \<in> set xs \<Longrightarrow> AppendValue pw [] x = Inr bx \<Longrightarrow> length bx < 2 ^ 63 \<Longrightarrow>
      decodes pw (Suc depth) x bx"
    and v: "v = VList xs \<or> v = VTuple xs \<or> (\<exists>ys. v = VSet ys \<and> xs = listOf ys)
      \<or> (\<exists>ys. v = VFrozenSet ys \<and> xs = listOf ys)"
  shows "decodes pw depth v body"
proof (rule decodes_by_arm [OF depth])
  fix ds :: dstate
  assume pay: "affords (resident v) ds"
  obtain m num where m: "appendItems pw 1 [] xs = Inr m" "body = msgF pw num m"
    and num: "num = 11 \<and> v = VList xs \<or> num = 12 \<and> v = VTuple xs
      \<or> num = 15 \<and> (\<exists>ys. v = VSet ys \<and> xs = listOf ys) \<or> num = 16 \<and> (\<exists>ys. v = VFrozenSet ys \<and> xs = listOf ys)"
    using enc v by (cases "appendItems pw 1 [] xs") (auto simp: valueField_def append_F)
  have small: "length m < 2 ^ 63" using len msgF_length [of m num] m by simp
  have res: "resident v = nodeHostSize + residentItems xs" using v by (auto simp: resident.simps)
  have "decodeObjectList pw (decodeValue pw (Suc depth)) m (paid nodeHostSize ds)
      = (case arriveItems xs (dNext ds) of (ys, a) \<Rightarrow> Inr (ys, (paid (resident v) ds)\<lparr>dNext := a\<rparr>))"
    using list_decodes [OF elems m(1) small, of "paid nodeHostSize ds"] pay by (simp add: res)
  then show "readLoop pw (valueArm pw (decodeValue pw (Suc depth)) (decodeValue pw (Suc (Suc depth))))
        (new_reader body) (VNone, False, paid nodeHostSize ds)
      = (case arrive v (dNext ds) of (w, a) \<Rightarrow>
          (Inr (w, True, (paid (resident v) ds)\<lparr>dNext := a\<rparr>), new_reader []))"
    using num small m by (auto simp: arrive.simps loop_F arm_simps split: prod.splits)
qed

lemma namedTuple_value:
  assumes depth: "depth \<le> maxDecodeNesting" and enc: "AppendValue pw [] (VNamedTuple t fs xs) = Inr body"
    and len: "length body < 2 ^ 63"
    and elems: "\<And>x bx. x \<in> set xs \<Longrightarrow> AppendValue pw [] x = Inr bx \<Longrightarrow> length bx < 2 ^ 63 \<Longrightarrow>
      decodes pw (Suc depth) x bx"
  shows "decodes pw depth (VNamedTuple t fs xs) body"
proof (rule decodes_by_arm [OF depth])
  fix ds :: dstate
  assume pay: "affords (resident (VNamedTuple t fs xs)) ds"
  obtain m where m: "appendItems pw 3 (foldl (\<lambda>body f. appendStringAlways pw body 2 f)
        (appendStringField pw [] 1 t) fs) xs = Inr m" "body = msgF pw 13 m"
    using enc by (auto simp: valueField_def appendMessage_F split: sum.splits)
  have small: "length m < 2 ^ 63" using len msgF_length [of m 13] m by simp
  show "readLoop pw (valueArm pw (decodeValue pw (Suc depth)) (decodeValue pw (Suc (Suc depth))))
        (new_reader body) (VNone, False, paid nodeHostSize ds)
      = (case arrive (VNamedTuple t fs xs) (dNext ds) of (w, a) \<Rightarrow>
          (Inr (w, True, (paid (resident (VNamedTuple t fs xs)) ds)\<lparr>dNext := a\<rparr>), new_reader []))"
    using namedTuple_decodes [OF elems m(1) small, of "paid nodeHostSize ds"] pay small
    by (simp add: m(2) arrive.simps resident.simps loop_F arm_simps split: prod.splits)
qed

lemma dict_value:
  assumes depth: "depth \<le> maxDecodeNesting" and enc: "AppendValue pw [] (VDict d) = Inr body"
    and len: "length body < 2 ^ 63"
    and elems: "\<And>x bx. x \<in> fst ` set (listOf d) \<union> snd ` set (listOf d) \<Longrightarrow>
      AppendValue pw [] x = Inr bx \<Longrightarrow> length bx < 2 ^ 63 \<Longrightarrow> decodes pw (Suc depth) x bx"
  shows "decodes pw depth (VDict d) body"
proof (rule decodes_by_arm [OF depth])
  fix ds :: dstate
  assume pay: "affords (resident (VDict d)) ds"
  obtain m where m: "appendDictBody pw [] (listOf d) = Inr m" "body = msgF pw 14 m"
    using enc by (auto simp: valueField_def append_F split: sum.splits)
  have small: "length m < 2 ^ 63" using len msgF_length [of m 14] m by simp
  show "readLoop pw (valueArm pw (decodeValue pw (Suc depth)) (decodeValue pw (Suc (Suc depth))))
        (new_reader body) (VNone, False, paid nodeHostSize ds)
      = (case arrive (VDict d) (dNext ds) of (w, a) \<Rightarrow>
          (Inr (w, True, (paid (resident (VDict d)) ds)\<lparr>dNext := a\<rparr>), new_reader []))"
    using dict_decodes [OF elems m(1) small, of "paid nodeHostSize ds"] pay small
    by (simp add: m(2) arrive.simps resident.simps loop_F arm_simps split: prod.splits)
qed

lemma type_value:
  assumes depth: "depth \<le> maxDecodeNesting" and ok: "wireableType t"
    and enc: "AppendValue pw [] (VType t) = Inr body" and len: "length body < 2 ^ 63"
    and elems: "\<And>x bx. x \<in> fst ` set (attrPairs (tyAttrs t)) \<union> snd ` set (attrPairs (tyAttrs t)) \<Longrightarrow>
      AppendValue pw [] x = Inr bx \<Longrightarrow> length bx < 2 ^ 63 \<Longrightarrow> decodes pw (Suc depth) x bx"
  shows "decodes pw depth (VType t) body"
proof (rule decodes_by_arm [OF depth])
  fix ds :: dstate
  assume pay: "affords (resident (VType t)) ds"
  obtain m where m: "appendTypeBody pw [] t = Inr m" "body = msgF pw 23 m"
    using enc by (auto simp: valueField_def append_F split: sum.splits)
  have small: "length m < 2 ^ 63" using len msgF_length [of m 23] m by simp
  show "readLoop pw (valueArm pw (decodeValue pw (Suc depth)) (decodeValue pw (Suc (Suc depth))))
        (new_reader body) (VNone, False, paid nodeHostSize ds)
      = (case arrive (VType t) (dNext ds) of (w, a) \<Rightarrow>
          (Inr (w, True, (paid (resident (VType t)) ds)\<lparr>dNext := a\<rparr>), new_reader []))"
    using type_decodes [OF ok m(1) small elems, of "paid nodeHostSize ds"] pay small
    by (simp add: m(2) arrive.simps resident.simps loop_F arm_simps split: prod.splits)
qed

lemma inst_value:
  assumes depth: "depth \<le> maxDecodeNesting"
    and ok: "wireableType t" "tyOrigin t \<noteq> OriginBuiltin" "uuid_ok u"
    and v: "v = VInstance t u attrs \<or> v = VInstancePtr q t u attrs"
    and enc: "AppendValue pw [] v = Inr body" and len: "length body < 2 ^ 63"
    and elems: "\<And>x bx. x \<in> fst ` set (attrPairs attrs) \<union> snd ` set (attrPairs attrs) \<Longrightarrow>
      AppendValue pw [] x = Inr bx \<Longrightarrow> length bx < 2 ^ 63 \<Longrightarrow> decodes pw (Suc depth) x bx"
    and telems: "\<And>x bx. x \<in> fst ` set (attrPairs (tyAttrs t)) \<union> snd ` set (attrPairs (tyAttrs t)) \<Longrightarrow>
      AppendValue pw [] x = Inr bx \<Longrightarrow> length bx < 2 ^ 63 \<Longrightarrow> decodes pw (Suc (Suc depth)) x bx"
  shows "decodes pw depth v body"
proof (rule decodes_by_arm [OF depth])
  fix ds :: dstate
  assume pay: "affords (resident v) ds"
  have res: "resident v = nodeHostSize + (residentType t + residentPairs (attrPairs attrs))"
    using v by (auto simp: resident.simps)
  have pay2: "affords (residentType t + residentPairs (attrPairs attrs)) (paid nodeHostSize ds)"
    using pay by (simp add: res)
  have enc2: "appendInstance pw [] t u attrs = Inr body" using v enc by auto
  obtain m where m: "body = msgF pw 24 m" "length m < 2 ^ 63"
    "decodeInstance pw (decodeValue pw (Suc depth)) (decodeValue pw (Suc (Suc depth))) m
        (paid nodeHostSize ds)
      = (case arriveInst t u attrs (dNext (paid nodeHostSize ds)) of (w, a) \<Rightarrow>
          Inr (w, (paid (residentType t + residentPairs (attrPairs attrs)) (paid nodeHostSize ds))\<lparr>dNext := a\<rparr>))"
    using ok enc2 len elems telems pay2 by (rule inst_decodes)
  have "arrive v a = arriveInst t u attrs a" for a using v by (auto simp: arrive.simps)
  with m show "readLoop pw (valueArm pw (decodeValue pw (Suc depth)) (decodeValue pw (Suc (Suc depth))))
        (new_reader body) (VNone, False, paid nodeHostSize ds)
      = (case arrive v (dNext ds) of (w, a) \<Rightarrow>
          (Inr (w, True, (paid (resident v) ds)\<lparr>dNext := a\<rparr>), new_reader []))"
    by (simp add: res loop_F arm_simps del: arriveInst.simps split: prod.splits)
qed

end

end
