(* ===== verification/ValueRoundtrip.thy ===== *)
theory ValueRoundtrip
  imports ValueCorrect
begin

text \<open>
  The round trip of whole values: every value that the wire can carry and that passes the
  nesting check is read back, by induction on its size.
\<close>

section \<open>Every value\<close>

context protowire_format
begin

lemma value_decodes:
  assumes "wireable v" "\<not> depthExceeds v bud" "0 \<le> bud" "2 * int depth + bud \<le> 200"
    and "AppendValue pw [] v = Inr body" "length body < 2 ^ 63"
  shows "decodes pw depth v body"
  using assms
proof (induction v arbitrary: depth bud body rule: measure_induct_rule [where f = size])
  case (less v)
  have depth: "depth \<le> maxDecodeNesting"
    using less.prems(3,4) by (simp add: maxDecodeNesting_def)
  have kid: "decodes pw (Suc depth) x bx"
    if "fits v bud x c" "2 \<le> c" "AppendValue pw [] x = Inr bx" "length bx < 2 ^ 63" for x bx c
    using less.prems(4) that by (intro less.IH [of x "bud - c"]) (auto simp: fits_def)
  have kid2: "decodes pw (Suc (Suc depth)) x bx"
    if "fits v bud x c" "4 \<le> c" "AppendValue pw [] x = Inr bx" "length bx < 2 ^ 63" for x bx c
    using less.prems(4) that by (intro less.IH [of x "bud - c"]) (auto simp: fits_def)
  note ok = less.prems(1) and deep = less.prems(2) and enc = less.prems(5) and len = less.prems(6)
  have item: "decodes pw (Suc depth) x bx"
    if "v = VList xs \<or> v = VTuple xs \<or> (\<exists>ys. v = VSet ys \<and> xs = listOf ys)
      \<or> (\<exists>ys. v = VFrozenSet ys \<and> xs = listOf ys) \<or> v = VNamedTuple t fs xs"
      "x \<in> set xs" "AppendValue pw [] x = Inr bx" "length bx < 2 ^ 63" for x xs bx t fs
    using kid [OF fits_item [OF ok deep that(2,1)] _ that(3,4)] by simp
  have inst: ?case if v: "v = VInstance t u attrs \<or> v = VInstancePtr q t u attrs" for t u attrs q
  proof (rule inst_value [OF depth _ _ _ v enc len])
    show "wireableType t" "tyOrigin t \<noteq> OriginBuiltin" "uuid_ok u"
      using v ok by (auto simp: wireable.simps)
    show "decodes pw (Suc depth) x bx"
      if "x \<in> fst ` set (attrPairs attrs) \<union> snd ` set (attrPairs attrs)"
        "AppendValue pw [] x = Inr bx" "length bx < 2 ^ 63" for x bx
      using kid [OF fits_inst(1) [OF ok deep v that(1)] _ that(2,3)] by simp
    show "decodes pw (Suc (Suc depth)) x bx"
      if "x \<in> fst ` set (attrPairs (tyAttrs t)) \<union> snd ` set (attrPairs (tyAttrs t))"
        "AppendValue pw [] x = Inr bx" "length bx < 2 ^ 63" for x bx
      using kid2 [OF fits_inst(2) [OF ok deep v that(1)] _ that(2,3)] by simp
  qed
  have items: ?case
    if v: "v = VList xs \<or> v = VTuple xs \<or> (\<exists>ys. v = VSet ys \<and> xs = listOf ys)
      \<or> (\<exists>ys. v = VFrozenSet ys \<and> xs = listOf ys)" for xs
    using v by (intro items_value [OF depth enc len, of xs]) (auto intro!: item)
  show ?case
  proof (cases v)
    case (VNamedTuple t fs xs)
    then show ?thesis
      using namedTuple_value [OF depth _ len, of t fs xs] enc item by simp
  next
    case (VDict d)
    then have "decodes pw (Suc depth) x bx"
      if "x \<in> fst ` set (listOf d) \<union> snd ` set (listOf d)" "AppendValue pw [] x = Inr bx"
        "length bx < 2 ^ 63" for x bx
      using kid [of x 3 bx] fits_pair [of d bud x] ok deep that by simp
    with VDict show ?thesis using dict_value [OF depth _ len, of d] enc by simp
  next
    case (VType t)
    then have "decodes pw (Suc depth) x bx"
      if "x \<in> fst ` set (attrPairs (tyAttrs t)) \<union> snd ` set (attrPairs (tyAttrs t))"
        "AppendValue pw [] x = Inr bx" "length bx < 2 ^ 63" for x bx
      using kid [of x 4 bx] fits_type [of t bud x] ok deep that by simp
    with VType show ?thesis
      using type_value [OF depth _ _ len, of t] enc ok by (simp add: wireable.simps)
  next
    case (VCycle i p)
    with ok show ?thesis by (simp add: wireable.simps)
  next
    case (VOther k ty)
    with ok show ?thesis by (simp add: wireable.simps)
  next
    case (VInstance t u attrs)
    then show ?thesis by (intro inst) simp
  next
    case (VInstancePtr q t u attrs)
    then show ?thesis by (intro inst [of t u attrs q]) simp
  next
    case (VList xs)
    then show ?thesis by (intro items [of xs]) simp
  next
    case (VTuple xs)
    then show ?thesis by (intro items [of xs]) simp
  next
    case (VSet xs)
    then show ?thesis by (intro items [of "listOf xs"]) simp
  next
    case (VFrozenSet xs)
    then show ?thesis by (intro items [of "listOf xs"]) simp
  qed (use scalar_decodes [OF depth ok enc len] struct_decodes [OF depth ok enc len]
      text_decodes [OF depth ok enc len] in \<open>simp_all add: is_scalar_def is_struct_def is_text_def\<close>)
qed

text \<open>A value that the wire can carry is encoded.\<close>

lemma items_encode:
  "(\<And>x. x \<in> set xs \<Longrightarrow> \<exists>b. AppendValue pw [] x = Inr b) \<Longrightarrow> \<exists>b. appendItems pw num acc xs = Inr b"
  by (induction xs arbitrary: acc) (fastforce simp: valueField_def)+

lemma pairs_encode:
  "(\<And>x. x \<in> fst ` set ps \<union> snd ` set ps \<Longrightarrow> \<exists>b. AppendValue pw [] x = Inr b) \<Longrightarrow>
   \<exists>b. appendDictBody pw acc ps = Inr b"
proof (induction ps arbitrary: acc)
  case (Cons kv ps)
  obtain k v where kv: "kv = (k, v)" by fastforce
  obtain bk bv where "AppendValue pw [] k = Inr bk" "AppendValue pw [] v = Inr bv"
    using Cons.prems [of k] Cons.prems [of v] by (auto simp: kv)
  then show ?case
    using Cons.IH Cons.prems by (simp add: kv valueField_def)
qed simp

lemma type_encode:
  assumes "wireableType t"
    and "\<And>x. x \<in> fst ` set (attrPairs (tyAttrs t)) \<union> snd ` set (attrPairs (tyAttrs t)) \<Longrightarrow>
      \<exists>b. AppendValue pw [] x = Inr b"
  shows "\<exists>b. appendTypeBody pw [] t = Inr b"
proof -
  obtain n u origin dc attrs where t: "t = PyType n u origin dc attrs" by (cases t)
  obtain idf where "appendTypeBody pw [] (PyType n u origin dc attrs)
      = (if attrPairs attrs = [] then Inr (typeHead pw n idf origin dc)
         else valueField pw (typeHead pw n idf origin dc) 5 (appendDictBody pw [] (attrPairs attrs)))"
    using assms(1) unfolding t by (rule type_head) blast
  moreover obtain b where "appendDictBody pw [] (attrPairs attrs) = Inr b"
    using pairs_encode [of "attrPairs attrs" "[]"] assms(2) by (auto simp: t)
  ultimately show ?thesis by (simp add: t valueField_def)
qed

lemma wireable_encodes: "wireable v \<Longrightarrow> \<exists>b. AppendValue pw [] v = Inr b"
proof (induction v rule: measure_induct_rule [where f = size])
  case (less v)
  have item: "\<exists>b. appendItems pw num acc xs = Inr b"
    if "size_list size xs < size v" "wireableItems xs" for xs num acc
    using that less.IH item_size [of _ xs]
    by (intro items_encode) (meson order_le_less_trans wireableItems_iff)
  have pairs: "\<exists>b. appendDictBody pw acc ps = Inr b"
    if "size_list (size_prod size size) ps < size v" "wireablePairs ps" for ps acc
    using that less.IH pair_size [of _ ps]
    by (intro pairs_encode) (meson order_le_less_trans wireablePairs_iff)
  have type: "\<exists>b. appendTypeBody pw [] t = Inr b" if "size t < size v" "wireableType t" for t
  proof (rule type_encode [OF that(2)])
    fix x assume x: "x \<in> fst ` set (attrPairs (tyAttrs t)) \<union> snd ` set (attrPairs (tyAttrs t))"
    have "wireable x" using that(2) x by (cases t) (auto simp: wireablePairs_iff)
    then show "\<exists>b. AppendValue pw [] x = Inr b"
      using less.IH type_size [OF x] that(1) by simp
  qed
  have inst: "\<exists>b. AppendValue pw [] v = Inr b"
    if v: "v = VInstance t u attrs \<or> v = VInstancePtr q t u attrs" for t u attrs q
  proof -
    have "wireableType t" "uuid_ok u" "wireablePairs (attrPairs attrs)"
      using v less.prems by (elim disjE; simp add: inst_containers)+
    moreover have "size t < size v" "size_list (size_prod size size) (attrPairs attrs) < size v"
      using v by (elim disjE; simp split: option.splits)+
    ultimately obtain ty ats where b: "appendTypeBody pw [] t = Inr ty"
      "appendDictBody pw [] (attrPairs attrs) = Inr ats"
      using type pairs by blast
    obtain raw where
      "appendUUIDMessage pw (msgF pw 1 ty) 2 u = Inr (msgF pw 1 ty @ msgF pw 2 (msgF pw 1 raw))"
      using \<open>uuid_ok u\<close> by (rule uuid_message)
    with b show ?thesis using v by (elim disjE) (simp_all add: append_F)
  qed
  have field: "\<exists>b. valueField pw acc num res = Inr b" if "\<exists>b. res = Inr b" for acc num res
    using that by (auto simp: valueField_def)
  note ok = less.prems
  show ?case
  proof (cases v)
    case (VNamedTuple t fs xs)
    then show ?thesis using ok item by (simp add: wireable_containers field)
  next
    case (VList xs)
    then show ?thesis using ok item by (simp add: wireable_containers field)
  next
    case (VTuple xs)
    then show ?thesis using ok item by (simp add: wireable_containers field)
  next
    case (VSet xs)
    then show ?thesis using ok item [of "listOf xs"] by (cases xs) (simp_all add: wireable_containers field)
  next
    case (VFrozenSet xs)
    then show ?thesis using ok item [of "listOf xs"] by (cases xs) (simp_all add: wireable_containers field)
  next
    case (VDict d)
    then show ?thesis using ok pairs [of "listOf d"] by (cases d) (simp_all add: wireable_containers field)
  next
    case (VType t)
    then show ?thesis using ok type by (simp add: wireable_containers field)
  next
    case (VInstance t u attrs)
    then show ?thesis using inst by blast
  next
    case (VInstancePtr q t u attrs)
    then show ?thesis using inst by blast
  next
    case (VBig x)
    then show ?thesis by (cases x) simp_all
  qed (use ok in \<open>simp_all add: wireable.simps [of "VCycle _ _"] wireable.simps [of "VOther _ _"]\<close>)
qed

end

section \<open>The round trip\<close>

lemma wireable_decodes:
  assumes "protowire_format pw" "wireable v" "\<not> ExceedsMaxDepth v"
    and "AppendValue pw [] v = Inr body" "length body < 2 ^ 63" "affords (resident v) ds"
  shows "DecodeValue pw body ds = Inr (arrived v ds)"
  using protowire_format.value_decodes [OF assms(1,2) _ _ _ assms(4,5), of 97 0] assms(3,6)
  by (simp add: ExceedsMaxDepth_def MaxProtoValueDepth_def ProstRecursionLimit_def
      FrameWrapperDepth_def DecodeValue_def decodes_def)

text \<open>
  C11. The value codec loses nothing. Let \<open>pw\<close> be any implementation of the wire format. Every
  value that the wire can carry is encoded by \<^verbatim>\<open>AppendValue\<close>. When it passes the nesting check
  \<^verbatim>\<open>ExceedsMaxDepth\<close> that senders apply, \<^verbatim>\<open>DecodeValue\<close> reads the encoding back, never
  hits its own nesting limit, charges the budget exactly \<open>resident v\<close> and gives \<open>arrive v\<close>: the
  same value up to the integer and float width, nil containers and fresh pointers.
\<close>

theorem value_roundtrip:
  assumes "protowire_format pw" "wireable v" "\<not> ExceedsMaxDepth v" "affords (resident v) ds"
  shows "\<exists>body. AppendValue pw [] v = Inr body \<and>
    (length body < 2 ^ 63 \<longrightarrow> DecodeValue pw body ds = Inr (arrived v ds))"
  using protowire_format.wireable_encodes [OF assms(1,2)] wireable_decodes [OF assms(1-3)] assms(4)
  by blast

text \<open>A list that a host may send, and its bytes.\<close>

definition sample_value :: pyval where
  "sample_value = VList [VInt GoUint8 7, VDict None, VStr ''a'']"

definition sample_body :: bytes where
  "sample_body = [90, 13, 10, 2, 40, 14, 10, 2, 114, 0, 10, 3, 66, 1, 97]"

lemma sample_encoded: "AppendValue wire_format [] sample_value = Inr sample_body"
  by (simp add: sample_value_def sample_body_def appendInt_def valueField_def wire_codes)

lemma sample_ok:
  "wireable sample_value" "\<not> ExceedsMaxDepth sample_value" "length sample_body < 2 ^ 63"
  "affords (resident sample_value) (NewBudget 500)"
  "arrived sample_value (NewBudget 500)
    = (VList [VInt GoInt64 7, VDict (Some []), VStr ''a''], \<lparr>dRemaining = Some 147, dNext = 0\<rparr>)"
  by (simp_all add: sample_value_def sample_body_def wireable.simps isInt64_def ExceedsMaxDepth_def
      MaxProtoValueDepth_def ProstRecursionLimit_def FrameWrapperDepth_def depthExceeds.simps costs
      resident.simps nodeHostSize_def NewBudget_def affords_def arrived_def arrive.simps
      IntValue_def paid_def)

theorem value_roundtrip_witness:
  "DecodeValue wire_format sample_body (NewBudget 500)
    = Inr (VList [VInt GoInt64 7, VDict (Some []), VStr ''a''], \<lparr>dRemaining = Some 147, dNext = 0\<rparr>)"
  using value_roundtrip [OF fmt.protowire_format_axioms sample_ok(1,2,4)] sample_ok(3)
  by (simp add: sample_encoded sample_ok(5))

end
