(* ===== verification/ValueSound.thy ===== *)
theory ValueSound
  imports ValueRoundtrip
begin

text \<open>
  What \<^verbatim>\<open>DecodeValue\<close> accepts, whoever sent it: a value of the shapes that the rest of
  the program expects, within the memory budget; and no message makes a field loop stand still.
\<close>

section \<open>The values that decoding makes\<close>

function received :: "pyval \<Rightarrow> bool"
  and receivedItems :: "pyval list \<Rightarrow> bool"
  and receivedPairs :: "(pyval \<times> pyval) list \<Rightarrow> bool"
  and receivedType :: "pytype \<Rightarrow> bool"
where
  "received v =
     (case v of
        VInt t x \<Rightarrow> t = GoInt64 \<and> isInt64 x
      | VBig x \<Rightarrow> x \<noteq> None \<and> \<not> isInt64 (the x)
      | VFloat32 f \<Rightarrow> False
      | VFloat64 f \<Rightarrow> float_ok f
      | VList xs \<Rightarrow> receivedItems xs
      | VTuple xs \<Rightarrow> receivedItems xs
      | VNamedTuple t fs xs \<Rightarrow> receivedItems xs
      | VSet xs \<Rightarrow> xs \<noteq> None \<and> receivedItems (listOf xs)
      | VFrozenSet xs \<Rightarrow> xs \<noteq> None \<and> receivedItems (listOf xs)
      | VDict d \<Rightarrow> d \<noteq> None \<and> receivedPairs (listOf d)
      | VDate d \<Rightarrow> validateDate (dYear d) (dMonth d) (dDay d) = None
      | VTime t \<Rightarrow>
          validateClock (tHour t) (tMinute t) (tSecond t) (tMicrosecond t) (tOffset t) (tZone t) = None
          \<and> tFold t \<le> 1
      | VDateTime d \<Rightarrow>
          validateDate (dtYear d) (dtMonth d) (dtDay d) = None
          \<and> validateClock (dtHour d) (dtMinute d) (dtSecond d) (dtMicrosecond d) (dtOffset d)
               (dtZone d) = None
      | VTimeDelta t \<Rightarrow> timeDelta_ok t
      | VTimeZone tz \<Rightarrow> - 86400 < sint (tzOffset tz) \<and> sint (tzOffset tz) < 86400
      | VType t \<Rightarrow> receivedType t
      | VInstance t u attrs \<Rightarrow>
          receivedType t \<and> tyOrigin t \<noteq> OriginBuiltin \<and> uuid_ok u \<and> receivedPairs (attrPairs attrs)
      | VInstancePtr a t u attrs \<Rightarrow> False
      | VFileHandle a path mode pos \<Rightarrow> validHandleMode mode
      | VFileHandleVal path mode pos \<Rightarrow> False
      | VOther k ty \<Rightarrow> False
      | _ \<Rightarrow> True)"
| "receivedItems [] = True"
| "receivedItems (x # xs) = (received x \<and> receivedItems xs)"
| "receivedPairs [] = True"
| "receivedPairs ((k, v) # ps) = (received k \<and> received v \<and> receivedPairs ps)"
| "receivedType (PyType n u origin dc attrs) =
     ((if origin = OriginBuiltin then u = []
       else (origin = OriginSandbox \<or> origin = OriginHost) \<and> uuid_ok u)
      \<and> (attrs \<noteq> None \<longrightarrow> attrPairs attrs \<noteq> []) \<and> receivedPairs (attrPairs attrs))"
  by pat_completeness auto
termination
  by (relation "measure (\<lambda>x. case x of
        Inl (Inl v) \<Rightarrow> size v
      | Inl (Inr xs) \<Rightarrow> size_list size xs
      | Inr (Inl ps) \<Rightarrow> size_list (size_prod size size) ps
      | Inr (Inr t) \<Rightarrow> size t)")
    (auto split: option.splits)

declare received.simps [simp del]

lemma receivedItems_iff: "receivedItems xs \<longleftrightarrow> (\<forall>x\<in>set xs. received x)"
  by (induction xs) auto

lemma receivedItems_snoc [simp]: "receivedItems (xs @ [x]) \<longleftrightarrow> receivedItems xs \<and> received x"
  by (auto simp: receivedItems_iff)

lemma receivedPairs_snoc [simp]:
  "receivedPairs (ps @ [(k, v)]) \<longleftrightarrow> receivedPairs ps \<and> received k \<and> received v"
  by (induction ps) auto

lemma residentItems_snoc [simp]: "residentItems (xs @ [x]) = residentItems xs + resident x"
  by (induction xs) auto

lemma residentPairs_snoc [simp]:
  "residentPairs (ps @ [(k, v)]) = residentPairs ps + (resident k + resident v)"
  by (induction ps) auto

section \<open>Paying\<close>

text \<open>From \<open>ds\<close> to \<open>ds2\<close> at least \<open>n\<close> bytes were charged and the budget was not overdrawn.\<close>

definition pays :: "dstate \<Rightarrow> nat \<Rightarrow> dstate \<Rightarrow> bool" where
  "pays ds n ds2 \<longleftrightarrow>
     (case (dRemaining ds, dRemaining ds2) of
        (None, None) \<Rightarrow> True
      | (Some m, Some k) \<Rightarrow> k + int n \<le> m \<and> (0 \<le> m \<longrightarrow> 0 \<le> k)
      | _ \<Rightarrow> False)"

lemma pays_refl [simp]: "pays ds 0 ds"
  by (simp add: pays_def split: option.splits)

lemma pays_trans: "pays ds n ds1 \<Longrightarrow> pays ds1 k ds2 \<Longrightarrow> pays ds (n + k) ds2"
  by (auto simp: pays_def split: option.splits)

lemma pays_less: "pays ds n ds2 \<Longrightarrow> k \<le> n \<Longrightarrow> pays ds k ds2"
  by (auto simp: pays_def split: option.splits)

lemma pays_addr [simp]: "pays ds n (ds2\<lparr>dNext := a\<rparr>) = pays ds n ds2"
  by (simp add: pays_def)

lemma charge_pays: "charge n ds = Inr ds2 \<Longrightarrow> pays ds n ds2"
  by (auto simp: charge_def pays_def split: option.splits if_splits)

lemma alloc_pays: "alloc x ds = (p, ds2) \<Longrightarrow> pays ds0 n ds2 = pays ds0 n ds"
  by (auto simp: alloc_def)

section \<open>Loop invariants\<close>

lemma readLoop_inv:
  assumes "readLoop pw body r s = (Inr s2, r2)" "I s"
    and "\<And>num ty r s s2 r2. I s \<Longrightarrow> body num ty r s = (Inr s2, r2) \<Longrightarrow> I s2"
  shows "I s2"
  using assms
proof (induction pw body r s arbitrary: s2 r2 rule: readLoop.induct)
  case (1 pw body r s)
  show ?case
  proof (cases "rd_next pw r")
    case (Pair o1 r1)
    show ?thesis
    proof (cases o1)
      case None
      then show ?thesis using "1.prems"(1,2) Pair by (subst (asm) readLoop.simps) simp
    next
      case (Some nt)
      obtain num ty where nt: "nt = (num, ty)" by fastforce
      obtain res r3 where res: "body num ty r1 s = (res, r3)" by fastforce
      then obtain s3 where s3: "res = Inr s3" "length (rb r3) < length (rb r)"
        "readLoop pw body r3 s3 = (Inr s2, r2)"
        using "1.prems"(1) Pair Some nt
        by (subst (asm) readLoop.simps) (auto split: sum.splits if_splits)
      have "I s3" using "1.prems"(2,3) res s3(1) by blast
      then show ?thesis
        using "1.IH" [OF Pair [symmetric] Some nt [symmetric] res [symmetric] s3(1,2)] s3(3) "1.prems"(3) by blast
    qed
  qed
qed

lemma readFields_inv:
  assumes "readFields pw body msg s = Inr s2" "I s"
    and "\<And>num ty r s s2 r2. I s \<Longrightarrow> body num ty r s = (Inr s2, r2) \<Longrightarrow> I s2"
  shows "I s2"
proof -
  obtain r2 where "readLoop pw body (new_reader msg) s = (Inr s2, r2)"
    using assms(1) by (auto simp: readFields_def split: prod.splits sum.splits option.splits)
  then show ?thesis using assms(2,3) by (rule readLoop_inv)
qed

lemma setField_InrE: "setField ar f = (Inr s2, r2) \<Longrightarrow> (\<And>a. s2 = f a \<Longrightarrow> P) \<Longrightarrow> P"
  by (auto simp: setField_def split: prod.splits)

lemma setPtr_InrE:
  "setPtr ar ds f = (Inr s2, r2) \<Longrightarrow>
   (\<And>p ds2. s2 = (f p, ds2) \<Longrightarrow> (\<And>n. pays ds n ds2 \<longleftrightarrow> pays ds n ds) \<Longrightarrow>
     (\<And>ds0 n. pays ds0 n ds2 \<longleftrightarrow> pays ds0 n ds) \<Longrightarrow> P) \<Longrightarrow> P"
  by (auto simp: setPtr_def alloc_def split: prod.splits)

lemma subField_InrE:
  "subField mr ds dv f = (Inr s2, r2) \<Longrightarrow>
   (\<And>m a ds2. dv m ds = Inr (a, ds2) \<Longrightarrow> s2 = f a ds2 \<Longrightarrow> P) \<Longrightarrow> P"
  by (auto simp: subField_def split: prod.splits sum.splits)

text \<open>A decoder that only makes good values and pays for them.\<close>

definition sound :: "('a \<Rightarrow> bool) \<Rightarrow> ('a \<Rightarrow> nat) \<Rightarrow> 'a decoder \<Rightarrow> bool" where
  "sound ok cost dv \<longleftrightarrow>
     (\<forall>msg ds a ds2. dv msg ds = Inr (a, ds2) \<longrightarrow> ok a \<and> pays ds (cost a) ds2)"

lemma soundI:
  "(\<And>msg ds a ds2. dv msg ds = Inr (a, ds2) \<Longrightarrow> ok a \<and> pays ds (cost a) ds2) \<Longrightarrow> sound ok cost dv"
  by (simp add: sound_def)

lemma soundD: "sound ok cost dv \<Longrightarrow> dv msg ds = Inr (a, ds2) \<Longrightarrow> ok a \<and> pays ds (cost a) ds2"
  by (simp add: sound_def)

section \<open>The decoders are sound\<close>

lemma list_sound:
  assumes "sound received resident dv"
  shows "sound receivedItems residentItems (decodeObjectList pw dv)"
proof (rule soundI)
  fix msg ds xs ds2
  assume dec: "decodeObjectList pw dv msg ds = Inr (xs, ds2)"
  define I where "I = (\<lambda>(xs, ds2). receivedItems xs \<and> pays ds (residentItems xs) ds2)"
  have "I (xs, ds2)"
    using dec unfolding decodeObjectList_def
    by (rule readFields_inv)
      (auto simp: I_def split: if_splits elim!: subField_InrE dest!: soundD [OF assms],
        erule pays_trans, assumption)
  then show "receivedItems xs \<and> pays ds (residentItems xs) ds2" by (simp add: I_def)
qed

text \<open>The cost of a value without its own node.\<close>

definition inside :: "pyval \<Rightarrow> nat" where
  "inside v = resident v - nodeHostSize"

lemma inside_simps [simp]:
  "inside (VNamedTuple t fs xs) = residentItems xs" "inside (VDate d) = 0" "inside (VTime tm) = 0"
  "inside (VDateTime dt) = 0" "inside (VTimeDelta td) = 0" "inside (VTimeZone tz) = 0"
  "inside (VException s m) = 0" "inside (VFunction s doc) = 0" "inside (VFileHandle a p m pos) = 0"
  "inside (VCycle i p) = 0" "inside (VList xs) = residentItems xs" "inside (VTuple xs) = residentItems xs"
  "inside (VSet (Some xs)) = residentItems xs" "inside (VFrozenSet (Some xs)) = residentItems xs"
  "inside (VDict (Some ps)) = residentPairs ps" "inside (VType ty) = residentType ty"
  "inside (VInstance ty u attrs) = residentType ty + residentPairs (attrPairs attrs)"
  "inside VNone = 0" "inside VEllipsis = 0" "inside VNotImplemented = 0" "inside (VBool q) = 0"
  "inside (VFloat64 f) = 0" "inside (VStr s) = length s" "inside (VBytes b) = length b"
  "inside (VBuiltinFunction s) = 0" "inside (VPath s) = 0"
  "isInt64 x \<Longrightarrow> inside (VInt GoInt64 x) = 0"
  by (simp_all add: inside_def resident.simps)

lemma resident_inside: "resident v = nodeHostSize + inside v"
  by (simp add: inside_def resident.simps)

lemma big_length: "length (big_bytes (big_of_bytes b)) \<le> length b"
proof -
  have "length (be_rev (le_nat bs)) \<le> length bs" for bs
  proof (induction bs)
    case Nil
    then show ?case by (subst be_rev.simps) simp
  next
    case (Cons b bs)
    have "(unat b + 256 * le_nat bs) div 256 = le_nat bs"
      using unsigned_less [of b, where ?'a = nat] by simp
    with Cons show ?case by (subst be_rev.simps) simp
  qed
  from this [of "rev b"] show ?thesis by (simp add: big_bytes_def big_of_bytes_def)
qed

lemma big_sound: "sound received inside (decodeBig pw)"
proof (rule soundI)
  fix msg ds v ds2
  assume "decodeBig pw msg ds = Inr (v, ds2)"
  then obtain neg mag where mag: "charge (length mag) ds = Inr ds2"
    and v: "v = IntValue (if neg then - int (big_of_bytes mag) else int (big_of_bytes mag))"
    by (auto simp: decodeBig_def split: sum.splits prod.splits)
  define x where "x = (if neg then - int (big_of_bytes mag) else int (big_of_bytes mag))"
  have abs: "nat \<bar>x\<bar> = big_of_bytes mag" by (simp add: x_def)
  have "inside v \<le> length mag"
    using big_length [of mag] by (auto simp: v IntValue_def inside_def resident.simps abs simp flip: x_def)
  then show "received v \<and> pays ds (inside v) ds2"
    using pays_less [OF charge_pays [OF mag]] by (auto simp: v IntValue_def received.simps)
qed

lemma fields_pay:
  fixes t :: 'a
  assumes "readFields pw body msg (t, ds) = Inr (t2, ds2)"
    and "\<And>num ty r t ds t2 ds2 r2. body num ty r (t, ds) = (Inr (t2, ds2), r2) \<Longrightarrow> pays ds 0 ds2"
  shows "pays ds 0 ds2"
proof -
  define I where "I = (\<lambda>(t :: 'a, ds2). pays ds 0 ds2)"
  have "I (t2, ds2)"
    using assms(1)
    by (rule readFields_inv) (auto simp: I_def dest!: assms(2), drule (1) pays_trans, simp)
  then show ?thesis by (simp add: I_def)
qed

lemma time_sound: "sound received inside (decodeTime pw)"
  by (rule soundI)
    (auto simp: decodeTime_def received.simps timeField_def not_less
      split: sum.splits option.splits if_splits prod.splits
      elim!: fields_pay setField_InrE setPtr_InrE)

lemma dateTime_sound: "sound received inside (decodeDateTime pw)"
  by (rule soundI)
    (auto simp: decodeDateTime_def received.simps dateTimeField_def
      split: sum.splits option.splits if_splits prod.splits
      elim!: fields_pay setField_InrE setPtr_InrE)

lemma timeZone_sound:
  "sound (\<lambda>tz. - 86400 < sint (tzOffset tz) \<and> sint (tzOffset tz) < 86400) (\<lambda>_. 0) (decodeTimeZone pw)"
  by (rule soundI)
    (auto simp: decodeTimeZone_def timeZoneField_def not_le
      split: sum.splits option.splits if_splits prod.splits
      elim!: fields_pay setField_InrE setPtr_InrE)

lemma function_sound: "sound received inside (decodeFunction pw)"
  by (rule soundI)
    (auto simp: decodeFunction_def received.simps split: sum.splits option.splits if_splits prod.splits
      elim!: fields_pay setField_InrE setPtr_InrE)

lemma plain_sound:
  "sound received inside (decodeDate pw)" "sound received inside (decodeTimeDelta pw)"
  "sound received inside (decodeExceptionValue pw)" "sound received inside (decodeFileHandle pw)"
  "sound received inside (decodeCycle pw)"
  by (rule soundI;
      auto simp: decodeDate_def decodeTimeDelta_def decodeExceptionValue_def decodeFileHandle_def
        decodeCycle_def received.simps split: sum.splits option.splits if_splits prod.splits)+

lemma namedTuple_sound:
  assumes "sound received resident dv"
  shows "sound received inside (decodeNamedTuple pw dv)"
proof (rule soundI)
  fix msg ds v ds2
  assume "decodeNamedTuple pw dv msg ds = Inr (v, ds2)"
  then obtain t fs vs where v: "v = VNamedTuple t fs vs" and
    dec: "readFields pw
        (\<lambda>num ty r ((t, fs, vs), ds).
           if num = 1 then setField (rd_str pw num ty r) (\<lambda>v. ((v, fs, vs), ds))
           else if num = 2 then setField (rd_str pw num ty r) (\<lambda>v. ((t, fs @ [v], vs), ds))
           else if num = 3 then
             subField (rd_bytes pw num ty r) ds dv (\<lambda>v ds. ((t, fs, vs @ [v]), ds))
           else (Inr ((t, fs, vs), ds), rd_skip pw num ty r)) msg (([], [], []), ds)
      = Inr ((t, fs, vs), ds2)"
    by (auto simp: decodeNamedTuple_def split: sum.splits)
  define I where "I = (\<lambda>((t :: string, fs :: string list, vs), ds2).
    receivedItems vs \<and> pays ds (residentItems vs) ds2)"
  have "I ((t, fs, vs), ds2)"
    using dec by (rule readFields_inv)
      (auto simp: I_def split: if_splits elim!: subField_InrE setField_InrE dest!: soundD [OF assms],
        erule pays_trans, assumption)
  then show "received v \<and> pays ds (inside v) ds2" by (simp add: I_def v received.simps)
qed

lemma pair_sound:
  assumes "sound received resident dv"
  shows "sound (\<lambda>(k, v). received k \<and> received v) (\<lambda>(k, v). resident k + resident v) (decodePair pw dv)"
proof (rule soundI)
  fix msg ds kv ds2
  assume "decodePair pw dv msg ds = Inr (kv, ds2)"
  then obtain k v where kv: "kv = (k, v)" and
    dec: "readFields pw
        (\<lambda>num ty r ((k, v), ds).
           if num = 1 then subField (rd_bytes pw num ty r) ds dv (\<lambda>x ds. ((Some x, v), ds))
           else if num = 2 then subField (rd_bytes pw num ty r) ds dv (\<lambda>x ds. ((k, Some x), ds))
           else (Inr ((k, v), ds), rd_skip pw num ty r)) msg ((None, None), ds)
      = Inr ((Some k, Some v), ds2)"
    by (auto simp: decodePair_def split: sum.splits option.splits)
  define I where "I = (\<lambda>((k, v), ds2). pred_option received k \<and> pred_option received v \<and>
    pays ds ((case k of None \<Rightarrow> 0 | Some k \<Rightarrow> resident k) + (case v of None \<Rightarrow> 0 | Some v \<Rightarrow> resident v)) ds2)"
  have key: "pays ds (resident x + c) ds2"
    if "pays ds (b + c) ds1" "pays ds1 (resident x) ds2" for b c x ds1 ds2
    using pays_less [OF pays_trans [OF that]] by simp
  have val: "pays ds (c + resident x) ds2"
    if "pays ds (c + b) ds1" "pays ds1 (resident x) ds2" for b c x ds1 ds2
    using pays_less [OF pays_trans [OF that]] by simp
  have "I ((Some k, Some v), ds2)"
    using dec by (rule readFields_inv)
      (auto simp: I_def split: if_splits elim!: subField_InrE dest!: soundD [OF assms],
        erule (1) key, erule (1) val)
  then show "(case kv of (k, v) \<Rightarrow> received k \<and> received v)
      \<and> pays ds (case kv of (k, v) \<Rightarrow> resident k + resident v) ds2"
    by (simp add: I_def kv)
qed

lemma dict_sound:
  assumes "sound received resident dv"
  shows "sound receivedPairs residentPairs (decodeDict pw dv)"
proof (rule soundI)
  fix msg ds ps ds2
  assume dec: "decodeDict pw dv msg ds = Inr (ps, ds2)"
  define I where "I = (\<lambda>(ps, ds2). receivedPairs ps \<and> pays ds (residentPairs ps) ds2)"
  have "I (ps, ds2)"
    using dec unfolding decodeDict_def
    by (rule readFields_inv)
      (auto simp: I_def split: if_splits elim!: subField_InrE
        dest!: soundD [OF pair_sound [OF assms]], erule pays_trans, assumption)
  then show "receivedPairs ps \<and> pays ds (residentPairs ps) ds2" by (simp add: I_def)
qed

lemma uuid_decoded:
  assumes "decodeUUIDMessage pw m = Inr u"
  shows "uuid_ok u"
proof -
  obtain raw where raw: "FormatUUID raw = Inr u"
    using assms by (auto simp: decodeUUIDMessage_def split: sum.splits)
  then show ?thesis using uuid_roundtrip(1) [OF raw] by (simp add: uuid_ok_def)
qed

text \<open>The last attributes with entries are kept, and everything read was paid for.\<close>

definition attrs_ok :: "(addr \<times> (pyval \<times> pyval) list) option \<Rightarrow> bool" where
  "attrs_ok attrs \<longleftrightarrow> (attrs \<noteq> None \<longrightarrow> attrPairs attrs \<noteq> []) \<and> receivedPairs (attrPairs attrs)"

lemma keepAttrs_sound:
  assumes "keepAttrs old d ds1 = (attrs, ds2)" "attrs_ok old" "receivedPairs d"
    and "pays ds (c + residentPairs (attrPairs old)) ds0" "pays ds0 (residentPairs d) ds1"
  shows "attrs_ok attrs \<and> pays ds (c + residentPairs (attrPairs attrs)) ds2"
proof -
  have "pays ds (c + residentPairs (attrPairs old)) ds1" "pays ds (c + residentPairs d) ds1"
    using pays_less [OF pays_trans [OF assms(4,5)]] by simp_all
  then show ?thesis
    using assms(1-3) by (auto simp: keepAttrs_def alloc_def attrs_ok_def split: if_splits)
qed

lemma type_sound:
  assumes "sound received resident dv"
  shows "sound receivedType residentType (decodeType pw dv)"
proof (rule soundI)
  fix msg ds ty ds2
  assume "decodeType pw dv msg ds = Inr (ty, ds2)"
  then obtain t where
    dec: "readFields pw (typeField pw dv) msg
        (\<lparr>tfName = [], tfID = None, tfOrigin = OriginUnspecified, tfDataclass = False,
          tfAttrs = None\<rparr>, ds) = Inr (t, ds2)"
    and ty: "ty = PyType (tfName t) (case tfID t of None \<Rightarrow> [] | Some u \<Rightarrow> u) (tfOrigin t) (tfDataclass t)
      (tfAttrs t)"
    and origin: "if tfOrigin t = OriginBuiltin then tfID t = None
      else (tfOrigin t = OriginSandbox \<or> tfOrigin t = OriginHost) \<and> tfID t \<noteq> None"
    by (auto simp: decodeType_def Let_def split: sum.splits if_splits)
  define I where "I = (\<lambda>(t :: typeFields, ds2). pred_option uuid_ok (tfID t) \<and> attrs_ok (tfAttrs t)
    \<and> pays ds (0 + residentPairs (attrPairs (tfAttrs t))) ds2)"
  have "I (t, ds2)"
    using dec
  proof (rule readFields_inv)
    fix num tg r s s2 r2
    assume "I s" "typeField pw dv num tg r s = (Inr s2, r2)"
    then show "I s2"
      by (auto simp: I_def typeField_def split: prod.splits if_splits sum.splits
          elim!: subField_InrE setField_InrE dest: uuid_decoded dest!: soundD [OF dict_sound [OF assms]]
            keepAttrs_sound [where c = 0])
  qed (simp add: I_def attrs_ok_def)
  then show "receivedType ty \<and> pays ds (residentType ty) ds2"
    using origin by (auto simp: I_def ty attrs_ok_def split: if_splits)
qed

lemma inst_sound:
  assumes "sound received resident dv1" "sound received resident dv2"
  shows "sound received inside (decodeInstance pw dv1 dv2)"
proof (rule soundI)
  fix msg ds v ds2
  assume "decodeInstance pw dv1 dv2 msg ds = Inr (v, ds2)"
  then obtain i t u where
    dec: "readFields pw (instField pw dv1 dv2) msg (\<lparr>ifType = None, ifID = None, ifAttrs = None\<rparr>, ds)
      = Inr (i, ds2)"
    and i: "ifType i = Some t" "ifID i = Some u" "tyOrigin t \<noteq> OriginBuiltin"
    and v: "v = VInstance t u (ifAttrs i)"
    by (auto simp: decodeInstance_def split: sum.splits if_splits option.splits)
  define I where "I = (\<lambda>(i :: instFields, ds2). pred_option receivedType (ifType i) \<and> pred_option uuid_ok (ifID i)
    \<and> attrs_ok (ifAttrs i)
    \<and> pays ds ((case ifType i of None \<Rightarrow> 0 | Some t \<Rightarrow> residentType t)
        + residentPairs (attrPairs (ifAttrs i))) ds2)"
  have ty: "pays ds (residentType t + c) ds2"
    if "pays ds (b + c) ds1" "pays ds1 (residentType t) ds2" for b c t ds1 ds2
    using pays_less [OF pays_trans [OF that]] by simp
  have "I (i, ds2)"
    using dec
  proof (rule readFields_inv)
    fix num tg r s s2 r2
    assume "I s" "instField pw dv1 dv2 num tg r s = (Inr s2, r2)"
    then show "I s2"
      by (auto simp: I_def instField_def split: prod.splits if_splits sum.splits
          elim!: subField_InrE dest: uuid_decoded
          dest!: soundD [OF dict_sound [OF assms(1)]] soundD [OF type_sound [OF assms(2)]] elim: ty,
          (metis keepAttrs_sound)+)
  qed (simp add: I_def attrs_ok_def)
  then show "received v \<and> pays ds (inside v) ds2"
    using i by (auto simp: I_def v attrs_ok_def received.simps)
qed

lemma received_leaves [simp]:
  "received VNone" "received VEllipsis" "received VNotImplemented" "received (VBool q)"
  "received (VStr s)" "received (VBytes b)" "received (VBuiltinFunction s)" "received (VPath s)"
  "received (VInt GoInt64 x) = isInt64 x" "received (VFloat64 f) = float_ok f"
  "received (VList xs) = receivedItems xs" "received (VTuple xs) = receivedItems xs"
  "received (VSet (Some xs)) = receivedItems xs" "received (VFrozenSet (Some xs)) = receivedItems xs"
  "received (VDict (Some ps)) = receivedPairs ps" "received (VType ty) = receivedType ty"
  "received (VTimeZone tz) = (- 86400 < sint (tzOffset tz) \<and> sint (tzOffset tz) < 86400)"
  by (simp_all add: received.simps)

lemma frombits_ok: "float_ok (Float64frombits b)"
proof -
  have "unat b div 2 ^ 52 mod 2048 < 2048" "unat b mod 2 ^ 52 < 2 ^ 52" by simp_all
  then show ?thesis
    by (auto simp: Float64frombits_def float_ok_def Let_def)
qed

lemma chargedField_InrE:
  "chargedField mr ds f = (Inr s2, r2) \<Longrightarrow>
   (\<And>m ds2. s2 = (f m, True, ds2) \<Longrightarrow> pays ds (length m) ds2 \<Longrightarrow> P) \<Longrightarrow> P"
  by (auto simp: chargedField_def split: prod.splits sum.splits dest: charge_pays)

context protowire_format
begin

lemma arm_sound:
  assumes dv1: "sound received resident dv1" and dv2: "sound received resident dv2"
    and arm: "valueArm pw dv1 dv2 num ty r (old, seen, ds1) = (Inr (v, seen2, ds2), r2)"
  shows "v = old \<and> ds2 = ds1 \<or> received v \<and> pays ds1 (inside v) ds2"
proof -
  have range: "isInt64 (DecodeZigZag pw w)" for w using zigzag_range [of w] by (simp add: isInt64_def)
  note leaf = big_sound [of pw] time_sound [of pw] dateTime_sound [of pw] function_sound [of pw]
    plain_sound [of pw] namedTuple_sound [OF dv1, of pw] inst_sound [OF dv1 dv2, of pw]
  note part = timeZone_sound [of pw] list_sound [OF dv1, of pw] dict_sound [OF dv1, of pw]
    type_sound [OF dv1, of pw]
  show ?thesis
    using arm range
    by (auto simp: valueArm_def Let_def frombits_ok split: if_splits
        elim!: setField_InrE chargedField_InrE subField_InrE dest!: leaf [THEN soundD] part [THEN soundD])
qed

lemma value_sound: "sound received resident (decodeValue pw depth)"
proof (induction "Suc maxDecodeNesting - depth" arbitrary: depth rule: less_induct)
  case less
  show ?case
  proof (rule soundI)
    fix msg ds v ds2
    assume dec: "decodeValue pw depth msg ds = Inr (v, ds2)"
    then have depth: "depth \<le> maxDecodeNesting"
      by (subst (asm) decodeValue.simps) (simp split: if_splits)
    note kids = less [of "depth + 1"] less [of "depth + 2"]
    obtain ds1 seen where ds1: "charge nodeHostSize ds = Inr ds1" and
      loop: "readFields pw (valueArm pw (decodeValue pw (depth + 1)) (decodeValue pw (depth + 2))) msg
        (VNone, False, ds1) = Inr (v, seen, ds2)"
      using dec depth by (subst (asm) decodeValue.simps) (auto split: sum.splits if_splits)
    define I where "I = (\<lambda>(v, seen :: bool, ds2). received v \<and> pays ds (resident v) ds2)"
    have "I (v, seen, ds2)"
      using loop
    proof (rule readFields_inv)
      show "I (VNone, False, ds1)"
        using charge_pays [OF ds1] by (simp add: I_def resident_inside [of VNone])
      fix num ty r s s2 r2
      assume I: "I s"
        and arm: "valueArm pw (decodeValue pw (depth + 1)) (decodeValue pw (depth + 2)) num ty r s
          = (Inr s2, r2)"
      obtain old sn da w sn2 db where s: "s = (old, sn, da)" "s2 = (w, sn2, db)"
        by (metis prod.exhaust)
      have "w = old \<and> db = da \<or> received w \<and> pays da (inside w) db"
        using arm_sound [OF _ _ arm [unfolded s]] kids depth by simp
      then show "I s2"
        using I pays_less [OF pays_trans, of ds "resident old" da "inside w" db "resident w"]
        by (auto simp: I_def s resident_inside)
    qed
    then show "received v \<and> pays ds (resident v) ds2" by (simp add: I_def)
  qed
qed

end

section \<open>Progress\<close>

text \<open>
  \<open>calm\<close> says that a reader was only moved forward; a body is \<open>steady\<close> when it moves its reader
  forward and does not report \<open>NoProgress\<close>.
\<close>

definition calm :: "reader \<Rightarrow> reader \<Rightarrow> bool" where
  "calm r r2 \<longleftrightarrow> length (rb r2) \<le> length (rb r) \<and> (rerr r2 = Some NoProgress \<longrightarrow> rerr r = Some NoProgress)"

definition steady :: "'s field_body \<Rightarrow> bool" where
  "steady body \<longleftrightarrow>
     (\<forall>num ty r s res r2. body num ty r s = (res, r2) \<longrightarrow> calm r r2 \<and> res \<noteq> Inl NoProgress)"

definition calm_decoder :: "'a decoder \<Rightarrow> bool" where
  "calm_decoder dv \<longleftrightarrow> (\<forall>msg ds. dv msg ds \<noteq> Inl NoProgress)"

lemma calm_reads:
  "rd_bytes pw num ty r = (v, r2) \<Longrightarrow> calm r r2"
  "rd_varint pw num ty r = (w, r2) \<Longrightarrow> calm r r2"
  "rd_fixed64 pw num ty r = (w, r2) \<Longrightarrow> calm r r2"
  by (auto simp: calm_def rd_bytes_def rd_varint_def rd_fixed64_def rd_advance_def wantType_def
      rd_fail_def split: prod.splits if_splits bool.splits)

lemma calm_skip [simp]: "calm r (rd_skip pw num ty r)"
  by (simp add: calm_def rd_skip_def rd_advance_def Let_def)

lemma calm_fields:
  "setField (rd_bytes pw num ty r) f = (res, r2) \<Longrightarrow> calm r r2 \<and> res \<noteq> Inl NoProgress"
  "setField (rd_varint pw num ty r) f2 = (res, r2) \<Longrightarrow> calm r r2 \<and> res \<noteq> Inl NoProgress"
  "setField (rd_fixed64 pw num ty r) f2 = (res, r2) \<Longrightarrow> calm r r2 \<and> res \<noteq> Inl NoProgress"
  "setField (rd_str pw num ty r) f3 = (res, r2) \<Longrightarrow> calm r r2 \<and> res \<noteq> Inl NoProgress"
  "setField (rd_u8 pw num ty r) f4 = (res, r2) \<Longrightarrow> calm r r2 \<and> res \<noteq> Inl NoProgress"
  "setField (rd_w32 pw num ty r) f5 = (res, r2) \<Longrightarrow> calm r r2 \<and> res \<noteq> Inl NoProgress"
  "setField (rd_bool pw num ty r) f6 = (res, r2) \<Longrightarrow> calm r r2 \<and> res \<noteq> Inl NoProgress"
  "setPtr (rd_str pw num ty r) ds g3 = (res3, r2) \<Longrightarrow> calm r r2 \<and> res3 \<noteq> Inl NoProgress"
  "setPtr (rd_w32 pw num ty r) ds g5 = (res5, r2) \<Longrightarrow> calm r r2 \<and> res5 \<noteq> Inl NoProgress"
  by (auto simp: setField_def setPtr_def alloc_def rd_str_def rd_u8_def rd_w32_def rd_bool_def
      split: prod.splits dest: calm_reads)

lemma calm_subField:
  "calm_decoder dv \<Longrightarrow> subField (rd_bytes pw num ty r) ds dv f = (res, r2) \<Longrightarrow>
   calm r r2 \<and> res \<noteq> Inl NoProgress"
  by (auto simp: subField_def calm_decoder_def split: prod.splits sum.splits dest: calm_reads)

lemma calm_chargedField:
  "chargedField (rd_bytes pw num ty r) ds f = (res, r2) \<Longrightarrow> calm r r2 \<and> res \<noteq> Inl NoProgress"
  by (auto simp: chargedField_def charge_def split: prod.splits sum.splits option.splits if_splits
      dest: calm_reads)

context protowire_format
begin

lemma loop_progress:
  assumes "steady body" "readLoop pw body r s = (res, r2)" "rerr r \<noteq> Some NoProgress"
  shows "res \<noteq> Inl NoProgress \<and> rerr r2 \<noteq> Some NoProgress"
  using assms(2,3)
proof (induction "length (rb r)" arbitrary: r s rule: less_induct)
  case less
  obtain o1 r1 where nx: "rd_next pw r = (o1, r1)" by fastforce
  have e1: "rerr r1 \<noteq> Some NoProgress"
    using nx less.prems(2) by (auto simp: rd_next_def rd_advance_def split: if_splits prod.splits)
  show ?case
  proof (cases o1)
    case None
    with nx e1 less.prems show ?thesis by (subst (asm) readLoop.simps) auto
  next
    case (Some nt)
    obtain num ty where nt: "nt = (num, ty)" by fastforce
    obtain x r3 where b: "body num ty r1 s = (x, r3)" by fastforce
    then have calm: "calm r1 r3" "x \<noteq> Inl NoProgress" using assms(1) by (auto simp: steady_def)
    have short: "length (rb r3) < length (rb r)"
      using calm(1) shrink_next [of r num ty r1] nx Some nt by (simp add: calm_def)
    have e3: "rerr r3 \<noteq> Some NoProgress" using calm(1) e1 by (auto simp: calm_def)
    show ?thesis
      using less.prems(1) nx Some nt b calm(2) short e3 less.hyps [OF short]
      by (subst (asm) readLoop.simps) (auto split: sum.splits)
  qed
qed

lemma fields_progress: "steady body \<Longrightarrow> readFields pw body msg s \<noteq> Inl NoProgress"
  using loop_progress [of body "new_reader msg" s]
  by (auto simp: readFields_def split: prod.splits sum.splits option.splits)

lemma calm_uuid: "decodeUUIDMessage pw m \<noteq> Inl NoProgress"
proof -
  have "steady (\<lambda>num typ r data. if num = 1 then (case rd_bytes pw num typ r of (d, r) \<Rightarrow> (Inr d, r))
      else (Inr data, rd_skip pw num typ r))"
    by (auto simp: steady_def split: prod.splits if_splits dest: calm_reads)
  from fields_progress [OF this] show ?thesis
    by (auto simp: decodeUUIDMessage_def FormatUUID_def Let_def split: sum.splits)
qed

text \<open>
  Every decoder is calm: each body is steady, and the errors it returns itself are others.
\<close>

lemma fieldsE: "readFields pw body msg s = Inl NoProgress \<Longrightarrow> steady body \<Longrightarrow> P"
  using fields_progress [of body msg s] by simp

lemma steadyI:
  "(\<And>num ty r s res r2. body num ty r s = (res, r2) \<Longrightarrow> calm r r2 \<and> res \<noteq> Inl NoProgress) \<Longrightarrow> steady body"
  by (simp add: steady_def)

lemma steady_structs:
  "steady (dateField pw)" "steady (timeField pw)" "steady (dateTimeField pw)"
  "steady (timeDeltaField pw)" "steady (timeZoneField pw)"
  by (rule steadyI;
      auto simp: dateField_def timeField_def dateTimeField_def timeDeltaField_def timeZoneField_def
        split: prod.splits if_splits dest: calm_fields)+

lemma calm_structs:
  "calm_decoder (decodeDate pw)" "calm_decoder (decodeTime pw)" "calm_decoder (decodeDateTime pw)"
  "calm_decoder (decodeTimeDelta pw)" "calm_decoder (decodeTimeZone pw)"
  by (auto simp: calm_decoder_def decodeDate_def decodeTime_def decodeDateTime_def decodeTimeDelta_def
      decodeTimeZone_def validateDate_def validateClock_def
      split: sum.splits option.splits if_splits elim!: fieldsE intro: steady_structs)

lemma calm_texts:
  "calm_decoder (decodeBig pw)" "calm_decoder (decodeExceptionValue pw)"
  "calm_decoder (decodeFunction pw)" "calm_decoder (decodeFileHandle pw)" "calm_decoder (decodeCycle pw)"
  by (auto simp: calm_decoder_def decodeBig_def decodeExceptionValue_def decodeFunction_def
      decodeFileHandle_def decodeCycle_def charge_def split: sum.splits option.splits if_splits
      elim!: fieldsE intro!: steadyI dest: calm_fields)

lemma calm_containers:
  assumes "calm_decoder dv"
  shows "calm_decoder (decodeObjectList pw dv)" "calm_decoder (decodeNamedTuple pw dv)"
    "calm_decoder (decodePair pw dv)"
  by (auto simp: calm_decoder_def decodeObjectList_def decodeNamedTuple_def decodePair_def
      split: sum.splits option.splits if_splits elim!: fieldsE intro!: steadyI
      dest: calm_fields calm_subField [OF assms])

lemma calm_dict: "calm_decoder dv \<Longrightarrow> calm_decoder (decodeDict pw dv)"
  by (auto simp: calm_decoder_def [of "decodeDict pw dv"] decodeDict_def
      split: sum.splits option.splits if_splits elim!: fieldsE intro!: steadyI
      dest: calm_subField [OF calm_containers(3)])

lemma calm_id:
  "calm_decoder (\<lambda>m ds. case decodeUUIDMessage pw m of Inl e \<Rightarrow> Inl e | Inr u \<Rightarrow> Inr (u, ds))"
  using calm_uuid by (auto simp: calm_decoder_def split: sum.splits)

lemma calm_type: "calm_decoder dv \<Longrightarrow> calm_decoder (decodeType pw dv)"
  by (auto simp: calm_decoder_def [of "decodeType pw dv"] decodeType_def typeField_def Let_def
      split: sum.splits option.splits if_splits elim!: fieldsE intro!: steadyI
      dest: calm_fields calm_subField [OF calm_dict] calm_subField [OF calm_id])

lemma calm_inst: "calm_decoder dv1 \<Longrightarrow> calm_decoder dv2 \<Longrightarrow> calm_decoder (decodeInstance pw dv1 dv2)"
  by (auto simp: calm_decoder_def [of "decodeInstance pw dv1 dv2"] decodeInstance_def instField_def
      split: sum.splits option.splits if_splits elim!: fieldsE intro!: steadyI
      dest: calm_subField [OF calm_dict] calm_subField [OF calm_id] calm_subField [OF calm_type])

lemma steady_arm:
  assumes "calm_decoder dv1" "calm_decoder dv2"
  shows "steady (valueArm pw dv1 dv2)"
proof (rule steadyI)
  fix num ty r s res r2
  assume "valueArm pw dv1 dv2 num ty r s = (res, r2)"
  note subs = calm_structs calm_texts calm_containers(1,2) [OF assms(1)] calm_dict [OF assms(1)]
    calm_type [OF assms(1)] calm_inst [OF assms]
  show "calm r r2 \<and> res \<noteq> Inl NoProgress"
    using \<open>valueArm pw dv1 dv2 num ty r s = (res, r2)\<close>
    by (auto simp: valueArm_def Let_def split: prod.splits if_splits
        simp: calm_reads(1) [OF surjective_pairing]
        dest: calm_fields calm_chargedField subs [THEN calm_subField])
qed

lemma value_progress: "calm_decoder (decodeValue pw depth)"
proof (induction "Suc maxDecodeNesting - depth" arbitrary: depth rule: less_induct)
  case less
  show ?case
    unfolding calm_decoder_def
    using fields_progress [OF steady_arm [OF less less]] 
    by (subst decodeValue.simps) (auto simp: charge_def split: sum.splits option.splits)
qed

end

section \<open>The properties\<close>



text \<open>
  The budget does not see the names of a named tuple: one with any number of field names of any
  length is decoded under a budget of one node.
\<close>

lemma names_not_charged:
  "\<exists>body. AppendValue wire_format [] (VNamedTuple t fs []) = Inr body \<and>
    (length body < 2 ^ 63 \<longrightarrow>
      DecodeValue wire_format body (NewBudget 88)
        = Inr (VNamedTuple t fs [], \<lparr>dRemaining = Some 0, dNext = 0\<rparr>))"
proof -
  let ?v = "VNamedTuple t fs []"
  have ok: "wireable ?v" "\<not> depthExceeds ?v 97" "affords (resident ?v) (NewBudget 88)"
    by (simp_all add: wireable_containers depth_containers affords_def NewBudget_def resident.simps
        nodeHostSize_def)
  obtain body where body: "AppendValue wire_format [] ?v = Inr body"
    using fmt.wireable_encodes [OF ok(1)] by blast
  have "arrived ?v (NewBudget 88) = (?v, \<lparr>dRemaining = Some 0, dNext = 0\<rparr>)"
    by (simp add: arrived_def arrive.simps resident.simps NewBudget_def paid_def nodeHostSize_def)
  moreover have "decodes wire_format 0 ?v body" if "length body < 2 ^ 63"
    using fmt.value_decodes [OF ok(1,2) _ _ body that] by simp
  ultimately show ?thesis using body ok(3) by (auto simp: DecodeValue_def decodes_def)
qed

end
