(* ===== verification/ExceptionCodec.thy ===== *)
theory ExceptionCodec
  imports ValueSound
begin

text \<open>
  The wire form of raised exceptions: \<^verbatim>\<open>internal/wire/exception_codec.go\<close>. The decoders have
  no budget, so they return an error or a value.
\<close>

section \<open>Encoding\<close>

definition appendOptString :: "protowire \<Rightarrow> bytes \<Rightarrow> int \<Rightarrow> string option \<Rightarrow> bytes" where
  "appendOptString pw b num p = (case p of None \<Rightarrow> b | Some s \<Rightarrow> appendStringAlways pw b num s)"

definition appendCodeLoc :: "protowire \<Rightarrow> bytes \<Rightarrow> codeLoc \<Rightarrow> bytes" where
  "appendCodeLoc pw b c =
     (let b = appendUintField pw b 1 (ucast (clLine c))
      in appendUintField pw b 2 (ucast (clColumn c)))"

definition appendFrameBody :: "protowire \<Rightarrow> bytes \<Rightarrow> frame \<Rightarrow> bytes" where
  "appendFrameBody pw b f =
     (let b = appendStringField pw b 1 (fFilename f);
          b = appendMessage pw b 2 (appendCodeLoc pw [] (fStart f));
          b = appendMessage pw b 3 (appendCodeLoc pw [] (fEnd f));
          b = appendOptString pw b 4 (fFrameName f);
          b = appendOptString pw b 5 (fPreviewLine f);
          b = appendBoolField pw b 6 (fHideCaret f)
      in appendBoolField pw b 7 (fHideFrameName f))"

definition appendUnicodeData :: "protowire \<Rightarrow> unicodeErrorData \<Rightarrow> bytes" where
  "appendUnicodeData pw u =
     (let body = appendStringField pw [] 1 (uEncoding u);
          body = (case uObjectStr u of
                    Some s \<Rightarrow> appendStringAlways pw body 3 s
                  | None \<Rightarrow> appendBytesAlways pw body 2 (uObjectBytes u));
          body = appendUintField pw body 4 (uStart u);
          body = appendUintField pw body 5 (uEnd u)
      in appendStringField pw body 6 (uReason u))"

definition appendJSONData :: "protowire \<Rightarrow> jsonErrorData \<Rightarrow> bytes" where
  "appendJSONData pw j =
     (let body = appendStringField pw [] 1 (jMsg j);
          body = appendOptString pw body 2 (jDoc j);
          body = appendUintField pw body 3 (jPos j);
          body = appendUintField pw body 4 (jLineno j)
      in appendUintField pw body 5 (jColno j))"

definition appendExcData :: "protowire \<Rightarrow> excData \<Rightarrow> bytes" where
  "appendExcData pw d =
     (case edUnicode d of
        Some u \<Rightarrow> appendMessage pw [] 1 (appendUnicodeData pw u)
      | None \<Rightarrow>
          (case edJSON d of
             Some j \<Rightarrow> appendMessage pw [] 2 (appendJSONData pw j)
           | None \<Rightarrow> []))"

definition appendExceptionBody :: "protowire \<Rightarrow> bytes \<Rightarrow> wireException \<Rightarrow> bytes" where
  "appendExceptionBody pw b e =
     (let b = appendStringField pw b 1 (excType e);
          b = appendOptString pw b 2 (excMessage e);
          b = foldl (\<lambda>b f. appendMessage pw b 3 (appendFrameBody pw [] f)) b (excTraceback e)
      in case excPayload e of None \<Rightarrow> b | Some d \<Rightarrow> appendMessage pw b 4 (appendExcData pw d))"

section \<open>Decoding\<close>

text \<open>A field whose message is decoded by a decoder without a budget.\<close>

definition partField ::
    "bytes \<times> reader \<Rightarrow> (bytes \<Rightarrow> wire_error + 'a) \<Rightarrow> ('a \<Rightarrow> 's) \<Rightarrow> (wire_error + 's) \<times> reader" where
  "partField mr dv f =
     (case mr of (m, r) \<Rightarrow> (case dv m of Inl e \<Rightarrow> (Inl e, r) | Inr a \<Rightarrow> (Inr (f a), r)))"

definition codeLocField :: "protowire \<Rightarrow> codeLoc field_body" where
  "codeLocField pw num ty r c =
     (if num = 1 then setField (rd_w32 pw num ty r) (\<lambda>v. c\<lparr>clLine := v\<rparr>)
      else if num = 2 then setField (rd_w32 pw num ty r) (\<lambda>v. c\<lparr>clColumn := v\<rparr>)
      else (Inr c, rd_skip pw num ty r))"

definition zeroLoc :: codeLoc where
  "zeroLoc = \<lparr>clLine = 0, clColumn = 0\<rparr>"

text \<open>An error inside a location becomes the error of the parent, which may already have one.\<close>

definition decodeCodeLoc :: "protowire \<Rightarrow> bytes \<times> reader \<Rightarrow> codeLoc \<times> reader" where
  "decodeCodeLoc pw mr =
     (case mr of (m, parent) \<Rightarrow>
        (case readLoop pw (codeLocField pw) (new_reader m) zeroLoc of
           (Inl e, r) \<Rightarrow> (zeroLoc, parent\<lparr>rerr := Some e\<rparr>)
         | (Inr c, r) \<Rightarrow>
             (c, if rerr r \<noteq> None \<and> rerr parent = None then parent\<lparr>rerr := rerr r\<rparr> else parent)))"

definition frameField :: "protowire \<Rightarrow> frame field_body" where
  "frameField pw num ty r f =
     (if num = 1 then setField (rd_str pw num ty r) (\<lambda>v. f\<lparr>fFilename := v\<rparr>)
      else if num = 2 then setField (decodeCodeLoc pw (rd_bytes pw num ty r)) (\<lambda>c. f\<lparr>fStart := c\<rparr>)
      else if num = 3 then setField (decodeCodeLoc pw (rd_bytes pw num ty r)) (\<lambda>c. f\<lparr>fEnd := c\<rparr>)
      else if num = 4 then setField (rd_str pw num ty r) (\<lambda>v. f\<lparr>fFrameName := Some v\<rparr>)
      else if num = 5 then setField (rd_str pw num ty r) (\<lambda>v. f\<lparr>fPreviewLine := Some v\<rparr>)
      else if num = 6 then setField (rd_bool pw num ty r) (\<lambda>v. f\<lparr>fHideCaret := v\<rparr>)
      else if num = 7 then setField (rd_bool pw num ty r) (\<lambda>v. f\<lparr>fHideFrameName := v\<rparr>)
      else (Inr f, rd_skip pw num ty r))"

definition zeroFrame :: frame where
  "zeroFrame = \<lparr>fFilename = [], fStart = zeroLoc, fEnd = zeroLoc, fFrameName = None,
     fPreviewLine = None, fHideCaret = False, fHideFrameName = False\<rparr>"

definition decodeFrame :: "protowire \<Rightarrow> bytes \<Rightarrow> wire_error + frame" where
  "decodeFrame pw msg = readFields pw (frameField pw) msg zeroFrame"

definition unicodeField :: "protowire \<Rightarrow> unicodeErrorData field_body" where
  "unicodeField pw num ty r u =
     (if num = 1 then setField (rd_str pw num ty r) (\<lambda>v. u\<lparr>uEncoding := v\<rparr>)
      else if num = 2 then setField (rd_bytes pw num ty r) (\<lambda>v. u\<lparr>uObjectBytes := v\<rparr>)
      else if num = 3 then setField (rd_str pw num ty r) (\<lambda>v. u\<lparr>uObjectStr := Some v\<rparr>)
      else if num = 4 then setField (rd_varint pw num ty r) (\<lambda>v. u\<lparr>uStart := v\<rparr>)
      else if num = 5 then setField (rd_varint pw num ty r) (\<lambda>v. u\<lparr>uEnd := v\<rparr>)
      else if num = 6 then setField (rd_str pw num ty r) (\<lambda>v. u\<lparr>uReason := v\<rparr>)
      else (Inr u, rd_skip pw num ty r))"

definition zeroUnicode :: unicodeErrorData where
  "zeroUnicode = \<lparr>uEncoding = [], uObjectBytes = [], uObjectStr = None, uStart = 0, uEnd = 0,
     uReason = []\<rparr>"

definition jsonField :: "protowire \<Rightarrow> jsonErrorData field_body" where
  "jsonField pw num ty r j =
     (if num = 1 then setField (rd_str pw num ty r) (\<lambda>v. j\<lparr>jMsg := v\<rparr>)
      else if num = 2 then setField (rd_str pw num ty r) (\<lambda>v. j\<lparr>jDoc := Some v\<rparr>)
      else if num = 3 then setField (rd_varint pw num ty r) (\<lambda>v. j\<lparr>jPos := v\<rparr>)
      else if num = 4 then setField (rd_varint pw num ty r) (\<lambda>v. j\<lparr>jLineno := v\<rparr>)
      else if num = 5 then setField (rd_varint pw num ty r) (\<lambda>v. j\<lparr>jColno := v\<rparr>)
      else (Inr j, rd_skip pw num ty r))"

definition zeroJSON :: jsonErrorData where
  "zeroJSON = \<lparr>jMsg = [], jDoc = None, jPos = 0, jLineno = 0, jColno = 0\<rparr>"

definition excDataField :: "protowire \<Rightarrow> excData field_body" where
  "excDataField pw num ty r d =
     (if num = 1 then
        partField (rd_bytes pw num ty r) (\<lambda>m. readFields pw (unicodeField pw) m zeroUnicode)
          (\<lambda>u. d\<lparr>edUnicode := Some u\<rparr>)
      else if num = 2 then
        partField (rd_bytes pw num ty r) (\<lambda>m. readFields pw (jsonField pw) m zeroJSON)
          (\<lambda>j. d\<lparr>edJSON := Some j\<rparr>)
      else (Inr d, rd_skip pw num ty r))"

definition decodeExcData :: "protowire \<Rightarrow> bytes \<Rightarrow> wire_error + excData" where
  "decodeExcData pw msg = readFields pw (excDataField pw) msg \<lparr>edUnicode = None, edJSON = None\<rparr>"

definition exceptionField :: "protowire \<Rightarrow> wireException field_body" where
  "exceptionField pw num ty r e =
     (if num = 1 then setField (rd_str pw num ty r) (\<lambda>v. e\<lparr>excType := v\<rparr>)
      else if num = 2 then setField (rd_str pw num ty r) (\<lambda>v. e\<lparr>excMessage := Some v\<rparr>)
      else if num = 3 then
        partField (rd_bytes pw num ty r) (decodeFrame pw)
          (\<lambda>f. e\<lparr>excTraceback := excTraceback e @ [f]\<rparr>)
      else if num = 4 then
        partField (rd_bytes pw num ty r) (decodeExcData pw) (\<lambda>d. e\<lparr>excPayload := Some d\<rparr>)
      else (Inr e, rd_skip pw num ty r))"

definition decodeException :: "protowire \<Rightarrow> bytes \<Rightarrow> wire_error + wireException" where
  "decodeException pw msg =
     readFields pw (exceptionField pw) msg
       \<lparr>excType = [], excMessage = None, excTraceback = [], excPayload = None\<rparr>"

section \<open>What is written is read back\<close>

text \<open>
  The payload has one arm on the wire: the Unicode data when there is some, and in it the text when
  there is one.
\<close>

definition oneArm :: "excData \<Rightarrow> excData" where
  "oneArm d =
     (case edUnicode d of
        Some u \<Rightarrow>
          \<lparr>edUnicode = Some (case uObjectStr u of None \<Rightarrow> u | Some s \<Rightarrow> u\<lparr>uObjectBytes := []\<rparr>),
           edJSON = None\<rparr>
      | None \<Rightarrow> d)"

definition optF :: "('a \<Rightarrow> bytes) \<Rightarrow> 'a option \<Rightarrow> bytes" where
  "optF f p = (case p of None \<Rightarrow> [] | Some x \<Rightarrow> f x)"

context protowire_format
begin

lemma appendOptString_F:
  "appendOptString pw b num p = b @ optF (\<lambda>x. msgF pw num (bytes_of_string x)) p"
  by (simp add: appendOptString_def optF_def appendStringAlways_F split: option.splits)

lemma loop_optF:
  assumes "1 \<le> num" "num < 2 ^ 29"
    and "\<And>x. p = Some x \<Longrightarrow>
      body num BytesType (new_reader (AppendBytes pw [] (bytes_of_string x) @ rest)) s
        = (Inr s2, new_reader rest)"
    and "p = None \<longrightarrow> s2 = s"
  shows "readLoop pw body (new_reader (optF (\<lambda>x. msgF pw num (bytes_of_string x)) p @ rest)) s
    = readLoop pw body (new_reader rest) s2"
  using assms by (auto simp: optF_def intro: loop_msgF split: option.splits)

lemma codeLoc_read:
  "decodeCodeLoc pw (appendCodeLoc pw [] c, new_reader rest) = (c, new_reader rest)"
  by (simp add: decodeCodeLoc_def appendCodeLoc_def codeLocField_def zeroLoc_def fields)

lemma optF_length: "p = Some x \<Longrightarrow> length x \<le> length (optF (\<lambda>x. msgF pw num (bytes_of_string x)) p)"
  using msgF_length [of "bytes_of_string x" num] by (simp add: optF_def)

lemma frame_read:
  assumes "length (appendFrameBody pw [] f) < 2 ^ 63"
  shows "decodeFrame pw (appendFrameBody pw [] f) = Inr f"
proof -
  have lens: "length (fFilename f) < 2 ^ 63" "length (appendCodeLoc pw [] (fStart f)) < 2 ^ 63"
    "length (appendCodeLoc pw [] (fEnd f)) < 2 ^ 63"
    "\<And>x. fFrameName f = Some x \<Longrightarrow> length x < 2 ^ 63"
    "\<And>x. fPreviewLine f = Some x \<Longrightarrow> length x < 2 ^ 63"
    using assms strF_length [of "fFilename f" 1] msgF_length [of "appendCodeLoc pw [] (fStart f)" 2]
      msgF_length [of "appendCodeLoc pw [] (fEnd f)" 3] optF_length [of "fFrameName f" _ 4]
      optF_length [of "fPreviewLine f" _ 5]
    by (auto simp: appendFrameBody_def append_F appendOptString_F Let_def)
  show ?thesis
    unfolding decodeFrame_def
  proof (rule fields_done)
    show "readLoop pw (frameField pw) (new_reader (appendFrameBody pw [] f)) zeroFrame
      = (Inr f, new_reader [])"
      using lens
      by (cases f; cases "fFrameName f"; cases "fPreviewLine f")
        (simp_all add: appendFrameBody_def appendOptString_F optF_def frameField_def zeroFrame_def
          codeLoc_read fields)
  qed
qed

lemma unicode_read:
  assumes "length (appendUnicodeData pw u) < 2 ^ 63"
  shows "readFields pw (unicodeField pw) (appendUnicodeData pw u) zeroUnicode
    = Inr (case uObjectStr u of None \<Rightarrow> u | Some s \<Rightarrow> u\<lparr>uObjectBytes := []\<rparr>)"
proof -
  have lens: "length (uEncoding u) < 2 ^ 63" "length (uReason u) < 2 ^ 63"
    "\<And>x. uObjectStr u = Some x \<Longrightarrow> length x < 2 ^ 63"
    "uObjectStr u = None \<Longrightarrow> length (uObjectBytes u) < 2 ^ 63"
    using assms strF_length [of "uEncoding u" 1] strF_length [of "uReason u" 6]
      msgF_length [of "uObjectBytes u" 2] msgF_length [of "bytes_of_string (the (uObjectStr u))" 3]
    by (cases "uObjectStr u"; auto simp: appendUnicodeData_def append_F Let_def)+
  show ?thesis
    by (rule fields_done, use lens in \<open>cases u; cases "uObjectStr u"\<close>)
      (simp_all add: appendUnicodeData_def unicodeField_def zeroUnicode_def fields)
qed

lemma json_read:
  assumes "length (appendJSONData pw j) < 2 ^ 63"
  shows "readFields pw (jsonField pw) (appendJSONData pw j) zeroJSON = Inr j"
proof -
  have lens: "length (jMsg j) < 2 ^ 63" "\<And>x. jDoc j = Some x \<Longrightarrow> length x < 2 ^ 63"
    using assms strF_length [of "jMsg j" 1] optF_length [of "jDoc j" _ 2]
    by (auto simp: appendJSONData_def append_F appendOptString_F Let_def)
  show ?thesis
    by (rule fields_done, use lens in \<open>cases j; cases "jDoc j"\<close>)
      (simp_all add: appendJSONData_def appendOptString_F optF_def jsonField_def zeroJSON_def fields)
qed

lemma excData_read:
  assumes "length (appendExcData pw d) < 2 ^ 63"
  shows "decodeExcData pw (appendExcData pw d) = Inr (oneArm d)"
  unfolding decodeExcData_def
proof (rule fields_done)
  show "readLoop pw (excDataField pw) (new_reader (appendExcData pw d)) \<lparr>edUnicode = None, edJSON = None\<rparr>
    = (Inr (oneArm d), new_reader [])"
  proof (cases "edUnicode d")
    case (Some u)
    have "length (appendUnicodeData pw u) < 2 ^ 63"
      using assms msgF_length [of "appendUnicodeData pw u" 1] Some by (simp add: appendExcData_def append_F)
    with Some unicode_read [OF this] show ?thesis
      by (simp add: appendExcData_def oneArm_def excDataField_def partField_def fields)
  next
    case None
    show ?thesis
    proof (cases "edJSON d")
      case (Some j)
      have "length (appendJSONData pw j) < 2 ^ 63"
        using assms msgF_length [of "appendJSONData pw j" 2] None Some
        by (simp add: appendExcData_def append_F)
      with None Some json_read [OF this] show ?thesis
        by (cases d) (simp add: appendExcData_def oneArm_def excDataField_def partField_def fields)
    qed (use None in \<open>cases d; simp add: appendExcData_def oneArm_def\<close>)
  qed
qed

lemma frames_F:
  "foldl (\<lambda>b f. b @ msgF pw 3 (appendFrameBody pw [] f)) b fs
    = b @ concat (map (\<lambda>f. msgF pw 3 (appendFrameBody pw [] f)) fs)"
  by (induction fs arbitrary: b) simp_all

lemma frames_read:
  assumes "\<forall>f\<in>set fs. length (appendFrameBody pw [] f) < 2 ^ 63"
  shows "readLoop pw (exceptionField pw)
      (new_reader (concat (map (\<lambda>f. msgF pw 3 (appendFrameBody pw [] f)) fs) @ rest)) e
    = readLoop pw (exceptionField pw) (new_reader rest) (e\<lparr>excTraceback := excTraceback e @ fs\<rparr>)"
  using assms
proof (induction fs arbitrary: e)
  case (Cons f fs)
  have "readLoop pw (exceptionField pw)
      (new_reader (concat (map (\<lambda>f. msgF pw 3 (appendFrameBody pw [] f)) (f # fs)) @ rest)) e
    = readLoop pw (exceptionField pw)
      (new_reader (concat (map (\<lambda>f. msgF pw 3 (appendFrameBody pw [] f)) fs) @ rest))
      (e\<lparr>excTraceback := excTraceback e @ [f]\<rparr>)"
    using Cons.prems
    by (simp add: loop_msgF exceptionField_def partField_def read_bytes frame_read)
  then show ?case using Cons by simp
qed simp

lemma exception_read:
  assumes "length (appendExceptionBody pw [] e) < 2 ^ 63"
  shows "decodeException pw (appendExceptionBody pw [] e)
    = Inr (e\<lparr>excPayload := map_option oneArm (excPayload e)\<rparr>)"
proof -
  let ?fs = "concat (map (\<lambda>f. msgF pw 3 (appendFrameBody pw [] f)) (excTraceback e))"
  let ?ds = "optF (\<lambda>d. msgF pw 4 (appendExcData pw d)) (excPayload e)"
  have body: "appendExceptionBody pw [] e = strF pw 1 (excType e)
      @ optF (\<lambda>x. msgF pw 2 (bytes_of_string x)) (excMessage e) @ ?fs @ ?ds"
    by (simp add: appendExceptionBody_def append_F appendOptString_F frames_F Let_def optF_def
        split: option.splits)
  have frame: "length (appendFrameBody pw [] f) \<le> length ?fs" if "f \<in> set (excTraceback e)" for f
    using member_le_sum_list [of "length (msgF pw 3 (appendFrameBody pw [] f))"
        "map (length \<circ> (\<lambda>f. msgF pw 3 (appendFrameBody pw [] f))) (excTraceback e)"] that
      msgF_length [of "appendFrameBody pw [] f" 3]
    by (force simp: length_concat)
  have lens: "length (excType e) < 2 ^ 63" "\<And>x. excMessage e = Some x \<Longrightarrow> length x < 2 ^ 63"
    "\<And>d. excPayload e = Some d \<Longrightarrow> length (appendExcData pw d) < 2 ^ 63"
    "\<forall>f\<in>set (excTraceback e). length (appendFrameBody pw [] f) < 2 ^ 63"
    using assms strF_length [of "excType e" 1] optF_length [of "excMessage e" _ 2] frame
      msgF_length [of "appendExcData pw (the (excPayload e))" 4]
    by (auto simp: body optF_def dest!: frame split: option.splits)
  show ?thesis
    unfolding decodeException_def body
    by (rule fields_done, use lens in \<open>cases e; cases "excMessage e"; cases "excPayload e"\<close>)
      (simp_all add: optF_def exceptionField_def partField_def fields frames_read
        frames_read [where rest = "[]", simplified] excData_read)
qed

end

text \<open>
  C32. An exception survives the wire: \<^verbatim>\<open>decodeException\<close> reads what \<^verbatim>\<open>appendExceptionBody\<close>
  writes and gives back the type, the message, every frame of the traceback in order and the
  payload, of which the Unicode arm wins when both are set.
\<close>

theorem exception_roundtrip:
  assumes "protowire_format pw" "length (appendExceptionBody pw [] e) < 2 ^ 63"
  shows "decodeException pw (appendExceptionBody pw [] e)
    = Inr (e\<lparr>excPayload := map_option oneArm (excPayload e)\<rparr>)"
  using assms by (rule protowire_format.exception_read)

definition sample_exception :: wireException where
  "sample_exception =
     \<lparr>excType = ''KeyError'', excMessage = Some [],
      excTraceback = [zeroFrame\<lparr>fFilename := ''main.py'', fStart := \<lparr>clLine = 3, clColumn = 9\<rparr>,
        fPreviewLine := Some ''x''\<rparr>, zeroFrame],
      excPayload = Some \<lparr>edUnicode = None, edJSON = None\<rparr>\<rparr>"

theorem exception_roundtrip_witness:
  "decodeException wire_format (appendExceptionBody wire_format [] sample_exception)
    = Inr sample_exception"
proof -
  have "length (appendExceptionBody wire_format [] sample_exception) < 2 ^ 63"
    by (simp add: sample_exception_def appendExceptionBody_def appendOptString_def appendFrameBody_def
        appendCodeLoc_def appendExcData_def zeroFrame_def zeroLoc_def appendUintField_def
        appendBoolField_def appendVarintField_def wire_codes)
  from exception_roundtrip [OF fmt.protowire_format_axioms this] show ?thesis
    by (simp add: sample_exception_def oneArm_def)
qed

end
