(* ===== verification/EventDecode.thy ===== *)
theory EventDecode
  imports ExceptionCodec
begin

text \<open>
  The events a worker sends: \<^verbatim>\<open>internal/wire/event.go\<close> and the decoder of OS calls in
  \<^verbatim>\<open>internal/wire/oscall.go\<close>. The decoders share the budget of the frame with the values
  inside.
\<close>

section \<open>Data\<close>

datatype eventKind =
    EventNone | EventPrint | EventFunctionCall | EventOsCall | EventNameLookup | EventResolveFutures
  | EventComplete | EventError | EventTypingError | EventDumpResult | EventOk | EventFatalError
  | EventShutdown

text \<open>The indices of \<^verbatim>\<open>eventNames\<close> are all kinds, so no other text is ever made.\<close>

fun EventKind_String :: "eventKind \<Rightarrow> string" where
  "EventKind_String EventNone = ''None''"
| "EventKind_String EventPrint = ''Print''"
| "EventKind_String EventFunctionCall = ''FunctionCall''"
| "EventKind_String EventOsCall = ''OsCall''"
| "EventKind_String EventNameLookup = ''NameLookup''"
| "EventKind_String EventResolveFutures = ''ResolveFutures''"
| "EventKind_String EventComplete = ''Complete''"
| "EventKind_String EventError = ''Error''"
| "EventKind_String EventTypingError = ''TypingError''"
| "EventKind_String EventDumpResult = ''DumpResult''"
| "EventKind_String EventOk = ''Ok''"
| "EventKind_String EventFatalError = ''FatalError''"
| "EventKind_String EventShutdown = ''ShutdownDump''"

record printSegment =
  psStream :: byte
  psText :: string

record functionCall =
  fcFunctionName :: string
  fcArgs :: "pyval list"
  fcKwargs :: "(pyval \<times> pyval) list"
  fcCallID :: "32 word"
  fcObjectID :: string
  fcAllowEagerAwait :: bool

record nameLookup =
  nlName :: string
  nlObjectID :: string

text \<open>Pointers to structs are only tested for \<^verbatim>\<open>nil\<close> and read, so they are options.\<close>

record event =
  evKind :: eventKind
  evPrint :: "printSegment list"
  evFunctionCall :: "functionCall option"
  evOsCall :: "osCall option"
  evNameLookup :: "nameLookup option"
  evPendingCallIDs :: "32 word list"
  evValue :: pyval
  evHasValue :: bool
  evException :: "wireException option"
  evDiagnostics :: string
  evState :: bytes
  evFatalMessage :: string
  evShutdownDump :: bytes
  evHasShutdownDump :: bool
  evTotalExecutionMicros :: u64
  evMaxDurationMicros :: "u64 option"
  evRestoredScriptName :: "string option"
  evMaxSuspensions :: "u64 option"

definition IsSuspension :: "event \<Rightarrow> bool" where
  "IsSuspension ev \<longleftrightarrow>
     evKind ev \<in> {EventFunctionCall, EventOsCall, EventNameLookup, EventResolveFutures}"

section \<open>OS calls\<close>

definition zeroTZ :: pyTimeZone where
  "zeroTZ = \<lparr>tzOffset = 0, tzName = None\<rparr>"

definition zeroOsCall :: osCall where
  "zeroOsCall =
     \<lparr>ocCallID = 0, ocOp = OpUnset, ocPath = [], ocDst = [], ocText = [], ocData = [], ocMode = [],
      ocParents = False, ocExistOK = False, ocKey = [], ocDefault = VNone, ocHasTZ = False,
      ocTZ = zeroTZ, ocPayloadErr = None\<rparr>"

text \<open>The conversion \<^verbatim>\<open>OsOp(num)\<close> for the numbers of the fields.\<close>

definition osOps :: "osOp list" where
  "osOps =
     [OpUnset, OpUnset, OpExists, OpIsFile, OpIsDir, OpIsSymlink, OpReadText, OpReadBytes, OpStat,
      OpIterdir, OpResolve, OpAbsolute, OpUnlink, OpRmdir, OpWriteText, OpAppendText, OpWriteBytes,
      OpAppendBytes, OpOpen, OpMkdir, OpRename, OpGetenv, OpGetEnviron, OpDateToday, OpDateTimeNow]"

definition toOsOp :: "int \<Rightarrow> osOp" where
  "toOsOp num = osOps ! nat num"

text \<open>The inner loops, one for each shape of a payload. The state is the call and the decoder state.\<close>

definition writeField :: "protowire \<Rightarrow> int \<Rightarrow> (osCall \<times> dstate) field_body" where
  "writeField pw num n t r s =
     (case s of (c, ds) \<Rightarrow>
        if n = 1 then setField (rd_str pw n t r) (\<lambda>v. (c\<lparr>ocPath := v\<rparr>, ds))
        else if n = 2 then
          (case rd_bytes pw n t r of (m, r) \<Rightarrow>
             (case charge (length m) ds of
                Inl e \<Rightarrow> (Inl e, r)
              | Inr ds \<Rightarrow>
                  (Inr (if num \<le> 15 then c\<lparr>ocText := string_of_bytes m\<rparr> else c\<lparr>ocData := m\<rparr>, ds), r)))
        else (Inr (c, ds), rd_skip pw n t r))"

definition openField :: "protowire \<Rightarrow> (osCall \<times> dstate) field_body" where
  "openField pw n t r s =
     (case s of (c, ds) \<Rightarrow>
        if n = 1 then setField (rd_str pw n t r) (\<lambda>v. (c\<lparr>ocPath := v\<rparr>, ds))
        else if n = 2 then setField (rd_str pw n t r) (\<lambda>v. (c\<lparr>ocMode := v\<rparr>, ds))
        else (Inr (c, ds), rd_skip pw n t r))"

definition mkdirField :: "protowire \<Rightarrow> (osCall \<times> dstate) field_body" where
  "mkdirField pw n t r s =
     (case s of (c, ds) \<Rightarrow>
        if n = 1 then setField (rd_str pw n t r) (\<lambda>v. (c\<lparr>ocPath := v\<rparr>, ds))
        else if n = 2 then setField (rd_bool pw n t r) (\<lambda>v. (c\<lparr>ocParents := v\<rparr>, ds))
        else if n = 3 then setField (rd_bool pw n t r) (\<lambda>v. (c\<lparr>ocExistOK := v\<rparr>, ds))
        else (Inr (c, ds), rd_skip pw n t r))"

definition renameField :: "protowire \<Rightarrow> (osCall \<times> dstate) field_body" where
  "renameField pw n t r s =
     (case s of (c, ds) \<Rightarrow>
        if n = 1 then setField (rd_str pw n t r) (\<lambda>v. (c\<lparr>ocPath := v\<rparr>, ds))
        else if n = 2 then setField (rd_str pw n t r) (\<lambda>v. (c\<lparr>ocDst := v\<rparr>, ds))
        else (Inr (c, ds), rd_skip pw n t r))"

definition getenvField :: "protowire \<Rightarrow> (osCall \<times> dstate) field_body" where
  "getenvField pw n t r s =
     (case s of (c, ds) \<Rightarrow>
        if n = 1 then setField (rd_str pw n t r) (\<lambda>v. (c\<lparr>ocKey := v\<rparr>, ds))
        else if n = 2 then
          subField (rd_bytes pw n t r) ds (decodeValue pw 1) (\<lambda>v ds. (c\<lparr>ocDefault := v\<rparr>, ds))
        else (Inr (c, ds), rd_skip pw n t r))"

definition nowField :: "protowire \<Rightarrow> (osCall \<times> dstate) field_body" where
  "nowField pw n t r s =
     (case s of (c, ds) \<Rightarrow>
        if n = 1 then
          subField (rd_bytes pw n t r) ds (decodeTimeZone pw)
            (\<lambda>tz ds. (c\<lparr>ocTZ := tz, ocHasTZ := True\<rparr>, ds))
        else (Inr (c, ds), rd_skip pw n t r))"

text \<open>One payload: the operation is set before the inner loop runs.\<close>

definition payload ::
    "protowire \<Rightarrow> (osCall \<times> dstate) field_body \<Rightarrow> osCall \<Rightarrow> osCall decoder" where
  "payload pw body c msg ds = readFields pw body msg (c, ds)"

definition checkMode :: "osCall \<Rightarrow> osCall" where
  "checkMode c = (if \<not> validHandleMode (ocMode c) then c\<lparr>ocPayloadErr := Some (ocMode c)\<rparr> else c)"

definition osCallField :: "protowire \<Rightarrow> (osCall \<times> dstate) field_body" where
  "osCallField pw num ty r s =
     (case s of (c, ds) \<Rightarrow>
        if num = 1 then setField (rd_w32 pw num ty r) (\<lambda>v. (c\<lparr>ocCallID := v\<rparr>, ds))
        else if 2 \<le> num \<and> num \<le> 13 then
          setField (rd_str pw num ty r) (\<lambda>v. (c\<lparr>ocOp := toOsOp num, ocPath := v\<rparr>, ds))
        else if 14 \<le> num \<and> num \<le> 17 then
          subField (rd_bytes pw num ty r) ds (payload pw (writeField pw num) (c\<lparr>ocOp := toOsOp num\<rparr>)) Pair
        else if num = 18 then
          subField (rd_bytes pw num ty r) ds (payload pw (openField pw) (c\<lparr>ocOp := OpOpen\<rparr>))
            (\<lambda>c ds. (checkMode c, ds))
        else if num = 19 then
          subField (rd_bytes pw num ty r) ds (payload pw (mkdirField pw) (c\<lparr>ocOp := OpMkdir\<rparr>)) Pair
        else if num = 20 then
          subField (rd_bytes pw num ty r) ds (payload pw (renameField pw) (c\<lparr>ocOp := OpRename\<rparr>)) Pair
        else if num = 21 then
          subField (rd_bytes pw num ty r) ds (payload pw (getenvField pw) (c\<lparr>ocOp := OpGetenv\<rparr>)) Pair
        else if num = 22 \<or> num = 23 then
          setField (rd_bytes pw num ty r) (\<lambda>_. (c\<lparr>ocOp := toOsOp num\<rparr>, ds))
        else if num = 24 then
          subField (rd_bytes pw num ty r) ds (payload pw (nowField pw) (c\<lparr>ocOp := OpDateTimeNow\<rparr>)) Pair
        else (Inr (c, ds), rd_skip pw num ty r))"

definition decodeOsCall :: "protowire \<Rightarrow> osCall decoder" where
  "decodeOsCall pw msg ds = readFields pw (osCallField pw) msg (zeroOsCall, ds)"

section \<open>The other messages\<close>

definition decodeSingleString :: "protowire \<Rightarrow> bytes \<Rightarrow> wire_error + string" where
  "decodeSingleString pw msg =
     readFields pw
       (\<lambda>n t r s. if n = 1 then setField (rd_str pw n t r) (\<lambda>v. v) else (Inr s, rd_skip pw n t r))
       msg []"

definition segmentField :: "protowire \<Rightarrow> printSegment field_body" where
  "segmentField pw n t r seg =
     (if n = 1 then
        setField (rd_varint pw n t r) (\<lambda>v. if v = 2 then seg\<lparr>psStream := 2\<rparr> else seg)
      else if n = 2 then setField (rd_str pw n t r) (\<lambda>v. seg\<lparr>psText := v\<rparr>)
      else (Inr seg, rd_skip pw n t r))"

definition decodePrint :: "protowire \<Rightarrow> bytes \<Rightarrow> wire_error + printSegment list" where
  "decodePrint pw msg =
     readFields pw
       (\<lambda>num ty r segs.
          if num \<noteq> 3 then (Inr segs, rd_skip pw num ty r)
          else partField (rd_bytes pw num ty r)
                 (\<lambda>m. readFields pw (segmentField pw) m \<lparr>psStream = 1, psText = []\<rparr>)
                 (\<lambda>seg. segs @ [seg]))
       msg []"

definition functionCallField :: "protowire \<Rightarrow> (functionCall \<times> dstate) field_body" where
  "functionCallField pw num ty r s =
     (case s of (fc, ds) \<Rightarrow>
        if num = 1 then setField (rd_str pw num ty r) (\<lambda>v. (fc\<lparr>fcFunctionName := v\<rparr>, ds))
        else if num = 2 then
          subField (rd_bytes pw num ty r) ds (decodeValue pw 0)
            (\<lambda>v ds. (fc\<lparr>fcArgs := fcArgs fc @ [v]\<rparr>, ds))
        else if num = 3 then
          subField (rd_bytes pw num ty r) ds (decodePair pw (decodeValue pw 1))
            (\<lambda>(k, v) ds. (fc\<lparr>fcKwargs := fcKwargs fc @ [(k, v)]\<rparr>, ds))
        else if num = 4 then setField (rd_w32 pw num ty r) (\<lambda>v. (fc\<lparr>fcCallID := v\<rparr>, ds))
        else if num = 5 then
          partField (rd_bytes pw num ty r) (decodeUUIDMessage pw) (\<lambda>u. (fc\<lparr>fcObjectID := u\<rparr>, ds))
        else if num = 6 then setField (rd_bool pw num ty r) (\<lambda>v. (fc\<lparr>fcAllowEagerAwait := v\<rparr>, ds))
        else (Inr (fc, ds), rd_skip pw num ty r))"

definition zeroFunctionCall :: functionCall where
  "zeroFunctionCall =
     \<lparr>fcFunctionName = [], fcArgs = [], fcKwargs = [], fcCallID = 0, fcObjectID = [],
      fcAllowEagerAwait = False\<rparr>"

definition decodeFunctionCall :: "protowire \<Rightarrow> functionCall decoder" where
  "decodeFunctionCall pw msg ds = readFields pw (functionCallField pw) msg (zeroFunctionCall, ds)"

definition nameLookupField :: "protowire \<Rightarrow> nameLookup field_body" where
  "nameLookupField pw num ty r nl =
     (if num = 1 then setField (rd_str pw num ty r) (\<lambda>v. nl\<lparr>nlName := v\<rparr>)
      else if num = 2 then
        partField (rd_bytes pw num ty r)
          (\<lambda>m. case decodeUUIDMessage pw m of
                  Inl e \<Rightarrow> Inl (WireMsg ''NameLookup.object_id is not a 16-byte uuid'')
                | Inr u \<Rightarrow> Inr u)
          (\<lambda>u. nl\<lparr>nlObjectID := u\<rparr>)
      else (Inr nl, rd_skip pw num ty r))"

definition decodeNameLookup :: "protowire \<Rightarrow> bytes \<Rightarrow> wire_error + nameLookup" where
  "decodeNameLookup pw msg = readFields pw (nameLookupField pw) msg \<lparr>nlName = [], nlObjectID = []\<rparr>"

section \<open>Events\<close>

definition zeroEvent :: event where
  "zeroEvent =
     \<lparr>evKind = EventNone, evPrint = [], evFunctionCall = None, evOsCall = None, evNameLookup = None,
      evPendingCallIDs = [], evValue = VNone, evHasValue = False, evException = None,
      evDiagnostics = [], evState = [], evFatalMessage = [], evShutdownDump = [],
      evHasShutdownDump = False, evTotalExecutionMicros = 0, evMaxDurationMicros = None,
      evRestoredScriptName = None, evMaxSuspensions = None\<rparr>"

text \<open>The loops that the arms 5, 6, 7, 9 and 12 have inline.\<close>

definition idsLoop :: "protowire \<Rightarrow> bytes \<Rightarrow> wire_error + 32 word list" where
  "idsLoop pw msg =
     readFields pw
       (\<lambda>n t r ids. if n = 1 then (case uint32s pw n t ids r of (ids, r) \<Rightarrow> (Inr ids, r))
          else (Inr ids, rd_skip pw n t r)) msg []"

definition completeLoop :: "protowire \<Rightarrow> event \<Rightarrow> event decoder" where
  "completeLoop pw ev msg ds =
     readFields pw
       (\<lambda>n t r (ev, ds).
          if n = 1 then
            subField (rd_bytes pw n t r) ds (decodeValue pw 0)
              (\<lambda>v ds. (ev\<lparr>evValue := v, evHasValue := True\<rparr>, ds))
          else (Inr (ev, ds), rd_skip pw n t r)) msg (ev, ds)"

definition errorLoop :: "protowire \<Rightarrow> event \<Rightarrow> bytes \<Rightarrow> wire_error + event" where
  "errorLoop pw ev msg =
     readFields pw
       (\<lambda>n t r ev.
          if n = 1 then
            partField (rd_bytes pw n t r) (decodeException pw) (\<lambda>e. ev\<lparr>evException := Some e\<rparr>)
          else (Inr ev, rd_skip pw n t r)) msg ev"

definition dumpLoop :: "protowire \<Rightarrow> event \<Rightarrow> bytes \<Rightarrow> wire_error + event" where
  "dumpLoop pw ev msg =
     readFields pw
       (\<lambda>n t r ev.
          if n = 1 then setField (rd_bytes pw n t r) (\<lambda>m. ev\<lparr>evState := m\<rparr>)
          else (Inr ev, rd_skip pw n t r)) msg ev"

definition shutdownLoop :: "protowire \<Rightarrow> event \<Rightarrow> bytes \<Rightarrow> wire_error + event" where
  "shutdownLoop pw ev msg =
     readFields pw
       (\<lambda>n t r ev.
          if n = 1 then
            setField (rd_bytes pw n t r) (\<lambda>m. ev\<lparr>evShutdownDump := m, evHasShutdownDump := True\<rparr>)
          else (Inr ev, rd_skip pw n t r)) msg ev"

definition eventField :: "protowire \<Rightarrow> (event \<times> dstate) field_body" where
  "eventField pw num ty r s =
     (case s of (ev, ds) \<Rightarrow>
        if num = 1 then
          partField (rd_bytes pw num ty r) (decodePrint pw)
            (\<lambda>p. (ev\<lparr>evKind := EventPrint, evPrint := p\<rparr>, ds))
        else if num = 2 then
          subField (rd_bytes pw num ty r) ds (decodeFunctionCall pw)
            (\<lambda>fc ds. (ev\<lparr>evKind := EventFunctionCall, evFunctionCall := Some fc\<rparr>, ds))
        else if num = 3 then
          subField (rd_bytes pw num ty r) ds (decodeOsCall pw)
            (\<lambda>c ds. (ev\<lparr>evKind := EventOsCall, evOsCall := Some c\<rparr>, ds))
        else if num = 4 then
          partField (rd_bytes pw num ty r) (decodeNameLookup pw)
            (\<lambda>nl. (ev\<lparr>evKind := EventNameLookup, evNameLookup := Some nl\<rparr>, ds))
        else if num = 5 then
          partField (rd_bytes pw num ty r) (idsLoop pw)
            (\<lambda>ids. (ev\<lparr>evKind := EventResolveFutures, evPendingCallIDs := ids\<rparr>, ds))
        else if num = 6 then
          subField (rd_bytes pw num ty r) ds (completeLoop pw (ev\<lparr>evKind := EventComplete\<rparr>)) Pair
        else if num = 7 then
          partField (rd_bytes pw num ty r) (errorLoop pw (ev\<lparr>evKind := EventError\<rparr>)) (\<lambda>ev. (ev, ds))
        else if num = 8 then
          partField (rd_bytes pw num ty r) (decodeSingleString pw)
            (\<lambda>m. (ev\<lparr>evKind := EventTypingError, evDiagnostics := m\<rparr>, ds))
        else if num = 9 then
          partField (rd_bytes pw num ty r) (dumpLoop pw (ev\<lparr>evKind := EventDumpResult\<rparr>))
            (\<lambda>ev. (ev, ds))
        else if num = 10 then setField (rd_bytes pw num ty r) (\<lambda>_. (ev\<lparr>evKind := EventOk\<rparr>, ds))
        else if num = 11 then
          partField (rd_bytes pw num ty r) (decodeSingleString pw)
            (\<lambda>m. (ev\<lparr>evKind := EventFatalError, evFatalMessage := m\<rparr>, ds))
        else if num = 12 then
          partField (rd_bytes pw num ty r) (shutdownLoop pw (ev\<lparr>evKind := EventShutdown\<rparr>))
            (\<lambda>ev. (ev, ds))
        else if num = 20 then
          setField (rd_varint pw num ty r) (\<lambda>v. (ev\<lparr>evTotalExecutionMicros := v\<rparr>, ds))
        else if num = 21 then
          setField (rd_varint pw num ty r) (\<lambda>v. (ev\<lparr>evMaxDurationMicros := Some v\<rparr>, ds))
        else if num = 22 then
          setField (rd_str pw num ty r) (\<lambda>v. (ev\<lparr>evRestoredScriptName := Some v\<rparr>, ds))
        else if num = 23 then
          setField (rd_varint pw num ty r) (\<lambda>v. (ev\<lparr>evMaxSuspensions := Some v\<rparr>, ds))
        else (Inr (ev, ds), rd_skip pw num ty r))"

definition DecodeEventWithBudget :: "protowire \<Rightarrow> event decoder" where
  "DecodeEventWithBudget pw bytes ds = readFields pw (eventField pw) bytes (zeroEvent, ds)"

definition DecodeEvent :: "protowire \<Rightarrow> bytes \<Rightarrow> wire_error + event \<times> dstate" where
  "DecodeEvent pw bytes = DecodeEventWithBudget pw bytes (NewBudget (int DefaultMaxDecodeBytes))"

end
