(* ===== verification/EventSound.thy ===== *)
theory EventSound
  imports EventDecode
begin

text \<open>
  What the decoder of events accepts, whoever sent it: the payload that the kind announces is there,
  everything in it is well formed and was paid for, and no message makes a loop stand still.
\<close>

section \<open>The events that decoding makes\<close>

definition call_ok :: "functionCall \<Rightarrow> bool" where
  "call_ok fc \<longleftrightarrow>
     receivedItems (fcArgs fc) \<and> receivedPairs (fcKwargs fc)
     \<and> (fcObjectID fc = [] \<or> uuid_ok (fcObjectID fc))"

definition call_cost :: "functionCall \<Rightarrow> nat" where
  "call_cost fc = residentItems (fcArgs fc) + residentPairs (fcKwargs fc)"

text \<open>A value that was decoded was paid for; the zero value was not.\<close>

definition value_cost :: "pyval \<Rightarrow> nat" where
  "value_cost v = (if v = VNone then 0 else resident v)"

definition os_parts :: "osCall \<Rightarrow> bool" where
  "os_parts c \<longleftrightarrow>
     received (ocDefault c) \<and> - 86400 < sint (tzOffset (ocTZ c)) \<and> sint (tzOffset (ocTZ c)) < 86400
     \<and> pred_option (\<lambda>m. \<not> validHandleMode m) (ocPayloadErr c)"

definition os_ok :: "osCall \<Rightarrow> bool" where
  "os_ok c \<longleftrightarrow>
     os_parts c \<and> (ocOp c = OpOpen \<longrightarrow> validHandleMode (ocMode c) \<or> ocPayloadErr c \<noteq> None)"

definition os_cost :: "osCall \<Rightarrow> nat" where
  "os_cost c = length (ocText c) + length (ocData c) + value_cost (ocDefault c)"

definition lookup_ok :: "nameLookup \<Rightarrow> bool" where
  "lookup_ok nl \<longleftrightarrow> nlObjectID nl = [] \<or> uuid_ok (nlObjectID nl)"

definition event_ok :: "event \<Rightarrow> bool" where
  "event_ok ev \<longleftrightarrow>
     (evKind ev = EventFunctionCall \<longrightarrow> evFunctionCall ev \<noteq> None)
     \<and> (evKind ev = EventOsCall \<longrightarrow> evOsCall ev \<noteq> None)
     \<and> (evKind ev = EventNameLookup \<longrightarrow> evNameLookup ev \<noteq> None)
     \<and> list_all (\<lambda>s. psStream s = 1 \<or> psStream s = 2) (evPrint ev)
     \<and> pred_option call_ok (evFunctionCall ev) \<and> pred_option os_ok (evOsCall ev)
     \<and> pred_option lookup_ok (evNameLookup ev) \<and> received (evValue ev)"

definition event_cost :: "event \<Rightarrow> nat" where
  "event_cost ev =
     (case evFunctionCall ev of None \<Rightarrow> 0 | Some fc \<Rightarrow> call_cost fc)
     + (case evOsCall ev of None \<Rightarrow> 0 | Some c \<Rightarrow> os_cost c) + value_cost (evValue ev)"

definition keeps :: "event \<Rightarrow> event \<Rightarrow> bool" where
  "keeps ev ev2 \<longleftrightarrow> (event_ok ev \<longrightarrow> event_ok ev2) \<and> event_cost ev2 = event_cost ev"

section \<open>The parts\<close>

lemma pays_swap: "pays ds n ds1 \<Longrightarrow> pays ds1 x ds2 \<Longrightarrow> k \<le> n + x \<Longrightarrow> pays ds k ds2"
  using pays_less [OF pays_trans] .

lemma value_cost_le: "value_cost v \<le> resident v"
  by (simp add: value_cost_def)

lemma partField_InrE:
  "partField mr dv f = (Inr s2, r2) \<Longrightarrow> (\<And>m a. dv m = Inr a \<Longrightarrow> s2 = f a \<Longrightarrow> P) \<Longrightarrow> P"
  by (auto simp: partField_def split: prod.splits sum.splits)

lemma toOsOp_open: "toOsOp num = OpOpen \<Longrightarrow> 0 \<le> num \<Longrightarrow> num \<le> 24 \<Longrightarrow> num = 18"
proof -
  assume op: "toOsOp num = OpOpen" and num: "0 \<le> num" "num \<le> 24"
  have "\<forall>i\<in>set [0..<25]. osOps ! i = OpOpen \<longrightarrow> i = 18"
    by (simp add: osOps_def upt_conv_Cons)
  moreover have "nat num \<in> set [0..<25]" using num by auto
  ultimately have "nat num = 18" using op unfolding toOsOp_def by blast
  then show ?thesis by simp
qed

lemma zeroOsCall_ok: "os_ok zeroOsCall" "os_cost zeroOsCall = 0"
  by (simp_all add: os_ok_def os_parts_def os_cost_def zeroOsCall_def zeroTZ_def value_cost_def)

lemma keeps_updates:
  "keeps ev (ev2\<lparr>evException := e\<rparr>) = keeps ev ev2" "keeps ev (ev2\<lparr>evState := b\<rparr>) = keeps ev ev2"
  "keeps ev (ev2\<lparr>evShutdownDump := b, evHasShutdownDump := q\<rparr>) = keeps ev ev2" "keeps ev ev"
  by (simp_all add: keeps_def event_ok_def event_cost_def)

text \<open>An arm of the event decoder replaces at most one part, and pays for the new one.\<close>

lemma event_updates:
  "event_ok ev \<Longrightarrow> list_all (\<lambda>s. psStream s = 1 \<or> psStream s = 2) p \<Longrightarrow>
     event_ok (ev\<lparr>evKind := EventPrint, evPrint := p\<rparr>)"
  "event_ok ev \<Longrightarrow> lookup_ok nl \<Longrightarrow> event_ok (ev\<lparr>evKind := EventNameLookup, evNameLookup := Some nl\<rparr>)"
  "event_ok ev \<Longrightarrow> event_ok (ev\<lparr>evKind := EventResolveFutures, evPendingCallIDs := ids\<rparr>)"
  "event_ok ev \<Longrightarrow> event_ok (ev\<lparr>evKind := EventTypingError, evDiagnostics := m\<rparr>)"
  "event_ok ev \<Longrightarrow> event_ok (ev\<lparr>evKind := EventFatalError, evFatalMessage := m\<rparr>)"
  "event_ok ev \<Longrightarrow> event_ok (ev\<lparr>evKind := EventOk\<rparr>)"
  "event_ok ev \<Longrightarrow> event_ok (ev\<lparr>evKind := EventComplete\<rparr>)"
  "event_ok ev \<Longrightarrow> event_ok (ev\<lparr>evKind := EventError\<rparr>)"
  "event_ok ev \<Longrightarrow> event_ok (ev\<lparr>evKind := EventDumpResult\<rparr>)"
  "event_ok ev \<Longrightarrow> event_ok (ev\<lparr>evKind := EventShutdown\<rparr>)"
  "event_ok (ev\<lparr>evTotalExecutionMicros := t\<rparr>) = event_ok ev"
  "event_ok (ev\<lparr>evMaxDurationMicros := d\<rparr>) = event_ok ev"
  "event_ok (ev\<lparr>evRestoredScriptName := n\<rparr>) = event_ok ev"
  "event_ok (ev\<lparr>evMaxSuspensions := d\<rparr>) = event_ok ev"
  by (simp_all add: event_ok_def)

lemma cost_updates:
  "event_cost (ev\<lparr>evKind := k\<rparr>) = event_cost ev" "event_cost (ev\<lparr>evPrint := p\<rparr>) = event_cost ev"
  "event_cost (ev\<lparr>evNameLookup := nl\<rparr>) = event_cost ev"
  "event_cost (ev\<lparr>evPendingCallIDs := ids\<rparr>) = event_cost ev"
  "event_cost (ev\<lparr>evDiagnostics := m\<rparr>) = event_cost ev"
  "event_cost (ev\<lparr>evFatalMessage := m\<rparr>) = event_cost ev"
  "event_cost (ev\<lparr>evTotalExecutionMicros := t\<rparr>) = event_cost ev"
  "event_cost (ev\<lparr>evMaxDurationMicros := d\<rparr>) = event_cost ev"
  "event_cost (ev\<lparr>evRestoredScriptName := n\<rparr>) = event_cost ev"
  "event_cost (ev\<lparr>evMaxSuspensions := d\<rparr>) = event_cost ev"
  by (simp_all add: event_cost_def)

lemma paid_updates:
  assumes "event_ok ev" "pays ds (event_cost ev) ds1"
  shows "received v \<Longrightarrow> pays ds1 (value_cost v) ds2 \<Longrightarrow>
      event_ok (ev\<lparr>evValue := v, evHasValue := True\<rparr>)
      \<and> pays ds (event_cost (ev\<lparr>evValue := v, evHasValue := True\<rparr>)) ds2"
    and "call_ok fc \<Longrightarrow> pays ds1 (call_cost fc) ds2 \<Longrightarrow>
      event_ok (ev\<lparr>evKind := EventFunctionCall, evFunctionCall := Some fc\<rparr>)
      \<and> pays ds (event_cost (ev\<lparr>evKind := EventFunctionCall, evFunctionCall := Some fc\<rparr>)) ds2"
    and "os_ok c \<Longrightarrow> pays ds1 (os_cost c) ds2 \<Longrightarrow>
      event_ok (ev\<lparr>evKind := EventOsCall, evOsCall := Some c\<rparr>)
      \<and> pays ds (event_cost (ev\<lparr>evKind := EventOsCall, evOsCall := Some c\<rparr>)) ds2"
  using assms by (auto simp: event_ok_def event_cost_def elim: pays_swap)

context protowire_format
begin

lemma value_pays: "decodeValue pw depth m ds = Inr (v, ds2) \<Longrightarrow> received v \<and> pays ds (value_cost v) ds2"
  using soundD [OF value_sound] pays_less [OF _ value_cost_le] by blast

lemma write_body:
  assumes "writeField pw num n t r (c, ds1) = (Inr (c2, ds2), r2)" "os_parts c" "pays ds (os_cost c) ds1"
  shows "os_parts c2 \<and> ocOp c2 = ocOp c \<and> pays ds (os_cost c2) ds2"
  using assms
  by (auto simp: writeField_def os_parts_def os_cost_def split: if_splits prod.splits sum.splits
      elim!: setField_InrE dest!: charge_pays elim: pays_swap)

lemma plain_bodies:
  assumes "body = openField pw \<or> body = mkdirField pw \<or> body = renameField pw"
    and "body n t r (c, ds1) = (Inr (c2, ds2), r2)" "os_parts c" "pays ds (os_cost c) ds1"
  shows "os_parts c2 \<and> ocOp c2 = ocOp c \<and> pays ds (os_cost c2) ds2"
  using assms
  by (auto simp: openField_def mkdirField_def renameField_def os_parts_def os_cost_def
      split: if_splits elim!: setField_InrE)

lemma getenv_body:
  assumes "getenvField pw n t r (c, ds1) = (Inr (c2, ds2), r2)" "os_parts c" "pays ds (os_cost c) ds1"
  shows "os_parts c2 \<and> ocOp c2 = ocOp c \<and> pays ds (os_cost c2) ds2"
  using assms
  by (auto simp: getenvField_def os_parts_def os_cost_def split: if_splits
      elim!: setField_InrE subField_InrE dest!: value_pays elim: pays_swap)

lemma now_body:
  assumes "nowField pw n t r (c, ds1) = (Inr (c2, ds2), r2)" "os_parts c" "pays ds (os_cost c) ds1"
  shows "os_parts c2 \<and> ocOp c2 = ocOp c \<and> pays ds (os_cost c2) ds2"
  using assms
  by (auto simp: nowField_def os_parts_def os_cost_def split: if_splits
      elim!: subField_InrE dest!: soundD [OF timeZone_sound] elim: pays_swap)

lemmas os_bodies = write_body plain_bodies [OF disjI1, OF refl] plain_bodies [OF disjI2, OF disjI1, OF refl]
  plain_bodies [OF disjI2, OF disjI2, OF refl] getenv_body now_body

lemma payload_parts:
  assumes "payload pw body c msg ds1 = Inr (c2, ds2)" "os_parts c" "pays ds (os_cost c) ds1"
    and "\<And>n t r c ds1 c2 ds2 r2. body n t r (c, ds1) = (Inr (c2, ds2), r2) \<Longrightarrow> os_parts c \<Longrightarrow>
      pays ds (os_cost c) ds1 \<Longrightarrow> os_parts c2 \<and> ocOp c2 = ocOp c \<and> pays ds (os_cost c2) ds2"
  shows "os_parts c2 \<and> ocOp c2 = ocOp c \<and> pays ds (os_cost c2) ds2"
proof -
  define I where "I = (\<lambda>(c2, ds2). os_parts c2 \<and> ocOp c2 = ocOp c \<and> pays ds (os_cost c2) ds2)"
  have "I (c2, ds2)"
    using assms(1) unfolding payload_def
    by (rule readFields_inv) (use assms(2,3) in \<open>auto simp: I_def dest!: assms(4)\<close>)
  then show ?thesis by (simp add: I_def)
qed

lemma payload_bodies:
  assumes "payload pw body c msg ds1 = Inr (c2, ds2)" "os_parts c" "pays ds (os_cost c) ds1"
    and "body \<in> {writeField pw num, openField pw, mkdirField pw, renameField pw, getenvField pw, nowField pw}"
  shows "os_parts c2 \<and> ocOp c2 = ocOp c \<and> pays ds (os_cost c2) ds2"
  using assms(1-3) by (rule payload_parts) (use assms(4) in \<open>auto dest: os_bodies\<close>)

lemma os_parts_op [simp]: "os_parts (c\<lparr>ocOp := x\<rparr>) = os_parts c" "os_cost (c\<lparr>ocOp := x\<rparr>) = os_cost c"
  "os_parts (c\<lparr>ocPath := p\<rparr>) = os_parts c" "os_cost (c\<lparr>ocPath := p\<rparr>) = os_cost c"
  "os_parts (c\<lparr>ocCallID := i\<rparr>) = os_parts c" "os_cost (c\<lparr>ocCallID := i\<rparr>) = os_cost c"
  by (simp_all add: os_parts_def os_cost_def)

lemma checkMode_ok:
  "os_parts c \<Longrightarrow> os_ok (checkMode c)" "os_cost (checkMode c) = os_cost c"
  by (auto simp: checkMode_def os_ok_def os_parts_def os_cost_def)

lemma osCall_field:
  assumes "osCallField pw num ty r (c, ds1) = (Inr (c2, ds2), r2)" "os_ok c" "pays ds (os_cost c) ds1"
  shows "os_ok c2 \<and> pays ds (os_cost c2) ds2"
proof -
  have parts: "os_parts c" using assms(2) by (simp add: os_ok_def)
  have other: "os_ok c2 \<and> pays ds (os_cost c2) ds2"
    if "payload pw body (c\<lparr>ocOp := x\<rparr>) m ds1 = Inr (c2, ds2)" "x \<noteq> OpOpen"
      "body \<in> {writeField pw num, openField pw, mkdirField pw, renameField pw, getenvField pw, nowField pw}"
    for body x m c2 ds2
    using payload_bodies [OF that(1) _ _ that(3), of ds] parts assms(3) that(2) by (auto simp: os_ok_def)
  have op: "os_ok (checkMode c2) \<and> pays ds (os_cost (checkMode c2)) ds2"
    if "payload pw (openField pw) (c\<lparr>ocOp := OpOpen\<rparr>) m ds1 = Inr (c2, ds2)" for m c2 ds2
    using payload_bodies [OF that, of ds] parts assms(3) by (simp add: checkMode_ok)
  show ?thesis
    using assms toOsOp_open [of num]
    by (auto simp: osCallField_def split: if_splits elim!: setField_InrE subField_InrE
        dest: other op simp: os_ok_def)
qed

lemma osCall_sound: "sound os_ok os_cost (decodeOsCall pw)"
proof (rule soundI)
  fix msg ds c ds2
  assume dec: "decodeOsCall pw msg ds = Inr (c, ds2)"
  define I where "I = (\<lambda>(c, ds2). os_ok c \<and> pays ds (os_cost c) ds2)"
  have "I (c, ds2)"
    using dec unfolding decodeOsCall_def
    by (rule readFields_inv) (auto simp: I_def zeroOsCall_ok dest!: osCall_field)
  then show "os_ok c \<and> pays ds (os_cost c) ds2" by (simp add: I_def)
qed

lemma functionCall_sound: "sound call_ok call_cost (decodeFunctionCall pw)"
proof (rule soundI)
  fix msg ds fc ds2
  assume dec: "decodeFunctionCall pw msg ds = Inr (fc, ds2)"
  define I where "I = (\<lambda>(fc, ds2). call_ok fc \<and> pays ds (call_cost fc) ds2)"
  have "I (fc, ds2)"
    using dec unfolding decodeFunctionCall_def
    by (rule readFields_inv)
      (auto simp: I_def zeroFunctionCall_def call_ok_def call_cost_def functionCallField_def
        split: if_splits elim!: setField_InrE subField_InrE partField_InrE
        dest!: soundD [OF value_sound] soundD [OF pair_sound [OF value_sound]] uuid_decoded,
        (erule pays_swap, assumption, simp)+)
  then show "call_ok fc \<and> pays ds (call_cost fc) ds2" by (simp add: I_def)
qed

lemma lookup_sound: "decodeNameLookup pw msg = Inr nl \<Longrightarrow> lookup_ok nl"
  unfolding decodeNameLookup_def
  by (erule readFields_inv)
    (auto simp: lookup_ok_def nameLookupField_def split: if_splits sum.splits
      elim!: setField_InrE partField_InrE dest: uuid_decoded)

lemma segment_sound:
  "readFields pw (segmentField pw) m \<lparr>psStream = 1, psText = []\<rparr> = Inr seg \<Longrightarrow>
   psStream seg = 1 \<or> psStream seg = 2"
  by (erule readFields_inv) (auto simp: segmentField_def split: if_splits elim!: setField_InrE)

lemma print_sound:
  "decodePrint pw msg = Inr segs \<Longrightarrow> list_all (\<lambda>s. psStream s = 1 \<or> psStream s = 2) segs"
  unfolding decodePrint_def
  by (erule readFields_inv) (auto split: if_splits elim!: partField_InrE dest: segment_sound)

lemma loops_keep:
  "errorLoop pw ev m = Inr ev2 \<Longrightarrow> keeps ev ev2"
  "dumpLoop pw ev m = Inr ev2 \<Longrightarrow> keeps ev ev2"
  "shutdownLoop pw ev m = Inr ev2 \<Longrightarrow> keeps ev ev2"
  unfolding errorLoop_def dumpLoop_def shutdownLoop_def
  by (erule readFields_inv; auto simp: keeps_updates split: if_splits
      elim!: partField_InrE setField_InrE)+

lemma complete_keeps:
  assumes "completeLoop pw ev m ds1 = Inr (ev2, ds2)" "event_ok ev" "pays ds (event_cost ev) ds1"
  shows "event_ok ev2 \<and> pays ds (event_cost ev2) ds2"
proof -
  define I where "I = (\<lambda>(ev, ds2). event_ok ev \<and> pays ds (event_cost ev) ds2)"
  have "I (ev2, ds2)"
    using assms(1) unfolding completeLoop_def
    by (rule readFields_inv)
      (use assms(2,3) in \<open>auto simp: I_def split: if_splits elim!: subField_InrE dest!: value_pays
        dest: paid_updates(1)\<close>)
  then show ?thesis by (simp add: I_def)
qed

lemma event_field:
  assumes "eventField pw num ty r (ev, ds1) = (Inr (ev2, ds2), r2)" "event_ok ev"
    and "pays ds (event_cost ev) ds1"
  shows "event_ok ev2 \<and> pays ds (event_cost ev2) ds2"
proof (cases "num \<in> {2, 3, 6}")
  case True
  then consider "num = 2" | "num = 3" | "num = 6" by auto
  then show ?thesis
  proof cases
    case 1
    then show ?thesis
      using assms(1) paid_updates(2) [OF assms(2,3)]
      by (auto simp: eventField_def elim!: subField_InrE dest!: soundD [OF functionCall_sound])
  next
    case 2
    then show ?thesis
      using assms(1) paid_updates(3) [OF assms(2,3)]
      by (auto simp: eventField_def elim!: subField_InrE dest!: soundD [OF osCall_sound])
  next
    case 3
    then show ?thesis
      using assms by (auto simp: eventField_def event_updates cost_updates elim!: subField_InrE
          dest!: complete_keeps [of _ _ _ _ _ ds])
  qed
next
  case False
  then show ?thesis
    using assms
    by (auto simp: eventField_def event_updates cost_updates keeps_def split: if_splits
        elim!: setField_InrE partField_InrE dest!: loops_keep print_sound lookup_sound)
qed

lemma event_sound: "sound event_ok event_cost (DecodeEventWithBudget pw)"
proof (rule soundI)
  fix msg ds ev ds2
  assume dec: "DecodeEventWithBudget pw msg ds = Inr (ev, ds2)"
  define I where "I = (\<lambda>(ev, ds2). event_ok ev \<and> pays ds (event_cost ev) ds2)"
  have "I (ev, ds2)"
    using dec unfolding DecodeEventWithBudget_def
  proof (rule readFields_inv)
    show "I (zeroEvent, ds)"
      by (simp add: I_def zeroEvent_def event_ok_def event_cost_def value_cost_def)
    show "I s2" if "I s" "eventField pw num ty r s = (Inr s2, r2)" for num ty r s s2 r2
      using that event_field [of num ty r "fst s" "snd s" "fst s2" "snd s2" r2 ds]
      by (simp add: I_def split_beta)
  qed
  then show "event_ok ev \<and> pays ds (event_cost ev) ds2" by (simp add: I_def)
qed

section \<open>Progress\<close>

lemma calm_partField:
  "(\<And>m. dv m \<noteq> Inl NoProgress) \<Longrightarrow> partField (rd_bytes pw num ty r) dv f = (res, r2) \<Longrightarrow>
   calm r r2 \<and> res \<noteq> Inl NoProgress"
  by (auto simp: partField_def split: prod.splits sum.splits dest: calm_reads)

lemma calm_trans: "calm r r1 \<Longrightarrow> calm r1 r2 \<Longrightarrow> calm r r2"
  by (auto simp: calm_def)

lemma codeLoc_progress: "steady (codeLocField pw)"
  by (rule steadyI) (auto simp: codeLocField_def split: if_splits dest: calm_fields)

lemma codeLoc_calm:
  assumes "setField (decodeCodeLoc pw (rd_bytes pw num ty r)) f = (res, r2)"
  shows "calm r r2 \<and> res \<noteq> Inl NoProgress"
proof -
  obtain m r1 where m: "rd_bytes pw num ty r = (m, r1)" by fastforce
  have "calm r1 (snd (decodeCodeLoc pw (m, r1)))"
    using loop_progress [OF codeLoc_progress, of "new_reader m" zeroLoc]
    by (auto simp: decodeCodeLoc_def calm_def split: prod.splits sum.splits)
  then show ?thesis
    using assms calm_reads(1) [OF m] by (auto simp: setField_def m split: prod.splits intro: calm_trans)
qed

lemma steady_exception_parts:
  "steady (frameField pw)" "steady (unicodeField pw)" "steady (jsonField pw)"
  by (rule steadyI;
      auto simp: frameField_def unicodeField_def jsonField_def split: if_splits
        dest: calm_fields codeLoc_calm)+

lemma calm_frame: "decodeFrame pw m \<noteq> Inl NoProgress"
  using fields_progress [OF steady_exception_parts(1)] by (simp add: decodeFrame_def)

lemma calm_excData: "decodeExcData pw m \<noteq> Inl NoProgress"
  unfolding decodeExcData_def
  by (rule fields_progress, rule steadyI)
    (auto simp: excDataField_def split: if_splits
      dest: calm_partField [OF fields_progress [OF steady_exception_parts(2)]]
        calm_partField [OF fields_progress [OF steady_exception_parts(3)]])

lemma calm_exception: "decodeException pw m \<noteq> Inl NoProgress"
  unfolding decodeException_def
  by (rule fields_progress, rule steadyI)
    (auto simp: exceptionField_def split: if_splits
      dest: calm_fields calm_partField [OF calm_frame] calm_partField [OF calm_excData])

lemma packed_progress: "packedLoop pw packed dst \<noteq> (ids, Some NoProgress)"
proof (induction "length packed" arbitrary: packed dst rule: less_induct)
  case less
  obtain v n where vn: "ConsumeVarint pw packed = (v, n)" by fastforce
  show ?case
    using less varint_bound [OF vn] by (subst packedLoop.simps) (auto simp: vn)
qed

lemma calm_uint32s:
  assumes "uint32s pw num ty s r = (ids, r2)"
  shows "calm r r2"
  using assms packed_progress
  by (auto simp: uint32s_def split: if_splits prod.splits option.splits dest!: calm_reads)
    (auto simp: calm_def)

lemma calm_ids: "idsLoop pw m \<noteq> Inl NoProgress"
  unfolding idsLoop_def
  by (rule fields_progress, rule steadyI)
    (auto split: if_splits prod.splits dest: calm_uint32s)

lemma calm_strings:
  "decodeSingleString pw m \<noteq> Inl NoProgress" "decodePrint pw m \<noteq> Inl NoProgress"
  "decodeNameLookup pw m \<noteq> Inl NoProgress" "dumpLoop pw ev m \<noteq> Inl NoProgress"
  "shutdownLoop pw ev m \<noteq> Inl NoProgress" "errorLoop pw ev m \<noteq> Inl NoProgress"
proof -
  have seg: "readFields pw (segmentField pw) m s \<noteq> Inl NoProgress" for m s
    by (rule fields_progress, rule steadyI)
      (auto simp: segmentField_def split: if_splits dest: calm_fields)
  have name: "(case decodeUUIDMessage pw m of
      Inl e \<Rightarrow> Inl (WireMsg ''NameLookup.object_id is not a 16-byte uuid'') | Inr u \<Rightarrow> Inr u)
    \<noteq> Inl NoProgress" for m
    by (simp split: sum.splits)
  show "decodeSingleString pw m \<noteq> Inl NoProgress" "decodePrint pw m \<noteq> Inl NoProgress"
    "decodeNameLookup pw m \<noteq> Inl NoProgress" "dumpLoop pw ev m \<noteq> Inl NoProgress"
    "shutdownLoop pw ev m \<noteq> Inl NoProgress" "errorLoop pw ev m \<noteq> Inl NoProgress"
    unfolding decodeSingleString_def decodePrint_def decodeNameLookup_def dumpLoop_def shutdownLoop_def
      errorLoop_def nameLookupField_def
    by (rule fields_progress, rule steadyI;
        auto split: if_splits
          dest: calm_fields calm_partField [OF seg] calm_partField [OF name] calm_partField [OF calm_exception])+
qed

lemma calm_payloads:
  "calm_decoder (payload pw (writeField pw num) c)" "calm_decoder (payload pw (openField pw) c)"
  "calm_decoder (payload pw (mkdirField pw) c)" "calm_decoder (payload pw (renameField pw) c)"
  "calm_decoder (payload pw (getenvField pw) c)" "calm_decoder (payload pw (nowField pw) c)"
  unfolding payload_def calm_decoder_def
  by (intro allI fields_progress steadyI;
      auto simp: writeField_def openField_def mkdirField_def renameField_def getenvField_def nowField_def
        charge_def split: if_splits prod.splits sum.splits option.splits
        dest: calm_fields calm_reads calm_subField [OF value_progress] calm_subField [OF calm_structs(5)])+

lemma calm_osCall: "calm_decoder (decodeOsCall pw)"
  unfolding decodeOsCall_def calm_decoder_def
  by (intro allI fields_progress steadyI)
    (auto simp: osCallField_def split: if_splits
      dest: calm_fields calm_payloads [THEN calm_subField])

lemma calm_functionCall: "calm_decoder (decodeFunctionCall pw)"
  unfolding decodeFunctionCall_def calm_decoder_def
  by (intro allI fields_progress steadyI)
    (auto simp: functionCallField_def split: if_splits
      dest: calm_fields calm_subField [OF value_progress] calm_partField [OF calm_uuid]
        calm_subField [OF calm_containers(3) [OF value_progress]])

lemma calm_complete: "calm_decoder (completeLoop pw ev)"
  unfolding completeLoop_def calm_decoder_def
  by (intro allI fields_progress steadyI)
    (auto split: if_splits dest: calm_subField [OF value_progress])

lemma event_progress: "calm_decoder (DecodeEventWithBudget pw)"
  unfolding DecodeEventWithBudget_def calm_decoder_def
proof (intro allI fields_progress steadyI)
  fix num ty r s res r2
  assume "eventField pw num ty r s = (res, r2)"
  then show "calm r r2 \<and> res \<noteq> Inl NoProgress"
    by (auto simp: eventField_def split: if_splits prod.splits
        dest: calm_fields calm_strings [THEN calm_partField] calm_partField [OF calm_ids]
          calm_subField [OF calm_osCall] calm_subField [OF calm_functionCall] calm_subField [OF calm_complete])
qed

end

section \<open>The properties\<close>


text \<open>A function call with one argument.\<close>

definition sample_call_bytes :: bytes where
  "sample_call_bytes =
     msgF wire_format 2 (strF wire_format 1 ''f'' @ msgF wire_format 2 sample_body)"

lemma sample_call_decodes:
  "\<exists>ev ds. DecodeEventWithBudget wire_format sample_call_bytes (NewBudget (int 500)) = Inr (ev, ds)
    \<and> evKind ev = EventFunctionCall"
proof -
  have len: "length (strF wire_format 1 ''f'' @ msgF wire_format 2 sample_body) < 2 ^ 63"
    "length ''f'' < 2 ^ 63" "length sample_body < 2 ^ 63"
    by (simp_all add: strF_def msgF_def sample_body_def wire_codes)
  note arg = wireable_decodes [OF fmt.protowire_format_axioms sample_ok(1,2) sample_encoded sample_ok(3,4)]
  obtain fc ds where fc: "decodeFunctionCall wire_format
      (strF wire_format 1 ''f'' @ msgF wire_format 2 sample_body) (NewBudget 500) = Inr (fc, ds)"
    using arg len unfolding decodeFunctionCall_def
    by (simp add: readFields_def functionCallField_def subField_def fmt.fields sample_ok(5) DecodeValue_def)
  show ?thesis
    using len fc unfolding sample_call_bytes_def DecodeEventWithBudget_def
    by (simp add: readFields_def eventField_def subField_def fmt.fields)
qed


text \<open>
  C30. Decoding an event ends on every message: under the laws of the wire format no field loop, at
  any depth of the event, is ever asked to go on without having consumed a byte.
\<close>

theorem DecodeEvent_progress:
  assumes "protowire_format pw"
  shows "DecodeEventWithBudget pw msg ds \<noteq> Inl NoProgress"
  using protowire_format.event_progress [OF assms] by (simp add: calm_decoder_def)

theorem DecodeEvent_progress_witness:
  "DecodeEventWithBudget wire_format (replicate 9 255) (NewBudget 100) \<noteq> Inl NoProgress"
  using DecodeEvent_progress [OF fmt.protowire_format_axioms] .

end
