(* ===== verification/RequestEncode.thy ===== *)
theory RequestEncode
  imports EventSound
begin

text \<open>
  The requests the host sends: \<^verbatim>\<open>internal/wire/request.go\<close>. \<^verbatim>\<open>Request\<close> is an interface
  with one implementation for each kind; here it is a datatype and its methods are functions.
\<close>

section \<open>Data\<close>

record limits =
  lMaxDurationMicros :: "u64 option"
  lMaxMemoryBytes :: "u64 option"
  lGCInterval :: "u64 option"
  lMaxRecursionDepth :: "u64 option"
  lMaxSuspensions :: "u64 option"

record configure =
  cfgScriptName :: string
  cfgLimits :: "limits option"
  cfgTypeCheck :: bool
  cfgTypeCheckStubs :: "string option"
  cfgMontyVersion :: string
  cfgAssertMessageAnnotations :: "32 word option"
  cfgTypeCheckFormat :: "32 word"
  cfgTypeCheckColor :: bool
  cfgProtocolVersion :: "32 word"
  cfgPrintFlushIntervalMs :: "32 word option"

record namedValue =
  nvName :: string
  nvValue :: pyval

record feed =
  fdCode :: string
  fdInputs :: "namedValue list"
  fdSkipTypeCheck :: bool
  fdCwd :: string

text \<open>The kinds are \<^verbatim>\<open>uint8\<close> numbers; a number without a name is a caller's mistake.\<close>

type_synonym extKind = byte

definition ExtReturn :: extKind where "ExtReturn = 1"
definition ExtError :: extKind where "ExtError = 2"
definition ExtFuture :: extKind where "ExtFuture = 3"
definition ExtNotFound :: extKind where "ExtNotFound = 4"
definition ExtNotHandled :: extKind where "ExtNotHandled = 5"

lemmas ext_kinds = ExtReturn_def ExtError_def ExtFuture_def ExtNotFound_def ExtNotHandled_def

record extResult =
  erKind :: extKind
  erValue :: pyval
  erError :: "wireException option"
  erFutureCallID :: "32 word"
  erNotFoundName :: string

type_synonym lookupKind = byte

definition LookupValue :: lookupKind where "LookupValue = 1"
definition LookupUndefined :: lookupKind where "LookupUndefined = 2"
definition LookupError :: lookupKind where "LookupError = 3"

lemmas lookup_kinds = LookupValue_def LookupUndefined_def LookupError_def

record futureResult =
  frCallID :: "32 word"
  frResult :: extResult

datatype request =
    Configure configure
  | InstallDependencies "string list"
  | Feed feed
  | ResumeCall "32 word" extResult
  | ResumeNameLookup lookupKind pyval "wireException option"
  | ResumeFutures "futureResult list"
  | Dump
  | Load bytes
  | Reset
  | Shutdown
  | AbortFeed "wireException option"

fun requestField :: "request \<Rightarrow> int" where
  "requestField (Configure c) = 1"
| "requestField (InstallDependencies rs) = 2"
| "requestField (Feed f) = 3"
| "requestField (ResumeCall i r) = 4"
| "requestField (ResumeNameLookup k v e) = 5"
| "requestField (ResumeFutures rs) = 6"
| "requestField Dump = 7"
| "requestField (Load s) = 8"
| "requestField Reset = 9"
| "requestField Shutdown = 10"
| "requestField (AbortFeed e) = 11"

fun request_Name :: "request \<Rightarrow> string" where
  "request_Name (Configure c) = ''Configure''"
| "request_Name (InstallDependencies rs) = ''InstallDependencies''"
| "request_Name (Feed f) = ''Feed''"
| "request_Name (ResumeCall i r) = ''ResumeCall''"
| "request_Name (ResumeNameLookup k v e) = ''ResumeNameLookup''"
| "request_Name (ResumeFutures rs) = ''ResumeFutures''"
| "request_Name Dump = ''Dump''"
| "request_Name (Load s) = ''Load''"
| "request_Name Reset = ''Reset''"
| "request_Name Shutdown = ''Shutdown''"
| "request_Name (AbortFeed e) = ''AbortFeed''"

section \<open>Encoding\<close>

definition appendOptionalU64 :: "protowire \<Rightarrow> bytes \<Rightarrow> int \<Rightarrow> u64 option \<Rightarrow> bytes" where
  "appendOptionalU64 pw b num v = (case v of None \<Rightarrow> b | Some x \<Rightarrow> appendVarintField pw b num x)"

definition appendLimits :: "protowire \<Rightarrow> limits \<Rightarrow> bytes" where
  "appendLimits pw l =
     (let b = appendOptionalU64 pw [] 1 (lMaxDurationMicros l);
          b = appendOptionalU64 pw b 2 (lMaxMemoryBytes l);
          b = appendOptionalU64 pw b 3 (lGCInterval l);
          b = appendOptionalU64 pw b 4 (lMaxRecursionDepth l)
      in appendOptionalU64 pw b 5 (lMaxSuspensions l))"

definition appendConfigure :: "protowire \<Rightarrow> bytes \<Rightarrow> configure \<Rightarrow> bytes" where
  "appendConfigure pw b c =
     (let b = appendStringField pw b 1 (cfgScriptName c);
          b = (case cfgLimits c of None \<Rightarrow> b | Some l \<Rightarrow> appendMessage pw b 2 (appendLimits pw l));
          b = appendBoolField pw b 3 (cfgTypeCheck c);
          b = appendOptString pw b 4 (cfgTypeCheckStubs c);
          b = appendStringField pw b 5 (cfgMontyVersion c);
          b = appendOptionalU64 pw b 6 (map_option ucast (cfgAssertMessageAnnotations c));
          b = appendUintField pw b 7 (scast (cfgTypeCheckFormat c));
          b = appendBoolField pw b 8 (cfgTypeCheckColor c);
          b = appendUintField pw b 9 (ucast (cfgProtocolVersion c))
      in appendOptionalU64 pw b 10 (map_option ucast (cfgPrintFlushIntervalMs c)))"

fun appendInputs :: "protowire \<Rightarrow> bytes \<Rightarrow> namedValue list \<Rightarrow> wire_error + bytes" where
  "appendInputs pw b [] = Inr b"
| "appendInputs pw b (x # xs) =
     (case appendValueField pw (appendStringField pw [] 1 (nvName x)) 2 (nvValue x) of
        Inl e \<Rightarrow> Inl e
      | Inr nv \<Rightarrow> appendInputs pw (appendMessage pw b 2 nv) xs)"

definition appendFeed :: "protowire \<Rightarrow> bytes \<Rightarrow> feed \<Rightarrow> wire_error + bytes" where
  "appendFeed pw b f =
     (case appendInputs pw (appendStringField pw b 1 (fdCode f)) (fdInputs f) of
        Inl e \<Rightarrow> Inl e
      | Inr b \<Rightarrow>
          (let b = appendBoolField pw b 3 (fdSkipTypeCheck f)
           in Inr (appendStringField pw b 4 (fdCwd f))))"

text \<open>A nil exception panics when its body is written.\<close>

definition appendExceptionPtr ::
    "protowire \<Rightarrow> bytes \<Rightarrow> int \<Rightarrow> wireException option \<Rightarrow> wire_error + bytes" where
  "appendExceptionPtr pw b num e =
     (case e of
        None \<Rightarrow> Inl NilPointer
      | Some e \<Rightarrow> Inr (appendMessage pw b num (appendExceptionBody pw [] e)))"

definition appendExtResult :: "protowire \<Rightarrow> bytes \<Rightarrow> extResult \<Rightarrow> wire_error + bytes" where
  "appendExtResult pw b r =
     (if erKind r = ExtReturn then appendValueField pw b 1 (erValue r)
      else if erKind r = ExtError then appendExceptionPtr pw b 2 (erError r)
      else if erKind r = ExtFuture then Inr (appendVarintField pw b 3 (ucast (erFutureCallID r)))
      else if erKind r = ExtNotFound then Inr (appendStringAlways pw b 4 (erNotFoundName r))
      else if erKind r = ExtNotHandled then Inr (appendMessage pw b 5 [])
      else Inl (ConversionError ''external result has no kind''))"

definition appendCallResult :: "protowire \<Rightarrow> bytes \<Rightarrow> 32 word \<Rightarrow> extResult \<Rightarrow> wire_error + bytes" where
  "appendCallResult pw b i r =
     (let b = appendUintField pw b 1 (ucast i)
      in case appendExtResult pw [] r of
           Inl e \<Rightarrow> Inl e
         | Inr res \<Rightarrow> Inr (appendMessage pw b 2 res))"

definition appendLookup ::
    "protowire \<Rightarrow> bytes \<Rightarrow> lookupKind \<Rightarrow> pyval \<Rightarrow> wireException option \<Rightarrow> wire_error + bytes" where
  "appendLookup pw b k v e =
     (if k = LookupValue then appendValueField pw b 1 v
      else if k = LookupUndefined then Inr (appendMessage pw b 2 [])
      else if k = LookupError then appendExceptionPtr pw b 3 e
      else Inl (ConversionError ''name lookup result has no kind''))"

fun appendFutures :: "protowire \<Rightarrow> bytes \<Rightarrow> futureResult list \<Rightarrow> wire_error + bytes" where
  "appendFutures pw b [] = Inr b"
| "appendFutures pw b (x # xs) =
     (case appendCallResult pw [] (frCallID x) (frResult x) of
        Inl e \<Rightarrow> Inl e
      | Inr body \<Rightarrow> appendFutures pw (appendMessage pw b 1 body) xs)"

fun appendBody :: "protowire \<Rightarrow> bytes \<Rightarrow> request \<Rightarrow> wire_error + bytes" where
  "appendBody pw b (Configure c) = Inr (appendConfigure pw b c)"
| "appendBody pw b (InstallDependencies rs) = Inr (foldl (\<lambda>b x. appendStringAlways pw b 1 x) b rs)"
| "appendBody pw b (Feed f) = appendFeed pw b f"
| "appendBody pw b (ResumeCall i r) = appendCallResult pw b i r"
| "appendBody pw b (ResumeNameLookup k v e) = appendLookup pw b k v e"
| "appendBody pw b (ResumeFutures rs) = appendFutures pw b rs"
| "appendBody pw b Dump = Inr b"
| "appendBody pw b (Load s) = Inr (if length s = 0 then b else appendBytesAlways pw b 1 s)"
| "appendBody pw b Reset = Inr b"
| "appendBody pw b Shutdown = Inr b"
| "appendBody pw b (AbortFeed e) = appendExceptionPtr pw b 1 e"

definition EncodeRequest :: "protowire \<Rightarrow> request \<Rightarrow> string \<Rightarrow> wire_error + bytes" where
  "EncodeRequest pw req traceParent =
     (case appendBody pw [] req of
        Inl e \<Rightarrow> Inl e
      | Inr body \<Rightarrow>
          (let out = appendMessage pw [] (requestField req) body
           in Inr (if traceParent \<noteq> [] then appendStringAlways pw out 20 traceParent else out)))"

fun RequestValues :: "request \<Rightarrow> pyval list" where
  "RequestValues (Feed f) = map nvValue (fdInputs f)"
| "RequestValues (ResumeCall i r) = (if erKind r = ExtReturn then [erValue r] else [])"
| "RequestValues (ResumeNameLookup k v e) = (if k = LookupValue then [v] else [])"
| "RequestValues (ResumeFutures rs) =
     map (erValue \<circ> frResult) (filter (\<lambda>x. erKind (frResult x) = ExtReturn) rs)"
| "RequestValues req = []"

section \<open>When a request is encoded\<close>

text \<open>The kind of every result is one of the named ones and an error comes with its exception.\<close>

definition result_ok :: "extResult \<Rightarrow> bool" where
  "result_ok r \<longleftrightarrow>
     erKind r \<in> {ExtReturn, ExtError, ExtFuture, ExtNotFound, ExtNotHandled}
     \<and> (erKind r = ExtError \<longrightarrow> erError r \<noteq> None)"

fun request_ok :: "request \<Rightarrow> bool" where
  "request_ok (ResumeCall i r) = result_ok r"
| "request_ok (ResumeNameLookup k v e) =
     (k \<in> {LookupValue, LookupUndefined, LookupError} \<and> (k = LookupError \<longrightarrow> e \<noteq> None))"
| "request_ok (ResumeFutures rs) = list_all (result_ok \<circ> frResult) rs"
| "request_ok (AbortFeed e) = (e \<noteq> None)"
| "request_ok req = True"

definition encoded :: "wire_error + bytes \<Rightarrow> bool" where
  "encoded res = (case res of Inl e \<Rightarrow> False | Inr b \<Rightarrow> True)"

lemma encoded_simps [simp]: "encoded (Inr b)" "\<not> encoded (Inl e)"
  by (simp_all add: encoded_def)

lemma encoded_case:
  "encoded (case res of Inl e \<Rightarrow> Inl e | Inr b \<Rightarrow> f b) \<longleftrightarrow> encoded res \<and> (\<forall>b. res = Inr b \<longrightarrow> encoded (f b))"
  by (cases res) simp_all

lemma encoded_seq:
  "(\<And>b. encoded (f b) = c) \<Longrightarrow>
   encoded (case res of Inl e \<Rightarrow> Inl e | Inr b \<Rightarrow> f b) \<longleftrightarrow> encoded res \<and> c"
  by (cases res) simp_all

lemma encoded_field: "encoded (appendValueField pw b num v) = encoded (AppendValue pw [] v)"
  by (simp add: appendValueField_def valueField_def encoded_case)

lemma encoded_exception: "encoded (appendExceptionPtr pw b num e) \<longleftrightarrow> e \<noteq> None"
  by (simp add: appendExceptionPtr_def split: option.splits)

lemma encoded_inputs:
  "encoded (appendInputs pw b xs) = list_all (\<lambda>x. encoded (AppendValue pw [] (nvValue x))) xs"
  by (induction xs arbitrary: b) (simp_all add: encoded_seq encoded_field)

lemma encoded_result:
  "encoded (appendExtResult pw b r)
    \<longleftrightarrow> result_ok r \<and> (erKind r = ExtReturn \<longrightarrow> encoded (AppendValue pw [] (erValue r)))"
  by (auto simp: appendExtResult_def result_ok_def encoded_field encoded_exception ext_kinds)

lemma encoded_call: "encoded (appendCallResult pw b i r) = encoded (appendExtResult pw [] r)"
  by (simp add: appendCallResult_def Let_def encoded_case)

lemma encoded_futures:
  "encoded (appendFutures pw b rs) = list_all (\<lambda>x. encoded (appendExtResult pw [] (frResult x))) rs"
  by (induction rs arbitrary: b) (simp_all add: encoded_seq encoded_call)

lemma encoded_body:
  "encoded (appendBody pw b req)
    \<longleftrightarrow> request_ok req \<and> list_all (\<lambda>v. encoded (AppendValue pw [] v)) (RequestValues req)"
  by (cases req)
    (auto simp: appendFeed_def Let_def encoded_case encoded_inputs encoded_call encoded_result
      encoded_futures encoded_field encoded_exception appendLookup_def lookup_kinds list_all_iff)

text \<open>
  C33. A request is encoded exactly when the kinds of its results are named, its errors carry their
  exceptions and every value that \<^verbatim>\<open>RequestValues\<close> lists can be converted. In particular
  \<^verbatim>\<open>RequestValues\<close>, which feeds the nesting check, misses no value that the encoder writes, and
  nothing else in a request can fail.
\<close>

theorem EncodeRequest_iff:
  "encoded (EncodeRequest pw req traceParent)
    \<longleftrightarrow> request_ok req \<and> list_all (\<lambda>v. encoded (AppendValue pw [] v)) (RequestValues req)"
  by (simp add: EncodeRequest_def Let_def encoded_case encoded_body)

end
