(* ===== verification/PoolCore.thy ===== *)
theory PoolCore
  imports Prelude "HOL-Library.Multiset"
begin

text \<open>
  The worker pool: \<^verbatim>\<open>internal/pool/pool.go\<close>, \<^verbatim>\<open>lease.go\<close> and the accounting of
  \<^verbatim>\<open>reservation.go\<close>.

  The pool is a step relation over the critical sections of \<^verbatim>\<open>p.mu\<close>. A section that sends to
  the reapers may block in the send while it holds the mutex, so the holder of the mutex is part of
  the state, with what it still has to do; every other section waits for the mutex. The goroutines
  between two critical sections are part of the state as well: acquirers that wait for
  \<^verbatim>\<open>Spawn\<close>, reservations, checked-out slots, binds that lost against \<^verbatim>\<open>Close\<close> and workers
  at a reaper. What a worker does (whether it is alive, when it exits) is chosen by the label of a
  step. Workers are numbered in the order in which they are spawned.

  Not part of the model: the metrics, the observers of a slot, the timers and contexts that end a
  wait, which change nothing in the pool, and the wake-up channel \<^verbatim>\<open>notify\<close>: a waiter is not
  in the state and its next attempt is a new \<open>LAcquire\<close> or \<open>LReserve\<close>.
\<close>

section \<open>State\<close>

record pconfig =
  cMinProcesses :: int
  cMaxProcesses :: int
  cMaxCheckoutsPerWorker :: int
  cSingleUse :: bool

record slot =
  sWorker :: nat
  sServed :: int

record retiredWorker =
  rwWorker :: nat
  rwKilled :: bool

text \<open>
  What the holder of \<^verbatim>\<open>p.mu\<close> does next: the loop over the idle slots in \<^verbatim>\<open>acquire\<close>, the
  loop over them in \<^verbatim>\<open>Close\<close>, a send to the reapers, or \<^verbatim>\<open>wakeLocked\<close> and
  \<^verbatim>\<open>Unlock\<close>.
\<close>

datatype holder = HAcquire | HClose "slot list" | HSend retiredWorker holder | HUnlock

record pool =
  pIdle :: "slot list"
  pStarting :: int
  pActive :: int
  pRetiring :: int
  pClosed :: bool
  pQueue :: "retiredWorker list"
  pReaped :: bool
  pLock :: "holder option"
  gSpawning :: nat
  gReserved :: nat
  gRebind :: nat
  gBinding :: "slot list"
  gOut :: "slot list"
  gLost :: "nat list"
  gReaping :: "retiredWorker list"
  gDrained :: bool
  gExited :: "nat list"
  pNext :: nat
  pPanic :: bool

definition maxReapers :: nat where
  "maxReapers = 8"

definition reapers :: "pconfig \<Rightarrow> nat" where
  "reapers cfg = min (nat (cMaxProcesses cfg)) maxReapers"

definition live :: "pool \<Rightarrow> int" where
  "live p = pStarting p + pActive p + int (length (pIdle p)) + pRetiring p"

record stats =
  stStarting :: int
  stActive :: int
  stIdle :: int
  stRetiring :: int

definition Stats :: "pool \<Rightarrow> stats" where
  "Stats p =
     \<lparr>stStarting = pStarting p, stActive = pActive p, stIdle = int (length (pIdle p)),
      stRetiring = pRetiring p\<rparr>"

definition Size :: "pool \<Rightarrow> int \<times> int" where
  "Size p = (live p, int (length (pIdle p)))"

section \<open>Creation\<close>

definition empty_pool :: pool where
  "empty_pool =
     \<lparr>pIdle = [], pStarting = 0, pActive = 0, pRetiring = 0, pClosed = False, pQueue = [],
      pReaped = False, pLock = None, gSpawning = 0, gReserved = 0, gRebind = 0, gBinding = [], gOut = [], gLost = [],
      gReaping = [], gDrained = False, gExited = [], pNext = 0, pPanic = False\<rparr>"

definition prewarm :: "pool \<Rightarrow> pool" where
  "prewarm p = p\<lparr>pIdle := pIdle p @ [\<lparr>sWorker = pNext p, sServed = 0\<rparr>], pNext := Suc (pNext p)\<rparr>"

text \<open>
  \<open>ok i\<close> says whether the \<open>i\<close>-th prewarming \<^verbatim>\<open>Spawn\<close> succeeds. After a failure the pool is
  closed and not returned.
\<close>

definition newConfig :: "pconfig \<Rightarrow> pconfig" where
  "newConfig cfg = (if cSingleUse cfg then cfg\<lparr>cMinProcesses := 0\<rparr> else cfg)"

definition New :: "pconfig \<Rightarrow> (nat \<Rightarrow> bool) \<Rightarrow> string + pool" where
  "New cfg ok =
     (let cfg = newConfig cfg
      in if cMaxProcesses cfg = 0 \<or> cMaxProcesses cfg < cMinProcesses cfg then Inl ''invalid pool size''
         else if \<not> list_all ok [0..<nat (cMinProcesses cfg)] then Inl ''failed to spawn monty worker''
         else Inr ((prewarm ^^ nat (cMinProcesses cfg)) empty_pool))"

section \<open>Critical sections\<close>

text \<open>
  \<^verbatim>\<open>retireLocked\<close> counts the worker and goes to the send; \<open>k\<close> is what its caller does after it.
\<close>

definition retireLocked :: "retiredWorker \<Rightarrow> holder \<Rightarrow> pool \<Rightarrow> pool" where
  "retireLocked s k p = p\<lparr>pRetiring := pRetiring p + 1, pLock := Some (HSend s k)\<rparr>"

text \<open>
  One step of the holder of the mutex. A send on the closed channel panics; a send on a full one
  blocks, which is \<open>None\<close>. In \<^verbatim>\<open>acquire\<close> the label says whether the last idle worker is alive.
\<close>

definition holderStep :: "pconfig \<Rightarrow> bool \<Rightarrow> pool \<Rightarrow> pool option" where
  "holderStep cfg alive p =
     (case pLock p of
        None \<Rightarrow> None
      | Some HAcquire \<Rightarrow>
          if \<not> cSingleUse cfg \<and> pIdle p \<noteq> [] then
            (let s = last (pIdle p); p = p\<lparr>pIdle := butlast (pIdle p)\<rparr>
             in if alive then Some (p\<lparr>pActive := pActive p + 1, gOut := gOut p @ [s], pLock := None\<rparr>)
                else Some (retireLocked \<lparr>rwWorker = sWorker s, rwKilled = True\<rparr> HAcquire p))
          else if live p < cMaxProcesses cfg then
            Some (p\<lparr>pStarting := pStarting p + 1, gSpawning := Suc (gSpawning p), pLock := None\<rparr>)
          else Some (p\<lparr>pLock := None\<rparr>)
      | Some (HClose []) \<Rightarrow> Some (p\<lparr>pLock := None\<rparr>)
      | Some (HClose (s # ss)) \<Rightarrow>
          Some (retireLocked \<lparr>rwWorker = sWorker s, rwKilled = False\<rparr> (HClose ss) p)
      | Some (HSend s k) \<Rightarrow>
          if pReaped p then Some (p\<lparr>pPanic := True\<rparr>)
          else if int (length (pQueue p)) < cMaxProcesses cfg then
            Some (p\<lparr>pQueue := pQueue p @ [s], pLock := Some k\<rparr>)
          else None
      | Some HUnlock \<Rightarrow> Some (p\<lparr>pLock := None\<rparr>))"

text \<open>The first section of \<^verbatim>\<open>acquire\<close>, and the one after \<^verbatim>\<open>Spawn\<close> has returned.\<close>

definition acquire :: "pool \<Rightarrow> pool" where
  "acquire p = (if pClosed p then p else p\<lparr>pLock := Some HAcquire\<rparr>)"

definition acquireSpawned :: "bool \<Rightarrow> pool \<Rightarrow> pool" where
  "acquireSpawned ok p =
     (let p = p\<lparr>pStarting := pStarting p - 1, gSpawning := gSpawning p - 1\<rparr>
      in if \<not> ok then p
         else let w = pNext p; p = p\<lparr>pNext := Suc w\<rparr>
              in if pClosed p then retireLocked \<lparr>rwWorker = w, rwKilled = False\<rparr> HUnlock p
                 else p\<lparr>pActive := pActive p + 1, gOut := gOut p @ [\<lparr>sWorker = w, sServed = 0\<rparr>]\<rparr>)"

text \<open>A checkout ends: its slot leaves the list of the checked-out ones.\<close>

definition without :: "nat \<Rightarrow> 'a list \<Rightarrow> 'a list" where
  "without i xs = take i xs @ drop (Suc i) xs"

definition recycles :: "pconfig \<Rightarrow> bool \<Rightarrow> pool \<Rightarrow> slot \<Rightarrow> bool" where
  "recycles cfg alive p s \<longleftrightarrow>
     cSingleUse cfg \<or> pClosed p \<or> \<not> alive
     \<or> 0 < cMaxCheckoutsPerWorker cfg \<and> cMaxCheckoutsPerWorker cfg \<le> sServed s"

text \<open>
  \<^verbatim>\<open>release\<close> on the slot that \<^verbatim>\<open>Finish\<close> took from the lease; a subprocess worker has
  served one checkout more.
\<close>

definition release :: "pconfig \<Rightarrow> bool \<Rightarrow> bool \<Rightarrow> nat \<Rightarrow> pool \<Rightarrow> pool" where
  "release cfg websocket alive i p =
     (let s = gOut p ! i;
          s = (if websocket then s else s\<lparr>sServed := sServed s + 1\<rparr>);
          p = p\<lparr>gOut := without i (gOut p), pActive := pActive p - 1\<rparr>
      in if recycles cfg alive p s
         then retireLocked \<lparr>rwWorker = sWorker s, rwKilled = False\<rparr> HUnlock p
         else p\<lparr>pIdle := pIdle p @ [s]\<rparr>)"

definition retireLease :: "nat \<Rightarrow> bool \<Rightarrow> pool \<Rightarrow> pool" where
  "retireLease w killed p =
     retireLocked \<lparr>rwWorker = w, rwKilled = killed\<rparr> HUnlock (p\<lparr>pActive := pActive p - 1\<rparr>)"

text \<open>\<^verbatim>\<open>terminate\<close> once the lease was won: the checkout is over and its worker is retired.\<close>

definition terminated :: "bool \<Rightarrow> nat \<Rightarrow> pool \<Rightarrow> pool" where
  "terminated killed i p =
     retireLease (sWorker (gOut p ! i)) killed (p\<lparr>gOut := without i (gOut p)\<rparr>)"

text \<open>The reservations of a single-use pool.\<close>

definition Reserve :: "pconfig \<Rightarrow> pool \<Rightarrow> pool" where
  "Reserve cfg p =
     (if \<not> cSingleUse cfg \<or> pClosed p then p
      else if live p < cMaxProcesses cfg then
        p\<lparr>pStarting := pStarting p + 1, gReserved := Suc (gReserved p)\<rparr>
      else p)"

definition releaseLocked :: "pool \<Rightarrow> pool" where
  "releaseLocked p = p\<lparr>pStarting := pStarting p - 1, gReserved := gReserved p - 1\<rparr>"

text \<open>
  \<^verbatim>\<open>Bind\<close> once its worker is spawned: the checkout is not yet returned to the caller. On a closed pool the section ends before the worker is
  handed to the reapers, which happens in a section of its own.
\<close>

definition bindSpawned :: "pool \<Rightarrow> pool" where
  "bindSpawned p =
     (let w = pNext p;
          p = p\<lparr>pNext := Suc w, pStarting := pStarting p - 1, gReserved := gReserved p - 1\<rparr>
      in if pClosed p then p\<lparr>gLost := gLost p @ [w]\<rparr>
         else p\<lparr>pActive := pActive p + 1, gBinding := gBinding p @ [\<lparr>sWorker = w, sServed = 0\<rparr>]\<rparr>)"

definition bindClosed :: "pool \<Rightarrow> pool" where
  "bindClosed p =
     retireLocked \<lparr>rwWorker = hd (gLost p), rwKilled = False\<rparr> HUnlock (p\<lparr>gLost := tl (gLost p)\<rparr>)"

text \<open>A bind that succeeds returns its checkout. One that fails drops its worker and then takes
  capacity back.\<close>

definition bound :: "nat \<Rightarrow> pool \<Rightarrow> pool" where
  "bound i p = p\<lparr>gBinding := without i (gBinding p), gOut := gOut p @ [gBinding p ! i]\<rparr>"

definition bindFailed :: "bool \<Rightarrow> nat \<Rightarrow> pool \<Rightarrow> pool" where
  "bindFailed killed i p =
     retireLease (sWorker (gBinding p ! i)) killed
       (p\<lparr>gBinding := without i (gBinding p), gRebind := Suc (gRebind p)\<rparr>)"

definition reReserveLocked :: "pool \<Rightarrow> pool" where
  "reReserveLocked p =
     p\<lparr>pStarting := pStarting p + 1, gRebind := gRebind p - 1, gReserved := Suc (gReserved p)\<rparr>"

definition Handoff :: "nat \<Rightarrow> pool \<Rightarrow> pool" where
  "Handoff i p =
     retireLocked \<lparr>rwWorker = sWorker (gOut p ! i), rwKilled = False\<rparr> HUnlock
       (p\<lparr>gOut := without i (gOut p), pActive := pActive p - 1, pStarting := pStarting p + 1,
          gReserved := Suc (gReserved p)\<rparr>)"

definition Close :: "pool \<Rightarrow> pool" where
  "Close p =
     (if pClosed p then p
      else p\<lparr>pClosed := True, pIdle := [], pLock := Some (HClose (pIdle p))\<rparr>)"

text \<open>A round of \<^verbatim>\<open>waitDrained\<close> that sees no live worker, and \<^verbatim>\<open>stopReapers\<close> after it.\<close>

definition waitDrained :: "pool \<Rightarrow> pool" where
  "waitDrained p = p\<lparr>gDrained := gDrained p \<or> live p = 0\<rparr>"

definition stopReapers :: "pool \<Rightarrow> pool" where
  "stopReapers p = p\<lparr>pReaped := True\<rparr>"

text \<open>The two halves of a round of \<^verbatim>\<open>reap\<close>: the receive and, once the worker has exited, the
  section that gives its capacity back.\<close>

definition reapRecv :: "pool \<Rightarrow> pool" where
  "reapRecv p = p\<lparr>pQueue := tl (pQueue p), gReaping := gReaping p @ [hd (pQueue p)]\<rparr>"

definition reapExited :: "nat \<Rightarrow> pool \<Rightarrow> pool" where
  "reapExited i p =
     p\<lparr>pRetiring := pRetiring p - 1, gExited := gExited p @ [rwWorker (gReaping p ! i)],
       gReaping := without i (gReaping p)\<rparr>"

section \<open>Steps\<close>

datatype label =
    LHolder bool
  | LAcquire
  | LSpawned bool
  | LRelease bool bool nat
  | LRetire bool nat
  | LReserve
  | LReleaseReservation
  | LBindSpawned
  | LBindClosed
  | LBound nat
  | LBindFailed bool nat
  | LReReserve
  | LHandoff nat
  | LClose
  | LDrained
  | LStopReapers
  | LRecv
  | LExited nat

text \<open>A section runs when the mutex is free and its goroutine is where it starts.\<close>

fun step :: "pconfig \<Rightarrow> label \<Rightarrow> pool \<Rightarrow> pool option" where
  "step cfg (LHolder alive) p = (if pPanic p then None else holderStep cfg alive p)"
| "step cfg LRecv p =
     (if pPanic p \<or> pQueue p = [] \<or> reapers cfg \<le> length (gReaping p) then None else Some (reapRecv p))"
| "step cfg l p =
     (if pPanic p \<or> pLock p \<noteq> None then None
      else case l of
        LAcquire \<Rightarrow> Some (acquire p)
      | LSpawned ok \<Rightarrow> if gSpawning p = 0 then None else Some (acquireSpawned ok p)
      | LRelease websocket alive i \<Rightarrow>
          if length (gOut p) \<le> i then None else Some (release cfg websocket alive i p)
      | LRetire killed i \<Rightarrow> if length (gOut p) \<le> i then None else Some (terminated killed i p)
      | LReserve \<Rightarrow> Some (Reserve cfg p)
      | LReleaseReservation \<Rightarrow> if gReserved p = 0 then None else Some (releaseLocked p)
      | LBindSpawned \<Rightarrow> if gReserved p = 0 then None else Some (bindSpawned p)
      | LBindClosed \<Rightarrow> if gLost p = [] then None else Some (bindClosed p)
      | LBound i \<Rightarrow> if length (gBinding p) \<le> i then None else Some (bound i p)
      | LBindFailed killed i \<Rightarrow> if length (gBinding p) \<le> i then None else Some (bindFailed killed i p)
      | LReReserve \<Rightarrow> if gRebind p = 0 then None else Some (reReserveLocked p)
      | LHandoff i \<Rightarrow> if length (gOut p) \<le> i then None else Some (Handoff i p)
      | LClose \<Rightarrow> Some (Close p)
      | LDrained \<Rightarrow> if pClosed p then Some (waitDrained p) else None
      | LStopReapers \<Rightarrow> if gDrained p then Some (stopReapers p) else None
      | LExited i \<Rightarrow> if length (gReaping p) \<le> i then None else Some (reapExited i p)
      | _ \<Rightarrow> None)"

fun run :: "pconfig \<Rightarrow> label list \<Rightarrow> pool \<Rightarrow> pool option" where
  "run cfg [] p = Some p"
| "run cfg (l # ls) p = (case step cfg l p of None \<Rightarrow> None | Some p2 \<Rightarrow> run cfg ls p2)"

end
