(* ===== verification/PoolInv.thy ===== *)
theory PoolInv
  imports PoolCore
begin

text \<open>
  The accounting of the pool: who holds which worker, what the counters count, and how many workers
  there are at most.
\<close>

section \<open>Claims\<close>

text \<open>The workers in the hands of the holder of the mutex.\<close>

fun owed :: "holder \<Rightarrow> nat list" where
  "owed HAcquire = []"
| "owed (HClose ss) = map sWorker ss"
| "owed (HSend s k) = rwWorker s # owed k"
| "owed HUnlock = []"

fun sends :: "holder \<Rightarrow> nat" where
  "sends (HSend s k) = Suc (sends k)"
| "sends h = 0"

fun closing :: "holder \<Rightarrow> nat" where
  "closing (HClose ss) = length ss"
| "closing (HSend s k) = closing k"
| "closing h = 0"

fun acquiring :: "holder \<Rightarrow> bool" where
  "acquiring HAcquire = True"
| "acquiring (HSend s k) = acquiring k"
| "acquiring h = False"

fun shape :: "holder \<Rightarrow> bool" where
  "shape (HSend s k) \<longleftrightarrow> sends k = 0"
| "shape h = True"

abbreviation held :: "('h \<Rightarrow> 'a) \<Rightarrow> 'a \<Rightarrow> 'h option \<Rightarrow> 'a" where
  "held f d h \<equiv> (case h of None \<Rightarrow> d | Some x \<Rightarrow> f x)"

text \<open>All workers that were ever spawned, by the party that has them.\<close>

definition workers :: "pool \<Rightarrow> nat multiset" where
  "workers p =
     mset (map sWorker (pIdle p)) + mset (map sWorker (gBinding p)) + mset (map sWorker (gOut p))
     + mset (held owed [] (pLock p)) + mset (gLost p) + mset (map rwWorker (pQueue p))
     + mset (map rwWorker (gReaping p)) + mset (gExited p)"

definition counters :: "pool \<Rightarrow> bool" where
  "counters p \<longleftrightarrow>
     pStarting p = int (gSpawning p) + int (gReserved p)
     \<and> pActive p = int (length (gBinding p)) + int (length (gOut p))
     \<and> pRetiring p = int (length (pQueue p)) + int (length (gReaping p)) + int (held sends 0 (pLock p))"

definition phases :: "pconfig \<Rightarrow> pool \<Rightarrow> bool" where
  "phases cfg p \<longleftrightarrow>
     held shape True (pLock p)
     \<and> (pClosed p \<longrightarrow> pIdle p = [] \<and> \<not> held acquiring False (pLock p))
     \<and> (\<not> pClosed p \<longrightarrow> gLost p = [] \<and> held closing 0 (pLock p) = 0)
     \<and> (cSingleUse cfg \<longrightarrow> pIdle p = [])
     \<and> (0 < cMaxCheckoutsPerWorker cfg \<longrightarrow>
          list_all (\<lambda>s. sServed s < cMaxCheckoutsPerWorker cfg) (pIdle p))
     \<and> length (gReaping p) \<le> reapers cfg \<and> int (length (pQueue p)) \<le> cMaxProcesses cfg"

definition pool_inv :: "pconfig \<Rightarrow> pool \<Rightarrow> bool" where
  "pool_inv cfg p \<longleftrightarrow> workers p = mset [0..<pNext p] \<and> counters p \<and> phases cfg p"

section \<open>Every step keeps them\<close>

lemma mset_without: "\<not> length xs \<le> i \<Longrightarrow> mset xs = add_mset (xs ! i) (mset (without i xs))"
  by (metis without_def id_take_nth_drop mset_append mset.simps(2) union_mset_add_mset_right not_le)

lemma length_without [simp]: "i < length xs \<Longrightarrow> length (without i xs) = length xs - 1"
  by (simp add: without_def)

lemma mset_last: "xs \<noteq> [] \<Longrightarrow> mset xs = add_mset (last xs) (mset (butlast xs))"
  by (metis append_butlast_last_id mset_append mset.simps union_mset_add_mset_right add.right_neutral)

lemma mset_hd: "xs \<noteq> [] \<Longrightarrow> mset xs = add_mset (hd xs) (mset (tl xs))"
  by (cases xs) auto

lemmas pool_sections = acquire_def acquireSpawned_def release_def terminated_def retireLease_def
  Reserve_def releaseLocked_def bindSpawned_def bindClosed_def bound_def bindFailed_def
  reReserveLocked_def Handoff_def Close_def waitDrained_def stopReapers_def reapRecv_def reapExited_def
  retireLocked_def Let_def

definition spawns :: "pool \<Rightarrow> pool \<Rightarrow> bool" where
  "spawns p q \<longleftrightarrow>
     workers q = workers p \<and> pNext q = pNext p
     \<or> workers q = add_mset (pNext p) (workers p) \<and> pNext q = Suc (pNext p)"

lemma holder_spawns: "holderStep cfg alive p = Some q \<Longrightarrow> spawns p q"
  using mset_last [of "pIdle p"]
  by (cases "pLock p"; cases "the (pLock p)" rule: owed.cases)
    (auto simp: spawns_def holderStep_def workers_def retireLocked_def Let_def
      split: if_splits list.splits)

lemma step_spawns: "step cfg l p = Some q \<Longrightarrow> spawns p q"
  by (cases l)
    (auto simp: spawns_def workers_def pool_sections split: if_splits
      dest!: mset_without mset_hd dest: holder_spawns)

lemma step_workers:
  "step cfg l p = Some q \<Longrightarrow> workers p = mset [0..<pNext p] \<Longrightarrow> workers q = mset [0..<pNext q]"
  using step_spawns [of cfg l p q] by (auto simp: spawns_def simp del: mset_upt)

lemma holder_counters:
  assumes "holderStep cfg alive p = Some q" "counters p" "phases cfg p"
  shows "counters q"
  using assms
  by (cases "pLock p"; cases "the (pLock p)" rule: owed.cases)
    (auto simp: holderStep_def counters_def phases_def retireLocked_def Let_def
      split: if_splits list.splits)

lemma step_counters:
  assumes "step cfg l p = Some q" "counters p" "phases cfg p"
  shows "counters q"
proof (cases l)
  case (LHolder a)
  with assms show ?thesis by (auto intro: holder_counters split: if_splits)
qed (use assms(1,2) in \<open>auto simp: counters_def pool_sections not_le of_nat_diff Suc_le_eq split: if_splits\<close>)

lemma shape_sends: "sends k = 0 \<Longrightarrow> shape k"
  by (cases k) auto

lemma phases_pop:
  "phases cfg p \<Longrightarrow> phases cfg (p\<lparr>pIdle := butlast (pIdle p)\<rparr>)"
  by (auto simp: phases_def list_all_iff dest: in_set_butlastD)

lemma holder_phases:
  assumes "holderStep cfg alive p = Some q" "phases cfg p"
  shows "phases cfg q"
proof (cases "pLock p")
  case (Some h)
  show ?thesis
  proof (cases h)
    case HAcquire
    then show ?thesis
      using assms Some phases_pop [OF assms(2)]
      by (auto simp: holderStep_def retireLocked_def Let_def phases_def split: if_splits)
  next
    case (HClose ss)
    then show ?thesis
      using assms Some by (cases ss) (auto simp: holderStep_def retireLocked_def phases_def)
  next
    case (HSend s k)
    then show ?thesis
      using assms Some shape_sends [of k]
      by (auto simp: holderStep_def phases_def split: if_splits)
  next
    case HUnlock
    then show ?thesis
      using assms Some by (auto simp: holderStep_def phases_def)
  qed
qed (use assms in \<open>simp add: holderStep_def\<close>)

text \<open>Updates of other fields, and the updates of the sections.\<close>

lemma phases_other [simp]:
  "phases cfg (p\<lparr>pStarting := x\<rparr>) = phases cfg p" "phases cfg (p\<lparr>pActive := x\<rparr>) = phases cfg p"
  "phases cfg (p\<lparr>pRetiring := x\<rparr>) = phases cfg p" "phases cfg (p\<lparr>gSpawning := n\<rparr>) = phases cfg p"
  "phases cfg (p\<lparr>gReserved := n\<rparr>) = phases cfg p" "phases cfg (p\<lparr>gRebind := n\<rparr>) = phases cfg p"
  "phases cfg (p\<lparr>gBinding := ss\<rparr>) = phases cfg p" "phases cfg (p\<lparr>gOut := ss\<rparr>) = phases cfg p"
  "phases cfg (p\<lparr>gDrained := b\<rparr>) = phases cfg p" "phases cfg (p\<lparr>gExited := ws\<rparr>) = phases cfg p"
  "phases cfg (p\<lparr>pNext := n\<rparr>) = phases cfg p" "phases cfg (p\<lparr>pReaped := b\<rparr>) = phases cfg p"
  by (simp_all add: phases_def)

lemma phases_lock:
  assumes "phases cfg p"
  shows "phases cfg (p\<lparr>pLock := Some (HSend s HUnlock)\<rparr>)"
    and "\<not> pClosed p \<Longrightarrow> phases cfg (p\<lparr>pLock := Some HAcquire\<rparr>)"
    and "phases cfg (p\<lparr>pClosed := True, pIdle := [], pLock := Some (HClose ss)\<rparr>)"
  using assms by (simp_all add: phases_def)

lemma phases_lists:
  assumes "phases cfg p"
  shows "pClosed p \<or> ws = [] \<Longrightarrow> phases cfg (p\<lparr>gLost := ws\<rparr>)"
    and "length q \<le> length (pQueue p) \<Longrightarrow> phases cfg (p\<lparr>pQueue := q\<rparr>)"
    and "length r \<le> reapers cfg \<Longrightarrow> phases cfg (p\<lparr>gReaping := r\<rparr>)"
  using assms by (auto simp: phases_def)

lemma phases_idle:
  "phases cfg p \<Longrightarrow> \<not> recycles cfg alive p s \<Longrightarrow> phases cfg (p\<lparr>pIdle := pIdle p @ [s]\<rparr>)"
  by (auto simp: phases_def recycles_def)

lemma phases_reaping: "phases cfg p \<Longrightarrow> length (gReaping p) \<le> reapers cfg"
  "phases cfg p \<Longrightarrow> pClosed p \<or> gLost p = []"
  by (auto simp: phases_def)

lemma without_le: "length (without i xs) \<le> length xs"
  by (simp add: without_def)

lemma step_phases:
  assumes "step cfg l p = Some q" "phases cfg p"
  shows "phases cfg q"
proof (cases l)
  case (LHolder a)
  with assms show ?thesis by (auto intro: holder_phases split: if_splits)
next
  case (LRelease websocket alive i)
  let ?s = "if websocket then gOut p ! i else (gOut p ! i)\<lparr>sServed := sServed (gOut p ! i) + 1\<rparr>"
  let ?p = "p\<lparr>gOut := without i (gOut p), pActive := pActive p - 1\<rparr>"
  have q: "q = (if recycles cfg alive ?p ?s
      then retireLocked \<lparr>rwWorker = sWorker ?s, rwKilled = False\<rparr> HUnlock ?p
      else ?p\<lparr>pIdle := pIdle ?p @ [?s]\<rparr>)"
    using assms(1) LRelease by (simp add: release_def Let_def split: if_splits)
  have p: "phases cfg ?p" using assms(2) by simp
  have send: "phases cfg (retireLocked s HUnlock ?p)" for s
    unfolding retireLocked_def by (rule phases_lock(1)) (simp add: assms(2))
  show ?thesis
    using phases_idle [OF p] send by (cases "recycles cfg alive ?p ?s") (simp_all only: q if_True if_False)
next
  case (LExited i)
  then show ?thesis
    using assms phases_reaping [OF assms(2)] without_le [of i "gReaping p"]
    by (auto simp: reapExited_def phases_lists split: if_splits)
qed (use assms phases_reaping [OF assms(2)] in
  \<open>auto simp: pool_sections phases_lock phases_lists split: if_splits\<close>)

lemma step_inv: "step cfg l p = Some q \<Longrightarrow> pool_inv cfg p \<Longrightarrow> pool_inv cfg q"
  unfolding pool_inv_def using step_workers step_counters step_phases by blast

lemma run_inv: "run cfg ls p = Some q \<Longrightarrow> pool_inv cfg p \<Longrightarrow> pool_inv cfg q"
  by (induction ls arbitrary: p) (auto split: option.splits dest: step_inv)

lemma prewarmed:
  "pIdle ((prewarm ^^ n) empty_pool) = map (\<lambda>w. \<lparr>sWorker = w, sServed = 0\<rparr>) [0..<n]
   \<and> (prewarm ^^ n) empty_pool
     = empty_pool\<lparr>pIdle := map (\<lambda>w. \<lparr>sWorker = w, sServed = 0\<rparr>) [0..<n], pNext := n\<rparr>"
  by (induction n) (simp_all add: prewarm_def empty_pool_def)

lemma New_pool:
  assumes "New cfg ok = Inr p" "0 \<le> cMinProcesses cfg"
  shows "pool_inv cfg p" "live p \<le> cMaxProcesses cfg" "0 < cMaxProcesses cfg"
    "pLock p = None \<and> gLost p = [] \<and> \<not> pReaped p \<and> \<not> pPanic p \<and> \<not> gDrained p"
proof -
  define n where "n = nat (cMinProcesses (newConfig cfg))"
  have p: "p = empty_pool\<lparr>pIdle := map (\<lambda>w. \<lparr>sWorker = w, sServed = 0\<rparr>) [0..<n], pNext := n\<rparr>"
    and size: "int n \<le> cMaxProcesses cfg" "0 < cMaxProcesses cfg" "cSingleUse cfg \<Longrightarrow> n = 0"
    using assms prewarmed [of n]
    by (auto simp: New_def n_def newConfig_def Let_def split: if_splits)
  show "pool_inv cfg p"
    using size
    by (auto simp: p pool_inv_def workers_def counters_def phases_def empty_pool_def comp_def list_all_iff)
  show "live p \<le> cMaxProcesses cfg" "0 < cMaxProcesses cfg"
    "pLock p = None \<and> gLost p = [] \<and> \<not> pReaped p \<and> \<not> pPanic p \<and> \<not> gDrained p"
    using size by (simp_all add: p live_def empty_pool_def)
qed

end
