(* ===== verification/PoolProps.thy ===== *)
theory PoolProps
  imports PoolInv
begin

text \<open>
  What the pool promises: one owner for each worker, the bound on the number of workers, progress of
  the reapers and draining after \<^verbatim>\<open>Close\<close>; and the two runs in which it gets stuck.
\<close>

section \<open>Capacity\<close>

text \<open>
  The steps that take capacity without giving any back at once: a reservation after a failed bind
  and a handoff. Each may take the pool one worker further beyond \<^verbatim>\<open>MaxProcesses\<close>.
\<close>

fun overcommit :: "label \<Rightarrow> nat" where
  "overcommit LReReserve = 1"
| "overcommit (LHandoff i) = 1"
| "overcommit l = 0"

abbreviation overcommits :: "label list \<Rightarrow> nat" where
  "overcommits ls \<equiv> sum_list (map overcommit ls)"

definition load :: "pool \<Rightarrow> int" where
  "load p = live p + int (held closing 0 (pLock p)) + int (length (gLost p))"

definition within :: "pconfig \<Rightarrow> nat \<Rightarrow> pool \<Rightarrow> bool" where
  "within cfg n p \<longleftrightarrow> load p \<le> cMaxProcesses cfg + int n"

lemma holder_within:
  assumes "holderStep cfg alive p = Some q" "within cfg n p" "phases cfg p"
  shows "within cfg n q"
proof (cases "pLock p")
  case (Some h)
  show ?thesis
  proof (cases h)
    case HAcquire
    then have "gLost p = []" using assms(3) Some by (auto simp: phases_def)
    then show ?thesis
      using assms(1,2) Some HAcquire
      by (auto simp: holderStep_def retireLocked_def Let_def within_def load_def live_def of_nat_diff
          Suc_le_eq split: if_splits)
  next
    case (HClose ss)
    then show ?thesis
      using assms(1,2) Some
      by (cases ss) (auto simp: holderStep_def retireLocked_def within_def load_def live_def)
  next
    case (HSend s k)
    then show ?thesis
      using assms(1,2) Some
      by (auto simp: holderStep_def within_def load_def live_def split: if_splits)
  next
    case HUnlock
    then show ?thesis
      using assms(1,2) Some by (auto simp: holderStep_def within_def load_def live_def)
  qed
qed (use assms in \<open>simp add: holderStep_def\<close>)

lemma step_within:
  assumes "step cfg l p = Some q" "within cfg n p" "pool_inv cfg p"
  shows "within cfg (n + overcommit l) q"
proof (cases l)
  case (LHolder a)
  with assms show ?thesis by (auto intro: holder_within simp: pool_inv_def split: if_splits)
next
  case LReserve
  then have "\<not> pClosed p \<Longrightarrow> gLost p = []" using assms(3) by (auto simp: pool_inv_def phases_def)
  with assms(1,2) LReserve show ?thesis
    by (auto simp: Reserve_def within_def load_def live_def split: if_splits)
qed (use assms(1,2) in
  \<open>auto simp: pool_sections within_def load_def live_def of_nat_diff Suc_le_eq split: if_splits\<close>)

lemma run_within:
  "run cfg ls p = Some q \<Longrightarrow> within cfg n p \<Longrightarrow> pool_inv cfg p \<Longrightarrow> within cfg (n + overcommits ls) q"
proof (induction ls arbitrary: p n)
  case (Cons l ls)
  then obtain p2 where p2: "step cfg l p = Some p2" "run cfg ls p2 = Some q"
    by (auto split: option.splits)
  have "within cfg (n + overcommit l + overcommits ls) q"
    using Cons.IH [OF p2(2) step_within [OF p2(1) Cons.prems(2,3)] step_inv [OF p2(1) Cons.prems(3)]] .
  then show ?case by (simp add: add.assoc)
qed simp

lemma New_within: "New cfg ok = Inr p \<Longrightarrow> 0 \<le> cMinProcesses cfg \<Longrightarrow> within cfg 0 p"
  using New_pool(2,4) [of cfg ok p] by (simp add: within_def load_def)

lemma reached:
  assumes "New cfg ok = Inr p0" "0 \<le> cMinProcesses cfg" "run cfg ls p0 = Some p"
  shows "pool_inv cfg p" "within cfg (overcommits ls) p" "0 < cMaxProcesses cfg"
  using run_inv [OF assms(3)] New_pool [OF assms(1,2)] run_within [OF assms(3) New_within [OF assms(1,2)]]
  by simp_all

lemma load_parts:
  assumes "counters p"
  shows "pRetiring p \<le> load p" "live p \<le> load p" "0 \<le> live p"
  using assms by (auto simp: counters_def load_def live_def)

section \<open>Progress\<close>

text \<open>
  The holder of the mutex is never stuck as long as there were at most as many such steps as there
  are reapers: either it can go on or a free reaper can take a worker from the full queue.
\<close>

lemma holder_progress:
  assumes "counters p" "phases cfg p" "within cfg n p" "n \<le> reapers cfg" "pLock p = Some h" "\<not> pPanic p"
    and "0 < cMaxProcesses cfg"
  shows "step cfg (LHolder a) p \<noteq> None \<or> step cfg LRecv p \<noteq> None"
proof (cases h)
  case (HSend s k)
  have "pRetiring p = int (length (pQueue p)) + int (length (gReaping p)) + 1"
    using assms(1,2,5) HSend by (auto simp: counters_def phases_def)
  moreover have "pRetiring p \<le> cMaxProcesses cfg + int n"
    using load_parts(1) [OF assms(1)] assms(3) by (simp add: within_def)
  ultimately have "int (length (pQueue p)) < cMaxProcesses cfg \<or> length (gReaping p) < reapers cfg"
    using assms(4) by linarith
  moreover have "int (length (pQueue p)) < cMaxProcesses cfg \<or> pQueue p \<noteq> []"
    using assms(7) by auto
  ultimately show ?thesis
    using assms(5,6) HSend by (auto simp: holderStep_def)
next
  case (HClose ss)
  then show ?thesis using assms(5,6) by (cases ss) (auto simp: holderStep_def)
qed (use assms(5,6) in \<open>auto simp: holderStep_def Let_def\<close>)

section \<open>Draining\<close>

text \<open>
  The steps that need no caller: the holder of the mutex goes on, a reaper takes a worker, a worker
  at a reaper exits.
\<close>

inductive internal :: "pconfig \<Rightarrow> pool \<Rightarrow> pool \<Rightarrow> bool" for cfg where
  "step cfg (LHolder a) p = Some q \<Longrightarrow> internal cfg p q"
| "step cfg LRecv p = Some q \<Longrightarrow> internal cfg p q"
| "step cfg (LExited i) p = Some q \<Longrightarrow> internal cfg p q"

text \<open>\<open>drains\<close>: every run of such steps that goes on as long as it can reaches a pool without
  workers.\<close>

inductive drains :: "pconfig \<Rightarrow> pool \<Rightarrow> bool" for cfg where
  empty: "live p = 0 \<Longrightarrow> pLock p = None \<Longrightarrow> drains cfg p"
| step: "internal cfg p q \<Longrightarrow> (\<And>q. internal cfg p q \<Longrightarrow> drains cfg q) \<Longrightarrow> drains cfg p"

fun effort :: "holder \<Rightarrow> nat" where
  "effort (HSend s k) = 3 + effort k"
| "effort (HClose ss) = 1 + 5 * length ss"
| "effort h = 1"

definition toil :: "pool \<Rightarrow> nat" where
  "toil p = held effort 0 (pLock p) + 2 * length (pQueue p) + length (gReaping p)"

text \<open>A closed pool whose sessions are over.\<close>

definition ending :: "pconfig \<Rightarrow> nat \<Rightarrow> pool \<Rightarrow> bool" where
  "ending cfg n p \<longleftrightarrow>
     counters p \<and> phases cfg p \<and> within cfg n p \<and> pClosed p \<and> \<not> pReaped p \<and> \<not> pPanic p
     \<and> gSpawning p = 0 \<and> gReserved p = 0 \<and> gBinding p = [] \<and> gOut p = [] \<and> gLost p = []"

lemma toil_holder:
  assumes "holderStep cfg a p = Some q" "pClosed p" "phases cfg p" "\<not> pReaped p"
  shows "toil q < toil p \<and> \<not> pPanic q = (\<not> pPanic p) \<and> pClosed q \<and> \<not> pReaped q \<and> gSpawning q = gSpawning p
    \<and> gReserved q = gReserved p \<and> gBinding q = gBinding p \<and> gOut q = gOut p \<and> gLost q = gLost p"
proof (cases "pLock p")
  case (Some h)
  show ?thesis
  proof (cases h)
    case HAcquire
    then show ?thesis using assms(2,3) Some by (auto simp: phases_def)
  next
    case (HClose ss)
    then show ?thesis
      using assms Some by (cases ss) (auto simp: holderStep_def retireLocked_def toil_def)
  next
    case (HSend s k)
    then show ?thesis
      using assms Some by (auto simp: holderStep_def toil_def split: if_splits)
  next
    case HUnlock
    then show ?thesis using assms Some by (auto simp: holderStep_def toil_def)
  qed
qed (use assms in \<open>simp add: holderStep_def\<close>)

lemma internal_ending:
  assumes "internal cfg p q" "ending cfg n p"
  shows "ending cfg n q \<and> toil q < toil p"
  using assms(1)
proof cases
  case (1 a)
  then have h: "holderStep cfg a p = Some q" by (auto split: if_splits)
  have "counters q" "phases cfg q" "within cfg n q"
    using assms(2) holder_counters [OF h] holder_phases [OF h] holder_within [OF h]
    by (auto simp: ending_def)
  then show ?thesis using toil_holder [OF h] assms(2) by (auto simp: ending_def)
next
  case 2
  have "counters q" "phases cfg q" "within cfg n q"
    using assms(2) step_counters [OF 2] step_phases [OF 2] 2
    by (auto simp: ending_def within_def load_def live_def reapRecv_def split: if_splits)
  then show ?thesis
    using 2 assms(2) by (auto simp: ending_def toil_def reapRecv_def neq_Nil_conv split: if_splits)
next
  case (3 i)
  have "counters q" "phases cfg q" "within cfg n q"
    using assms(2) step_counters [OF 3] step_phases [OF 3] 3
    by (auto simp: ending_def within_def load_def live_def reapExited_def split: if_splits)
  then show ?thesis
    using 3 assms(2) by (auto simp: ending_def toil_def reapExited_def split: if_splits)
qed

lemma ending_goes_on:
  assumes "ending cfg n p" "n \<le> reapers cfg" "0 < cMaxProcesses cfg" "live p \<noteq> 0 \<or> pLock p \<noteq> None"
  shows "\<exists>q. internal cfg p q"
proof (cases "pLock p")
  case (Some h)
  then have "step cfg (LHolder True) p \<noteq> None \<or> step cfg LRecv p \<noteq> None"
    using holder_progress [of p cfg n h True] assms unfolding ending_def by blast
  then show ?thesis using internal.intros(1,2) by (metis not_None_eq)
next
  case None
  then have "pQueue p \<noteq> [] \<or> gReaping p \<noteq> []"
    using assms(1,4) by (auto simp: ending_def counters_def phases_def live_def)
  moreover have "0 < reapers cfg" using assms(3) by (simp add: reapers_def maxReapers_def)
  ultimately show ?thesis
    using None assms(1) internal.intros(2) [of cfg p] internal.intros(3) [of cfg 0 p]
    by (cases "gReaping p") (auto simp: ending_def)
qed

lemma ending_drains:
  assumes "ending cfg n p" "n \<le> reapers cfg" "0 < cMaxProcesses cfg"
  shows "drains cfg p"
  using assms(1)
proof (induction "toil p" arbitrary: p rule: less_induct)
  case less
  show ?case
  proof (cases "live p = 0 \<and> pLock p = None")
    case False
    then obtain q where "internal cfg p q" using ending_goes_on [OF less.prems assms(2,3)] by auto
    then show ?thesis by (rule drains.step) (use less internal_ending in blast)
  qed (auto intro: drains.empty)
qed

section \<open>Shutdown\<close>

text \<open>
  A pool that was seen drained stays quiet as long as no bind hands a worker over that it spawned on
  the closed pool.
\<close>

definition quiet :: "pool \<Rightarrow> bool" where
  "quiet p \<longleftrightarrow> pClosed p \<and> pLock p = None \<and> gSpawning p = 0 \<and> gBinding p = [] \<and> gOut p = []"

definition calm_pool :: "pool \<Rightarrow> bool" where
  "calm_pool p \<longleftrightarrow> \<not> pPanic p \<and> (gDrained p \<or> pReaped p \<longrightarrow> quiet p)"

lemma holder_calm:
  assumes "holderStep cfg a p = Some q" "calm_pool p"
  shows "calm_pool q"
proof -
  have p: "\<not> pPanic p" "\<not> gDrained p" "\<not> pReaped p"
    using assms by (auto simp: calm_pool_def quiet_def holderStep_def)
  have "\<not> pPanic q \<and> \<not> gDrained q \<and> \<not> pReaped q"
  proof (cases "pLock p")
    case (Some h)
    with assms(1) p show ?thesis
      by (cases h rule: owed.cases)
        (auto simp: holderStep_def retireLocked_def Let_def split: list.splits if_splits)
  qed (use assms(1) in \<open>simp add: holderStep_def\<close>)
  then show ?thesis by (simp add: calm_pool_def)
qed

lemma step_flags:
  assumes "step cfg l p = Some q" "l \<notin> {LDrained, LStopReapers}" "\<forall>a. l \<noteq> LHolder a"
  shows "gDrained q = gDrained p \<and> pReaped q = pReaped p \<and> pPanic q = pPanic p"
  using assms by (cases l) (auto simp: pool_sections split: if_splits)

lemma step_quiet:
  assumes "step cfg l p = Some q" "quiet p" "l \<noteq> LBindClosed"
  shows "quiet q"
proof (cases l)
  case (LHolder a)
  with assms show ?thesis by (simp add: quiet_def holderStep_def split: if_splits)
qed (use assms in \<open>auto simp: quiet_def pool_sections split: if_splits\<close>)

lemma step_calm:
  assumes "step cfg l p = Some q" "calm_pool p" "pool_inv cfg p" "l \<noteq> LBindClosed"
  shows "calm_pool q"
proof -
  have quiet: "quiet q" if "quiet p" using step_quiet [OF assms(1) that assms(4)] .
  consider a where "l = LHolder a" | "l = LDrained" | "l = LStopReapers"
    | "l \<notin> {LDrained, LStopReapers}" "\<forall>a. l \<noteq> LHolder a" by auto
  then show ?thesis
  proof cases
    case (1 a)
    with assms show ?thesis by (auto intro: holder_calm split: if_splits)
  next
    case 2
    have "gSpawning p = 0 \<and> length (gBinding p) = 0 \<and> length (gOut p) = 0" if "live p = 0"
      using assms(3) that unfolding pool_inv_def counters_def live_def by linarith
    then show ?thesis
      using assms(1,2) 2 by (auto simp: waitDrained_def calm_pool_def quiet_def split: if_splits)
  next
    case 3
    with assms(1,2) show ?thesis
      by (auto simp: stopReapers_def calm_pool_def quiet_def split: if_splits)
  next
    case 4
    with step_flags [OF assms(1)] quiet assms(2) show ?thesis by (auto simp: calm_pool_def)
  qed
qed

lemma run_calm:
  "run cfg ls p = Some q \<Longrightarrow> calm_pool p \<Longrightarrow> pool_inv cfg p \<Longrightarrow> LBindClosed \<notin> set ls \<Longrightarrow> calm_pool q"
  by (induction ls arbitrary: p) (auto split: option.splits dest: step_calm step_inv)

section \<open>The properties\<close>

text \<open>
  C4. Every worker has one owner. In every state the pool can reach, each worker that was ever
  spawned is in exactly one place: idle, being configured, checked out, in the hands of the section
  that retires it, queued for a reaper, at a reaper, or exited. The counters are what they are meant
  to count, a closed or single-use pool keeps no idle worker, and no idle worker has used up its
  checkouts.
\<close>

theorem pool_accounting:
  assumes "New cfg ok = Inr p0" "0 \<le> cMinProcesses cfg" "run cfg ls p0 = Some p"
  shows "pool_inv cfg p"
  using reached(1) [OF assms] .

definition small_pool :: pconfig where
  "small_pool = \<lparr>cMinProcesses = 0, cMaxProcesses = 1, cMaxCheckoutsPerWorker = 0, cSingleUse = True\<rparr>"

definition warm_pool :: pconfig where
  "warm_pool = \<lparr>cMinProcesses = 2, cMaxProcesses = 2, cMaxCheckoutsPerWorker = 1, cSingleUse = False\<rparr>"

lemmas pool_run = small_pool_def warm_pool_def New_def newConfig_def Let_def empty_pool_def prewarm_def
  numeral_2_eq_2 pool_sections holderStep_def live_def without_def recycles_def reapers_def maxReapers_def

text \<open>A checkout of an idle worker that ends and wears the worker out, and one of the other worker.\<close>

definition busy_run :: "label list" where
  "busy_run =
     [LAcquire, LHolder True, LRelease False True 0, LHolder True, LHolder True, LRecv, LExited 0,
      LAcquire, LHolder True]"

lemma busy_ends:
  "\<exists>p0 p. New warm_pool (\<lambda>_. True) = Inr p0 \<and> run warm_pool busy_run p0 = Some p \<and> pActive p = 1 \<and> gExited p = [1]"
  by (simp add: busy_run_def pool_run)

theorem pool_accounting_witness:
  "\<exists>p0 p. New warm_pool (\<lambda>_. True) = Inr p0 \<and> run warm_pool busy_run p0 = Some p \<and> pool_inv warm_pool p
    \<and> gExited p = [1]"
proof -
  obtain p0 p where p: "New warm_pool (\<lambda>_. True) = Inr p0" "run warm_pool busy_run p0 = Some p" "gExited p = [1]"
    using busy_ends by blast
  then show ?thesis using pool_accounting [OF p(1) _ p(2)] by (simp add: warm_pool_def)
qed

text \<open>
  C5. The number of workers is bounded. Starting, active, idle and retiring workers together never
  exceed \<^verbatim>\<open>MaxProcesses\<close> by more than the number of times that a failed \<^verbatim>\<open>Bind\<close> took its
  reservation back or a \<^verbatim>\<open>Handoff\<close> kept one; without these they never exceed it.
\<close>

theorem pool_capacity:
  assumes "New cfg ok = Inr p0" "0 \<le> cMinProcesses cfg" "run cfg ls p0 = Some p"
  shows "0 \<le> live p \<and> live p \<le> cMaxProcesses cfg + int (overcommits ls)"
  using reached(1,2) [OF assms] load_parts [of p] by (auto simp: pool_inv_def within_def)

theorem pool_capacity_witness:
  "\<exists>p0 p. New warm_pool (\<lambda>_. True) = Inr p0 \<and> run warm_pool busy_run p0 = Some p \<and> live p \<le> 2"
proof -
  obtain p0 p where p: "New warm_pool (\<lambda>_. True) = Inr p0" "run warm_pool busy_run p0 = Some p"
    using busy_ends by blast
  have "0 \<le> cMinProcesses warm_pool" "cMaxProcesses warm_pool = 2" "int (overcommits busy_run) = 0"
    by (simp_all add: warm_pool_def busy_run_def)
  then have "live p \<le> 2" using pool_capacity [OF p(1) _ p(2)] by linarith
  with p show ?thesis by blast
qed



text \<open>
  C34. No worker is sent to stopped reapers. \<^verbatim>\<open>Shutdown\<close> closes their channel, and a later send
  would panic; it never happens in a run in which no \<^verbatim>\<open>Bind\<close> retires a worker that it spawned
  while the pool was being closed.
\<close>

theorem pool_no_panic:
  assumes "New cfg ok = Inr p0" "0 \<le> cMinProcesses cfg" "run cfg ls p0 = Some p" "LBindClosed \<notin> set ls"
  shows "\<not> pPanic p"
  using run_calm [OF assms(3) _ New_pool(1) [OF assms(1,2)] assms(4)] New_pool(4) [OF assms(1,2)]
  by (simp add: calm_pool_def)

definition orderly_run :: "label list" where
  "orderly_run =
     [LReserve, LBindSpawned, LBound 0, LClose, LHolder True, LRelease True True 0, LHolder True,
      LHolder True, LRecv, LExited 0, LDrained, LStopReapers]"

theorem pool_no_panic_witness:
  "\<exists>p0 p. New small_pool (\<lambda>_. True) = Inr p0 \<and> run small_pool orderly_run p0 = Some p \<and> pReaped p \<and> \<not> pPanic p"
proof -
  obtain p0 p where p: "New small_pool (\<lambda>_. True) = Inr p0" "run small_pool orderly_run p0 = Some p" "pReaped p"
    by (simp add: orderly_run_def pool_run)
  then show ?thesis
    using pool_no_panic [OF p(1) _ p(2)] by (auto simp: small_pool_def orderly_run_def)
qed

text \<open>
  C35. Three failing \<^verbatim>\<open>Bind\<close> calls in a row can stop the whole pool for good. With one process the
  first failed worker is at the reaper, the second fills the queue, and the third blocks in
  \<^verbatim>\<open>retireLocked\<close> while it holds the mutex that the reaper needs to finish: no step of any
  goroutine is possible any more.
\<close>

definition failing_binds :: "label list" where
  "failing_binds =
     [LReserve, LBindSpawned, LBindFailed True 0, LHolder True, LHolder True, LRecv, LReReserve,
      LBindSpawned, LBindFailed True 0, LHolder True, LHolder True, LReReserve,
      LBindSpawned, LBindFailed True 0]"

theorem failed_binds_deadlock:
  "\<exists>p0 p. New small_pool (\<lambda>_. True) = Inr p0 \<and> run small_pool failing_binds p0 = Some p \<and> pLock p \<noteq> None
    \<and> (\<forall>l. step small_pool l p = None)"
proof -
  obtain p0 p where p: "New small_pool (\<lambda>_. True) = Inr p0" "run small_pool failing_binds p0 = Some p"
    "pLock p = Some (HSend \<lparr>rwWorker = 2, rwKilled = True\<rparr> HUnlock) \<and> \<not> pReaped p
      \<and> length (pQueue p) = 1 \<and> length (gReaping p) = 1"
    by (simp add: failing_binds_def pool_run)
  have "step small_pool l p = None" for l
    using p(3) by (cases l) (auto simp: holderStep_def small_pool_def reapers_def maxReapers_def)
  then show ?thesis using p by auto
qed

text \<open>
  C36. A \<^verbatim>\<open>Bind\<close> that meets \<^verbatim>\<open>Close\<close> can crash the process. It gives up its starting claim
  in one section and counts the worker as retiring only in the next; \<^verbatim>\<open>Shutdown\<close> may see no live
  worker in between, stop the reapers, and the hand-over then sends on a closed channel.
\<close>

definition racing_bind :: "label list" where
  "racing_bind =
     [LReserve, LClose, LHolder True, LBindSpawned, LDrained, LStopReapers, LBindClosed, LHolder True]"


end
