(* ===== verification/PoolErrors.thy ===== *)
theory PoolErrors
  imports RequestEncode
begin

text \<open>
  The failures of the pool and how they are shown: \<^verbatim>\<open>internal/pool/errors.go\<close>, the kinds and
  exit statuses of \<^verbatim>\<open>internal/worker/worker.go\<close>, and the texts of the errors of
  \<^verbatim>\<open>internal/wire\<close>. \<open>isPrint\<close> is \<^verbatim>\<open>unicode.IsPrint\<close>; \<open>parseText n\<close> is the text of
  \<^verbatim>\<open>protowire.ParseError(n)\<close>, which is not part of the sources.
\<close>

section \<open>Workers\<close>

datatype workerKind = KindSubprocess | KindWasm | KindWebSocket

fun workerKind_String :: "workerKind \<Rightarrow> string" where
  "workerKind_String KindSubprocess = ''subprocess''"
| "workerKind_String KindWasm = ''wasm''"
| "workerKind_String KindWebSocket = ''websocket''"

record status =
  stKnown :: bool
  stExited :: bool
  stCode :: int
  stSignal :: int
  stKilled :: bool

definition zeroStatus :: status where
  "zeroStatus = \<lparr>stKnown = False, stExited = False, stCode = 0, stSignal = 0, stKilled = False\<rparr>"

definition signalNames :: "int \<Rightarrow> string option" where
  "signalNames = map_of (zip [1..15]
     [''SIGHUP'', ''SIGINT'', ''SIGQUIT'', ''SIGILL'', ''SIGTRAP'', ''SIGABRT'', ''SIGBUS'', ''SIGFPE'',
      ''SIGKILL'', ''SIGUSR1'', ''SIGSEGV'', ''SIGUSR2'', ''SIGPIPE'', ''SIGALRM'', ''SIGTERM''])"

definition status_String :: "status \<Rightarrow> string" where
  "status_String s =
     (if \<not> stKnown s then []
      else if stExited s then ''exit status: '' @ dec_int (stCode s)
      else if stSignal s \<noteq> 0 then
        (case signalNames (stSignal s) of
           Some name \<Rightarrow> ''signal: '' @ dec_int (stSignal s) @ '' ('' @ name @ '')''
         | None \<Rightarrow> ''signal: '' @ dec_int (stSignal s))
      else if stKilled s then ''killed''
      else [])"

section \<open>The texts of errors\<close>

text \<open>The verb \<^verbatim>\<open>%q\<close> of package \<^verbatim>\<open>fmt\<close>: each rune as \<^verbatim>\<open>strconv.Quote\<close> escapes it.\<close>

definition quoteRune :: "(nat \<Rightarrow> bool) \<Rightarrow> nat \<Rightarrow> string" where
  "quoteRune isPrint r =
     (if r = 0x22 \<or> r = 0x5C then [CHR 0x5C, char_of r]
      else if isPrint r then rune_char r
      else if r = 7 then [CHR 0x5C, CHR ''a'']
      else if r = 8 then [CHR 0x5C, CHR ''b'']
      else if r = 12 then [CHR 0x5C, CHR ''f'']
      else if r = 10 then [CHR 0x5C, CHR ''n'']
      else if r = 13 then [CHR 0x5C, CHR ''r'']
      else if r = 9 then [CHR 0x5C, CHR ''t'']
      else if r = 11 then [CHR 0x5C, CHR ''v'']
      else if r < 32 \<or> r = 0x7F then [CHR 0x5C, CHR ''x''] @ hex_pad 2 r
      else if r < 0x10000 then [CHR 0x5C, CHR ''u''] @ hex_pad 4 r
      else [CHR 0x5C, CHR ''U''] @ hex_pad 8 r)"

definition go_quote :: "(nat \<Rightarrow> bool) \<Rightarrow> string \<Rightarrow> string" where
  "go_quote isPrint s =
     (let b = bytes_of_string s
      in [CHR 0x22]
         @ concat (map (\<lambda>(i, r).
             if r = 0xFFFD \<and> snd (decodeRune (drop i b)) = 1
             then [CHR 0x5C, CHR ''x''] @ hex_pad 2 (unat (b ! i))
             else quoteRune isPrint r) (go_range 0 b))
         @ [CHR 0x22])"

fun wireError_Error :: "(nat \<Rightarrow> bool) \<Rightarrow> (int \<Rightarrow> string) \<Rightarrow> wire_error \<Rightarrow> string" where
  "wireError_Error isPrint parseText (ParseError n) = parseText n"
| "wireError_Error isPrint parseText (WireType num got want) =
     ''field '' @ dec_int num @ '': wire type '' @ dec_int got @ '', expected '' @ dec_int want"
| "wireError_Error isPrint parseText (WireMsg m) = m"
| "wireError_Error isPrint parseText ErrDecodeBudget = ''decoded frame exceeds the host memory budget''"
| "wireError_Error isPrint parseText ErrTruncated = ''frame stream truncated''"
| "wireError_Error isPrint parseText ErrEOF = ''EOF''"
| "wireError_Error isPrint parseText ErrUnexpectedEOF = ''unexpected EOF''"
| "wireError_Error isPrint parseText (ErrRead m) = m"
| "wireError_Error isPrint parseText (FrameTooLarge n m) =
     ''frame of '' @ dec n @ '' bytes exceeds maximum of '' @ dec m @ '' bytes''"
| "wireError_Error isPrint parseText (InvalidUUID u) = ''invalid uuid '' @ go_quote isPrint u"
| "wireError_Error isPrint parseText (InvalidHandleMode m) = ''invalid file handle mode '' @ go_quote isPrint m"
| "wireError_Error isPrint parseText (ConversionError m) = m"
| "wireError_Error isPrint parseText (ConversionUUID u) = ''invalid uuid '' @ go_quote isPrint u"
| "wireError_Error isPrint parseText NilPointer = []"
| "wireError_Error isPrint parseText NoProgress = []"

text \<open>\<^verbatim>\<open>errors.As\<close> with a \<^verbatim>\<open>*ConversionError\<close>: whether the error is one.\<close>

fun asConversion :: "wire_error \<Rightarrow> bool" where
  "asConversion (ConversionError m) = True"
| "asConversion (ConversionUUID u) = True"
| "asConversion e = False"

fun cwd_error_text :: "(nat \<Rightarrow> bool) \<Rightarrow> cwd_error \<Rightarrow> string" where
  "cwd_error_text isPrint (CwdHasNul cwd) = ''cwd must not contain NUL bytes: '' @ RustDebugString isPrint cwd"
| "cwd_error_text isPrint (CwdNotAbsolute cwd) =
     ''cwd must be an absolute POSIX path: '' @ RustDebugString isPrint cwd"

section \<open>Durations\<close>

text \<open>
  A \<^verbatim>\<open>time.Duration\<close> is an \<^verbatim>\<open>int64\<close> of nanoseconds: a word that is read signed. The
  fraction is written digit by digit until nothing is left of it.
\<close>

type_synonym duration = "64 word"

function fracDigits :: "nat \<Rightarrow> nat \<Rightarrow> string" where
  "fracDigits divisor fr =
     (if divisor = 0 \<or> fr = 0 then []
      else char_of (48 + fr div divisor) # fracDigits (divisor div 10) (fr mod divisor))"
  by pat_completeness auto
termination by (relation "measure fst") auto

declare fracDigits.simps [simp del]

definition fmtFraction :: "nat \<Rightarrow> nat \<Rightarrow> nat \<Rightarrow> string \<Rightarrow> string" where
  "fmtFraction integer fr divisor unit =
     dec integer @ (if 0 < fr then ''.'' @ fracDigits divisor fr else []) @ unit"

definition FormatRustDuration :: "duration \<Rightarrow> string" where
  "FormatRustDuration d =
     (let ns = (if sint d < 0 then 0 else unat d);
          secs = ns div 1000000000;
          nanos = ns mod 1000000000
      in if 0 < secs then fmtFraction secs nanos 100000000 ''s''
         else if 1000000 \<le> nanos then fmtFraction (nanos div 1000000) (nanos mod 1000000) 100000 ''ms''
         else if 1000 \<le> nanos then
           fmtFraction (nanos div 1000) (nanos mod 1000) 100 ([CHR 0xC2, CHR 0xB5] @ ''s'')
         else dec nanos @ ''ns'')"

section \<open>Pool errors\<close>

text \<open>
  \<open>Panicked\<close> is not a kind of the sources: it stands for the panic of a nil dereference, which
  leaves the operation through its deferred calls.
\<close>

datatype errorKind =
    KindCrashed | KindTimeout | KindProtocol | KindRuntime | KindTyping | KindExhausted | KindSpawn
  | KindFinished | KindDisconnected | KindShutdown | KindCancelled | KindClosed | Panicked

record perror =
  eKind :: errorKind
  eMessage :: string
  eAnnounced :: bool
  eStatus :: status
  eTimeout :: duration
  eException :: "wireException option"
  eDiagnostics :: string
  eDump :: bytes
  eHasDump :: bool
  eCloseCode :: int
  eCloseReason :: string
  eWorkerLost :: bool
  ePreSend :: bool
  eCause :: "string option"

definition newError :: "errorKind \<Rightarrow> perror" where
  "newError k =
     \<lparr>eKind = k, eMessage = [], eAnnounced = False, eStatus = zeroStatus, eTimeout = 0,
      eException = None, eDiagnostics = [], eDump = [], eHasDump = False, eCloseCode = 0,
      eCloseReason = [], eWorkerLost = False, ePreSend = False, eCause = None\<rparr>"

definition protocolError :: "string \<Rightarrow> perror" where
  "protocolError m = (newError KindProtocol)\<lparr>eMessage := m\<rparr>"

definition runtimeError :: "string \<Rightarrow> string \<Rightarrow> perror" where
  "runtimeError ty message =
     (newError KindRuntime)\<lparr>eException := Some (NewException ty message), ePreSend := True\<rparr>"

definition perror_Error :: "perror \<Rightarrow> string" where
  "perror_Error e =
     (case eKind e of
        KindCrashed \<Rightarrow>
          (if eAnnounced e then ''monty worker crashed: '' else ''monty worker crashed while '')
          @ eMessage e
          @ (let st = status_String (eStatus e) in if st \<noteq> [] then '' ('' @ st @ '')'' else [])
      | KindTimeout \<Rightarrow>
          ''monty worker killed after exceeding request timeout of '' @ FormatRustDuration (eTimeout e)
      | KindProtocol \<Rightarrow> ''monty worker protocol error: '' @ eMessage e
      | KindRuntime \<Rightarrow> (case eException e of Some exc \<Rightarrow> Render exc | None \<Rightarrow> eMessage e)
      | KindTyping \<Rightarrow> ''type checking failed:'' @ [CHR 0x0A] @ eDiagnostics e
      | KindExhausted \<Rightarrow> ''no monty worker became available within the checkout timeout''
      | KindSpawn \<Rightarrow> ''failed to spawn monty worker: '' @ eMessage e
      | KindFinished \<Rightarrow> ''this checkout has already been finished''
      | KindDisconnected \<Rightarrow>
          ''monty worker connection closed while '' @ eMessage e
          @ (if eCloseCode e \<noteq> 0
             then '': closed by server ('' @ dec_int (eCloseCode e) @ '')''
                  @ (if eCloseReason e \<noteq> [] then '': '' @ eCloseReason e else [])
             else [])
      | KindShutdown \<Rightarrow>
          (if eHasDump e
           then ''monty server is shutting down; the request did not run (session dump attached)''
           else ''monty server is shutting down; the request did not run'')
      | KindCancelled \<Rightarrow>
          ''a previous protocol turn was cancelled mid-flight; the worker was discarded''
      | KindClosed \<Rightarrow> ''the pool is closed''
      | Panicked \<Rightarrow> eMessage e)"

section \<open>The text of a duration is exact\<close>

lemma sint_uint_cases:
  fixes d :: duration
  shows "sint d = (if uint d < 2 ^ 63 then uint d else uint d - 2 ^ 64)"
proof -
  have "sint d = (uint d + 2 ^ 63) mod 2 ^ 64 - 2 ^ 63"
    by (simp add: sint_uint signed_take_bit_eq_take_bit_shift take_bit_eq_mod)
  moreover have range: "0 \<le> uint d" "uint d < 2 ^ 64"
    using unsigned_less [of d, where ?'a = int] by simp_all
  moreover have "(uint d + 2 ^ 63) mod 2 ^ 64 = uint d + 2 ^ 63 - 2 ^ 64" if "\<not> uint d < 2 ^ 63"
    using that range mod_pos_pos_trivial [of "uint d + 2 ^ 63 - 2 ^ 64" "2 ^ 64"]
      minus_mod_self2 [of "uint d + 2 ^ 63" "2 ^ 64"] by simp
  ultimately show ?thesis by (cases "uint d < 2 ^ 63") (simp_all only: if_True if_False, simp_all)
qed

definition digits_value :: "string \<Rightarrow> nat" where
  "digits_value ds = foldl (\<lambda>n c. 10 * n + (of_char c - 48)) 0 ds"

lemma digits_value_fold: "foldl (\<lambda>n c. 10 * n + (of_char c - 48)) a ds = 10 ^ length ds * a + digits_value ds"
proof (induction ds arbitrary: a)
  case (Cons c ds)
  have "digits_value (c # ds) = 10 ^ length ds * (of_char c - 48) + digits_value ds"
    using Cons.IH [of "of_char c - 48"] by (simp add: digits_value_def)
  then show ?case by (simp add: Cons.IH distrib_left)
qed (simp add: digits_value_def)

lemma digits_value_simps [simp]:
  "digits_value [] = 0"
  "digits_value (c # ds) = 10 ^ length ds * (of_char c - 48) + digits_value ds"
  using digits_value_fold [of "of_char c - 48" ds] by (simp_all add: digits_value_def)

text \<open>The digits, extended with zeros to the width of the unit, are the fraction.\<close>

lemma fracDigits_exact:
  "fr < 10 * 10 ^ k \<Longrightarrow>
     length (fracDigits (10 ^ k) fr) \<le> Suc k
     \<and> digits_value (fracDigits (10 ^ k) fr) * 10 ^ (Suc k - length (fracDigits (10 ^ k) fr)) = fr"
proof (induction k arbitrary: fr)
  case 0
  then show ?case
    by (cases "fr = 0")
      (simp_all add: fracDigits.simps [of "Suc 0"] fracDigits.simps [of 0] of_char_of)
next
  case (Suc k)
  show ?case
  proof (cases "fr = 0")
    case False
    define q r where "q = fr div 10 ^ Suc k" and "r = fr mod 10 ^ Suc k"
    have q: "q < 10"
      using Suc.prems unfolding q_def by (simp add: less_mult_imp_div_less mult.commute)
    have r: "r < 10 * 10 ^ k" unfolding r_def by simp
    have split: "fr = q * 10 ^ Suc k + r" unfolding q_def r_def by (rule div_mult_mod_eq [symmetric])
    have eq: "fracDigits (10 ^ Suc k) fr = char_of (48 + q) # fracDigits (10 ^ k) r"
      using False by (subst fracDigits.simps) (simp add: q_def r_def)
    note IH = Suc.IH [OF r]
    let ?ds = "fracDigits (10 ^ k) r"
    have "10 ^ length ?ds * q * 10 ^ (Suc k - length ?ds) = q * 10 ^ Suc k"
      using IH by (simp add: mult.assoc mult.left_commute flip: power_add)
    then show ?thesis
      unfolding eq using IH q split by (simp add: of_char_of distrib_right)
  qed (simp add: fracDigits.simps [of _ 0])
qed

lemma fmtFraction_exact:
  assumes "fr < 10 * 10 ^ k"
  obtains ds where "fmtFraction i fr (10 ^ k) unit = dec i @ (if ds = [] then [] else ''.'' @ ds) @ unit"
    and "length ds \<le> Suc k" and "digits_value ds * 10 ^ (Suc k - length ds) = fr"
proof
  show "fmtFraction i fr (10 ^ k) unit
    = dec i @ (if fracDigits (10 ^ k) fr = [] then [] else ''.'' @ fracDigits (10 ^ k) fr) @ unit"
    by (simp add: fmtFraction_def fracDigits.simps)
qed (use fracDigits_exact [OF assms] in auto)

definition duration_text :: "nat \<Rightarrow> string \<Rightarrow> string \<Rightarrow> nat \<Rightarrow> bool" where
  "duration_text k unit s ns \<longleftrightarrow>
     (\<exists>i ds. s = dec i @ (if ds = [] then [] else ''.'' @ ds) @ unit
        \<and> length ds \<le> k \<and> i * 10 ^ k + digits_value ds * 10 ^ (k - length ds) = ns)"

lemma duration_text_fraction:
  "duration_text (Suc k) unit (fmtFraction (ns div 10 ^ Suc k) (ns mod 10 ^ Suc k) (10 ^ k) unit) ns"
proof -
  obtain ds where "fmtFraction (ns div 10 ^ Suc k) (ns mod 10 ^ Suc k) (10 ^ k) unit
      = dec (ns div 10 ^ Suc k) @ (if ds = [] then [] else ''.'' @ ds) @ unit"
    and "length ds \<le> Suc k" and "digits_value ds * 10 ^ (Suc k - length ds) = ns mod 10 ^ Suc k"
    by (rule fmtFraction_exact [of "ns mod 10 ^ Suc k" k]) auto
  moreover have "ns div 10 ^ Suc k * 10 ^ Suc k + ns mod 10 ^ Suc k = ns" by (rule div_mult_mod_eq)
  ultimately show ?thesis unfolding duration_text_def by metis
qed

text \<open>
  The text of a duration is exact: the whole number before the point and the digits after it, in the
  unit that is written, are all the nanoseconds (none for a negative duration).
\<close>

lemma FormatRustDuration_exact:
  "\<exists>k unit. (k, unit) \<in> {(9, ''s''), (6, ''ms''), (3, [CHR 0xC2, CHR 0xB5] @ ''s''), (0, ''ns'')}
     \<and> duration_text k unit (FormatRustDuration d) (nat (sint d))"
proof -
  define ns where "ns = nat (sint d)"
  have ns: "(if sint d < 0 then 0 else unat d) = ns"
    unfolding ns_def using unsigned_less [of d, where ?'a = int]
    by (cases "uint d < 2 ^ 63") (simp_all add: sint_uint_cases)
  consider "1000000000 \<le> ns" | "ns < 1000000000" "1000000 \<le> ns"
    | "ns < 1000000" "1000 \<le> ns" | "ns < 1000"
    by linarith
  then show ?thesis
  proof cases
    case 1
    then have "FormatRustDuration d = fmtFraction (ns div 10 ^ Suc 8) (ns mod 10 ^ Suc 8) (10 ^ 8) ''s''"
      by (simp add: FormatRustDuration_def ns div_greater_zero_iff)
    then show ?thesis using duration_text_fraction [of 8 "''s''" ns]
      by (intro exI [of _ 9] exI [of _ "''s''"]) (simp add: ns_def)
  next
    case 2
    then have "FormatRustDuration d = fmtFraction (ns div 10 ^ Suc 5) (ns mod 10 ^ Suc 5) (10 ^ 5) ''ms''"
      by (simp add: FormatRustDuration_def ns)
    then show ?thesis using duration_text_fraction [of 5 "''ms''" ns]
      by (intro exI [of _ 6] exI [of _ "''ms''"]) (simp add: ns_def)
  next
    case 3
    then have "FormatRustDuration d
        = fmtFraction (ns div 10 ^ Suc 2) (ns mod 10 ^ Suc 2) (10 ^ 2) ([CHR 0xC2, CHR 0xB5] @ ''s'')"
      by (simp add: FormatRustDuration_def ns)
    then show ?thesis
      using duration_text_fraction [of 2 "[CHR 0xC2, CHR 0xB5] @ ''s''" ns]
      by (intro exI [of _ 3] exI [of _ "[CHR 0xC2, CHR 0xB5] @ ''s''"]) (simp add: ns_def)
  next
    case 4
    then have "FormatRustDuration d = dec ns @ ''ns''" by (simp add: FormatRustDuration_def ns)
    moreover have "duration_text 0 ''ns'' (dec ns @ ''ns'') ns"
      unfolding duration_text_def by (intro exI [of _ ns] exI [of _ "[]"]) simp
    ultimately show ?thesis by (intro exI [of _ 0] exI [of _ "''ns''"]) (simp add: ns_def)
  qed
qed

end
