(* ===== verification/Checkout.thy ===== *)
theory Checkout
  imports PoolErrors PoolCore MountTable "HOL-Library.Monad_Syntax"
begin

text \<open>
  One session on one worker: \<^verbatim>\<open>internal/pool/checkout.go\<close>, with \<^verbatim>\<open>budget.go\<close>,
  \<^verbatim>\<open>lease.go\<close>, \<^verbatim>\<open>observer_lifecycle.go\<close> and the session half of
  \<^verbatim>\<open>reservation.go\<close>.

  An operation holds \<^verbatim>\<open>c.mu\<close> while it runs, so the operations follow each other; only
  \<^verbatim>\<open>Terminate\<close> and \<^verbatim>\<open>Abandon\<close>, which take no more than the mutex of the lease, can come
  in between. What the operation meets outside is a list \<open>io list\<close>: the outcomes of the calls to the
  worker in their order, and, anywhere between them, terminations by other goroutines. An operation
  uses up a part of the list; \<open>None\<close> means that the list ended first: the operation still waits.
  What it does to the worker, the pool, the metrics and the observer is appended to the log
  \<open>coLog\<close>.
\<close>

section \<open>The session budget\<close>

definition DefaultMaxSuspensions :: u64 where
  "DefaultMaxSuspensions = 1000"

record sessionBudget =
  bDuration :: "duration option"
  bReported :: u64
  bLimit :: u64
  bSeen :: u64

text \<open>
  \<^verbatim>\<open>time.Duration(n) * time.Microsecond\<close>: the conversion keeps the bits and the product wraps
  around.
\<close>

definition microseconds :: "u64 \<Rightarrow> duration" where
  "microseconds n = n * 1000"

definition deadline :: "sessionBudget \<Rightarrow> duration \<Rightarrow> duration \<Rightarrow> bool \<Rightarrow> bool \<Rightarrow> duration \<times> bool" where
  "deadline b requestTimeout grace graceDisabled control =
     (let (d, has) = (if 0 < sint requestTimeout then (requestTimeout, True) else (0, False))
      in case bDuration b of
           Some budget \<Rightarrow>
             if \<not> control \<and> \<not> graceDisabled then
               (let rem = budget - microseconds (bReported b);
                    rem = (if sint rem < 0 then 0 else rem);
                    back = rem + grace
                in if \<not> has \<or> sint back < sint d then (back, True) else (d, has))
             else (d, has)
         | None \<Rightarrow> (d, has))"

definition observe :: "sessionBudget \<Rightarrow> event \<Rightarrow> sessionBudget" where
  "observe b ev =
     (let b = (if bReported b < evTotalExecutionMicros ev
               then b\<lparr>bReported := evTotalExecutionMicros ev\<rparr> else b);
          b = (case (bDuration b, evMaxDurationMicros ev) of
                 (None, Some m) \<Rightarrow> b\<lparr>bDuration := Some (microseconds m)\<rparr>
               | _ \<Rightarrow> b);
          b = (case evMaxSuspensions ev of
                 Some m \<Rightarrow> if m < bLimit b then b\<lparr>bLimit := m\<rparr> else b
               | None \<Rightarrow> b)
      in if IsSuspension ev then b\<lparr>bSeen := bSeen b + 1\<rparr> else b)"

section \<open>State\<close>

datatype pendingKind = PendingNone | PendingCall | PendingLookup | PendingFutures

record pending =
  pdKind :: pendingKind
  pdCallID :: "32 word"
  pdName :: string
  pdOs :: "osCall option"
  pdAllowEager :: bool

definition noPending :: pending where
  "noPending = \<lparr>pdKind = PendingNone, pdCallID = 0, pdName = [], pdOs = None, pdAllowEager = False\<rparr>"

record checkoutLease =
  lsSlot :: "slot option"
  lsCause :: "string option"

record observerLifetime =
  olUsers :: int
  olClosing :: bool
  olClosed :: bool

text \<open>
  The log. \<open>ASend\<close> is a call of the worker's \<^verbatim>\<open>Send\<close>, \<open>AKill\<close> of its \<^verbatim>\<open>Kill\<close>;
  \<open>ARetire\<close>, \<open>ARelease\<close> and \<open>AHandoff\<close> hand the worker over to the pool, the second with the
  number of sessions it has served and with whether the pool recycles it; the last three are the calls
  of the observer.
\<close>

datatype action =
    ASend bytes
  | AKill
  | ARetire nat string bool
  | ARelease nat int bool
  | AHandoff nat
  | APrint byte string
  | AMetrics string
  | AObsSent request nat
  | AObsReceived event nat
  | AObsClosed

record 'r checkout =
  coLease :: checkoutLease
  coKind :: workerKind
  coPending :: pending
  coMounts :: "'r table option"
  coBudget :: sessionBudget
  coInFlight :: bool
  coCancelled :: bool
  coCwdSet :: bool
  coAbortFlight :: bool
  coSent :: bool
  coObs :: "observerLifetime option"
  coMetricsDone :: bool
  coLog :: "action list"

text \<open>The outside. A failed call comes with what \<^verbatim>\<open>ioFailure\<close> asks for afterwards.\<close>

record failure =
  faCtx :: "string option"
  faTurnCtx :: bool
  faErr :: wire_error
  faClosed :: "(int \<times> string) option"

datatype io =
    SendOk
  | SendErr failure
  | RecvOk bytes
  | RecvErr failure
  | WaitOk status
  | WaitTimeout
  | Recycled bool
  | Terminated "string option" string

record params =
  prWire :: protowire
  prIsPrint :: "nat \<Rightarrow> bool"
  prParseText :: "int \<Rightarrow> string"
  prRequestTimeout :: duration
  prDurationLimitGrace :: duration
  prGraceDisabled :: bool
  prMontyVersion :: string
  prProtocolVersion :: "32 word"

type_synonym ('r, 'a) ran = "('a \<times> io list \<times> 'r checkout) option"

definition logged :: "action \<Rightarrow> 'r checkout \<Rightarrow> 'r checkout" where
  "logged a c = c\<lparr>coLog := coLog c @ [a]\<rparr>"

section \<open>Lease and observer\<close>

definition lease_active :: "'r checkout \<Rightarrow> bool" where
  "lease_active c \<longleftrightarrow> lsSlot (coLease c) \<noteq> None"

definition lease_finish :: "'r checkout \<Rightarrow> slot option \<times> 'r checkout" where
  "lease_finish c = (lsSlot (coLease c), c\<lparr>coLease := (coLease c)\<lparr>lsSlot := None\<rparr>\<rparr>)"

definition lease_terminate :: "string option \<Rightarrow> 'r checkout \<Rightarrow> nat option \<times> 'r checkout" where
  "lease_terminate cause c =
     (case lsSlot (coLease c) of
        None \<Rightarrow> (None, c)
      | Some s \<Rightarrow> (Some (sWorker s), c\<lparr>coLease := \<lparr>lsSlot = None, lsCause = cause\<rparr>\<rparr>))"

definition obs_acquire :: "'r checkout \<Rightarrow> bool \<times> 'r checkout" where
  "obs_acquire c =
     (case coObs c of
        None \<Rightarrow> (True, c)
      | Some o' \<Rightarrow>
          if olClosing o' then (False, c)
          else (True, c\<lparr>coObs := Some (o'\<lparr>olUsers := olUsers o' + 1\<rparr>)\<rparr>))"

definition obs_release :: "'r checkout \<Rightarrow> 'r checkout" where
  "obs_release c =
     (case coObs c of
        None \<Rightarrow> c
      | Some o' \<Rightarrow>
          let o' = o'\<lparr>olUsers := olUsers o' - 1\<rparr>
          in if olClosing o' \<and> olUsers o' = 0 \<and> \<not> olClosed o'
             then logged AObsClosed (c\<lparr>coObs := Some (o'\<lparr>olClosed := True\<rparr>)\<rparr>)
             else c\<lparr>coObs := Some o'\<rparr>)"

definition obs_close :: "'r checkout \<Rightarrow> 'r checkout" where
  "obs_close c =
     (case coObs c of
        None \<Rightarrow> c
      | Some o' \<Rightarrow>
          let o' = o'\<lparr>olClosing := True\<rparr>
          in if olUsers o' = 0 \<and> \<not> olClosed o'
             then logged AObsClosed (c\<lparr>coObs := Some (o'\<lparr>olClosed := True\<rparr>)\<rparr>)
             else c\<lparr>coObs := Some o'\<rparr>)"

definition obs_note :: "action \<Rightarrow> 'r checkout \<Rightarrow> 'r checkout" where
  "obs_note a c = (if coObs c = None then c else logged a c)"

definition finishMetrics :: "string \<Rightarrow> 'r checkout \<Rightarrow> 'r checkout" where
  "finishMetrics outcome c =
     (if coMetricsDone c then c else logged (AMetrics outcome) (c\<lparr>coMetricsDone := True\<rparr>))"

section \<open>Ending a session\<close>

definition terminate :: "string option \<Rightarrow> string \<Rightarrow> bool \<Rightarrow> 'r checkout \<Rightarrow> bool \<times> 'r checkout" where
  "terminate cause reason force c =
     (case lease_terminate cause c of
        (None, c) \<Rightarrow> (False, c)
      | (Some w, c) \<Rightarrow>
          let killed = (force \<or> coKind c \<noteq> KindWebSocket);
              c = (if killed then logged AKill c else c);
              c = logged (ARetire w reason killed) c;
              c = finishMetrics reason c
          in (True, obs_close c))"

definition Terminate :: "string option \<Rightarrow> string \<Rightarrow> 'r checkout \<Rightarrow> bool \<times> 'r checkout" where
  "Terminate cause reason c = terminate cause reason True c"

definition Abandon :: "'r checkout \<Rightarrow> 'r checkout" where
  "Abandon c = snd (terminate None ''abandoned'' False c)"

definition discard :: "string \<Rightarrow> 'r checkout \<Rightarrow> 'r checkout" where
  "discard reason c =
     snd (terminate None reason False
       (c\<lparr>coPending := noPending, coMounts := None, coInFlight := False\<rparr>))"

definition ensureReady :: "'r checkout \<Rightarrow> perror option \<times> 'r checkout" where
  "ensureReady c =
     (if coCancelled c then (Some (newError KindCancelled), c\<lparr>coCancelled := False\<rparr>)
      else if \<not> lease_active c then (Some (newError KindFinished), c)
      else if coInFlight c then (Some (newError KindCancelled), discard ''discarded'' c)
      else (None, c))"

section \<open>Calls to the worker\<close>

text \<open>The next outcome of a call; terminations by other goroutines come before it.\<close>

fun await :: "io list \<Rightarrow> 'r checkout \<Rightarrow> ('r, io) ran" where
  "await [] c = None"
| "await (Terminated cause reason # es) c = await es (snd (Terminate cause reason c))"
| "await (e # es) c = Some (e, es, c)"

text \<open>Terminations that come before the next step of an operation.\<close>

fun interrupted :: "io list \<Rightarrow> 'r checkout \<Rightarrow> io list \<times> 'r checkout" where
  "interrupted (Terminated cause reason # es) c = interrupted es (snd (Terminate cause reason c))"
| "interrupted es c = (es, c)"

definition send :: "request \<Rightarrow> bytes \<Rightarrow> io list \<Rightarrow> 'r checkout \<Rightarrow> ('r, failure option) ran" where
  "send req msg es c =
     (case await es (logged (ASend msg) c) of
        Some (SendOk, es, c) \<Rightarrow> Some (None, es, obs_note (AObsSent req (length msg)) c)
      | Some (SendErr f, es, c) \<Rightarrow> Some (Some f, es, c)
      | _ \<Rightarrow> None)"

definition wait_worker :: "io list \<Rightarrow> 'r checkout \<Rightarrow> ('r, status option) ran" where
  "wait_worker es c =
     (case await es c of
        Some (WaitOk st, es, c) \<Rightarrow> Some (Some st, es, c)
      | Some (WaitTimeout, es, c) \<Rightarrow> Some (None, es, c)
      | _ \<Rightarrow> None)"

definition reap :: "io list \<Rightarrow> 'r checkout \<Rightarrow> ('r, status) ran" where
  "reap es c =
     (if coKind c = KindWebSocket then Some (zeroStatus, es, c)
      else case wait_worker es c of
        None \<Rightarrow> None
      | Some (Some st, es, c) \<Rightarrow> Some (st, es, c)
      | Some (None, es, c) \<Rightarrow>
          (case wait_worker es (logged AKill c) of
             None \<Rightarrow> None
           | Some (Some st, es, c) \<Rightarrow> Some (st, es, c)
           | Some (None, es, c) \<Rightarrow> Some (zeroStatus, es, c)))"

section \<open>A turn\<close>

definition poisonTimeout :: "duration \<Rightarrow> 'r checkout \<Rightarrow> perror \<times> 'r checkout" where
  "poisonTimeout d c =
     ((newError KindTimeout)\<lparr>eTimeout := d, eWorkerLost := True\<rparr>, discard ''turn_timeout'' c)"

definition poison :: "string \<Rightarrow> (int \<times> string) option \<Rightarrow> io list \<Rightarrow> 'r checkout \<Rightarrow> ('r, perror) ran" where
  "poison doing closedErr es c =
     (if coKind c = KindWebSocket then
        (let perr = (newError KindDisconnected)\<lparr>eMessage := doing, eWorkerLost := True\<rparr>
         in Some (case closedErr of
                    Some (code, reason) \<Rightarrow> perr\<lparr>eCloseCode := code, eCloseReason := reason\<rparr>
                  | None \<Rightarrow> perr,
                  es, discard ''disconnected'' c))
      else do {
        (st, es, c) \<leftarrow> reap es c;
        if stExited st \<and> stCode st = 65 then
          Some ((newError KindRuntime)
                  \<lparr>eException := Some (NewException ''MemoryError''
                     ''the worker exceeded its memory limit and was terminated''),
                   eWorkerLost := True\<rparr>,
                es, discard ''oom'' c)
        else
          Some ((newError KindCrashed)\<lparr>eMessage := doing, eStatus := st, eWorkerLost := True\<rparr>,
                es, discard ''crash'' c)
      })"

text \<open>
  \<open>hasDeadline\<close>: whether the context of the turn is one of its own. A cancelled context cancels the
  context of the turn too, and the first test has precedence.
\<close>

definition ioFailure ::
    "params \<Rightarrow> failure \<Rightarrow> string \<Rightarrow> duration \<times> bool \<Rightarrow> io list \<Rightarrow> 'r checkout \<Rightarrow> ('r, perror) ran" where
  "ioFailure p f doing dl es c =
     (case dl of (d, hasDeadline) \<Rightarrow>
        if faCtx f \<noteq> None then
          Some ((newError KindCancelled)\<lparr>eCause := faCtx f\<rparr>, es,
                (discard ''abandoned'' c)\<lparr>coCancelled := True\<rparr>)
        else if hasDeadline \<and> faTurnCtx f then
          (case poisonTimeout d c of (e, c) \<Rightarrow> Some (e, es, c))
        else
          (case faErr f of
             FrameTooLarge n m \<Rightarrow>
               Some (protocolError (''invalid payload from worker: ''
                       @ wireError_Error (prIsPrint p) (prParseText p) (faErr f)),
                     es, discard ''discarded'' c)
           | _ \<Rightarrow> poison doing (faClosed f) es c))"

definition dispatch ::
    "params \<Rightarrow> event \<Rightarrow> request \<Rightarrow> io list \<Rightarrow> 'r checkout \<Rightarrow> ('r, perror + event) ran" where
  "dispatch p ev req es c =
     (let cleared = c\<lparr>coPending := noPending, coMounts := None\<rparr>;
          broken = (\<lambda>m c. Some (Inl (protocolError m), es, discard ''discarded'' c))
      in case evKind ev of
           EventFunctionCall \<Rightarrow>
             (case evFunctionCall ev of
                None \<Rightarrow> Some (Inl (newError Panicked), es, c)
              | Some fc \<Rightarrow>
                  Some (Inr ev, es,
                    c\<lparr>coPending := \<lparr>pdKind = PendingCall, pdCallID = fcCallID fc,
                       pdName = fcFunctionName fc, pdOs = None, pdAllowEager = fcAllowEagerAwait fc\<rparr>\<rparr>))
         | EventOsCall \<Rightarrow>
             (case evOsCall ev of
                None \<Rightarrow> Some (Inl (newError Panicked), es, c)
              | Some call \<Rightarrow>
                  if ocOp call = OpUnset then broken ''OsCall event with no call'' c
                  else
                    (case ocPayloadErr call of
                       Some m \<Rightarrow>
                         broken (''invalid OS call payload: invalid open mode '' @ go_quote (prIsPrint p) m) c
                     | None \<Rightarrow>
                         Some (Inr ev, es,
                           c\<lparr>coPending := \<lparr>pdKind = PendingCall, pdCallID = ocCallID call,
                              pdName = opName (ocOp call), pdOs = Some call, pdAllowEager = False\<rparr>\<rparr>)))
         | EventNameLookup \<Rightarrow>
             (case evNameLookup ev of
                None \<Rightarrow> Some (Inl (newError Panicked), es, c)
              | Some nl \<Rightarrow>
                  Some (Inr ev, es,
                    c\<lparr>coPending := noPending\<lparr>pdKind := PendingLookup, pdName := nlName nl\<rparr>\<rparr>))
         | EventResolveFutures \<Rightarrow>
             Some (Inr ev, es, c\<lparr>coPending := noPending\<lparr>pdKind := PendingFutures\<rparr>\<rparr>)
         | EventComplete \<Rightarrow>
             (if \<not> evHasValue ev then broken ''complete event with no value'' cleared
              else Some (Inr ev, es, cleared))
         | EventError \<Rightarrow>
             (let c = (if req = Dump then c else cleared)
              in case evException ev of
                   None \<Rightarrow> broken ''error event with no exception'' c
                 | Some exc \<Rightarrow> Some (Inl ((newError KindRuntime)\<lparr>eException := Some exc\<rparr>), es, c))
         | EventTypingError \<Rightarrow>
             Some (Inl ((newError KindTyping)\<lparr>eDiagnostics := evDiagnostics ev\<rparr>), es, cleared)
         | EventOk \<Rightarrow> Some (Inr ev, es, c)
         | EventDumpResult \<Rightarrow> Some (Inr ev, es, c)
         | EventFatalError \<Rightarrow>
             (case reap es c of
                None \<Rightarrow> None
              | Some (st, es, c) \<Rightarrow>
                  Some (Inl ((newError KindCrashed)\<lparr>eAnnounced := True, eMessage := evFatalMessage ev,
                          eStatus := st, eWorkerLost := True\<rparr>),
                        es, discard ''fatal'' c))
         | EventShutdown \<Rightarrow>
             (if coKind c \<noteq> KindWebSocket then broken ''subprocess worker sent a ShutdownDump'' c
              else Some (Inl ((newError KindShutdown)\<lparr>eDump := evShutdownDump ev,
                           eHasDump := evHasShutdownDump ev, eWorkerLost := True\<rparr>),
                         es, discard ''disconnected'' c))
         | _ \<Rightarrow> broken ''unexpected event'' c)"

text \<open>
  What the loop of \<^verbatim>\<open>turn\<close> does with one frame: it returns, or goes back to \<^verbatim>\<open>Recv\<close>.
  \<open>abortRequest\<close> is what the host sends once the suspension limit is exceeded; the error of its
  encoding is ignored by the code and cannot occur.
\<close>

datatype 'r looped = Return "perror + event" "io list" "'r checkout" | Again "io list" "'r checkout"

definition abortRequest :: "u64 \<Rightarrow> request" where
  "abortRequest limit =
     AbortFeed (Some (NewException ''RuntimeError''
       (''suspension limit '' @ dec (unat limit) @ '' exceeded'')))"

definition returned :: "('r, perror + event) ran \<Rightarrow> 'r looped option" where
  "returned res = map_option (\<lambda>(r, es, c). Return r es c) res"

definition failed :: "('r, perror) ran \<Rightarrow> 'r looped option" where
  "failed res = map_option (\<lambda>(e, es, c). Return (Inl e) es c) res"

definition printed :: "bool \<Rightarrow> printSegment list \<Rightarrow> 'r checkout \<Rightarrow> 'r checkout" where
  "printed printing segs c =
     (if printing then foldl (\<lambda>c seg. logged (APrint (psStream seg) (psText seg)) c) c segs else c)"

definition overLimit ::
    "params \<Rightarrow> request \<Rightarrow> duration \<times> bool \<Rightarrow> event \<Rightarrow> io list \<Rightarrow> 'r checkout \<Rightarrow> 'r looped option" where
  "overLimit p req dl ev es c =
     (if evKind ev = EventOsCall
         \<and> (case evOsCall ev of
              None \<Rightarrow> True
            | Some call \<Rightarrow> ocOp call = OpUnset \<or> ocPayloadErr call \<noteq> None)
      then returned (dispatch p ev req es c)
      else
        let abortReq = abortRequest (bLimit (coBudget c));
            abort = (case EncodeRequest (prWire p) abortReq [] of Inr b \<Rightarrow> b | Inl e \<Rightarrow> [])
        in case send abortReq abort es c of
             None \<Rightarrow> None
           | Some (Some f, es, c) \<Rightarrow> failed (ioFailure p f ''aborting a feed'' dl es c)
           | Some (None, es, c) \<Rightarrow> Some (Again es (c\<lparr>coAbortFlight := True\<rparr>)))"

definition reply ::
    "params \<Rightarrow> request \<Rightarrow> duration \<times> bool \<Rightarrow> bool \<Rightarrow> bytes \<Rightarrow> io list \<Rightarrow> 'r checkout \<Rightarrow> 'r looped option" where
  "reply p req dl printing raw es c =
     (case DecodeEvent (prWire p) raw of
        Inl e \<Rightarrow>
          Some (Return (Inl (protocolError (''invalid payload from worker: ''
            @ wireError_Error (prIsPrint p) (prParseText p) e))) es (discard ''discarded'' c))
      | Inr (ev, ds) \<Rightarrow>
          let c = obs_note (AObsReceived ev (length raw)) c
          in if evKind ev = EventPrint then Some (Again es (printed printing (evPrint ev) c))
             else
               let c = c\<lparr>coBudget := observe (coBudget c) ev\<rparr>
               in if coAbortFlight c then
                    (let c = c\<lparr>coAbortFlight := False\<rparr>
                     in if evKind ev \<noteq> EventError \<and> evKind ev \<noteq> EventFatalError
                           \<and> evKind ev \<noteq> EventShutdown
                        then Some (Return (Inl (protocolError
                               ''worker answered AbortFeed with something other than an Error'')) es
                               (discard ''discarded'' c))
                        else returned (dispatch p ev req es (c\<lparr>coInFlight := False\<rparr>)))
                  else if IsSuspension ev \<and> bLimit (coBudget c) < bSeen (coBudget c) then
                    overLimit p req dl ev es c
                  else returned (dispatch p ev req es (c\<lparr>coInFlight := False\<rparr>)))"

lemma await_shorter: "await es c = Some (e, es', c') \<Longrightarrow> length es' < length es"
proof (induction es arbitrary: c)
  case (Cons x es)
  then show ?case by (cases x) (auto dest: less_SucI)
qed simp

lemma send_shorter: "send req b es c = Some (x, es', c') \<Longrightarrow> length es' < length es"
  by (auto simp: send_def await_shorter split: option.splits io.splits)

lemma reply_Again:
  "reply p req dl printing raw es c = Some (Again es' c') \<Longrightarrow> length es' \<le> length es"
  by (auto simp: reply_def overLimit_def returned_def failed_def Let_def
      split: sum.splits prod.splits if_splits option.splits dest!: send_shorter)

function turnLoop ::
    "params \<Rightarrow> request \<Rightarrow> duration \<times> bool \<Rightarrow> bool \<Rightarrow> io list \<Rightarrow> 'r checkout \<Rightarrow> ('r, perror + event) ran" where
  "turnLoop p req dl printing es c =
     (case await es c of
        Some (RecvOk raw, es, c) \<Rightarrow>
          (case reply p req dl printing raw es c of
             None \<Rightarrow> None
           | Some (Return r es c) \<Rightarrow> Some (r, es, c)
           | Some (Again es c) \<Rightarrow> turnLoop p req dl printing es c)
      | Some (RecvErr f, es, c) \<Rightarrow>
          map_option (\<lambda>(e, es, c). (Inl e, es, c)) (ioFailure p f ''waiting for a reply'' dl es c)
      | _ \<Rightarrow> None)"
  by pat_completeness auto
termination
  by (relation "measure (\<lambda>(p, req, dl, printing, es, c). length es)")
    (auto dest!: await_shorter reply_Again)

declare turnLoop.simps [simp del]

definition turnBody ::
    "params \<Rightarrow> request \<Rightarrow> bool \<Rightarrow> bool \<Rightarrow> io list \<Rightarrow> 'r checkout \<Rightarrow> ('r, perror + event) ran" where
  "turnBody p req control printing es c =
     (if list_ex ExceedsMaxDepth (RequestValues req) then
        Some (Inl (runtimeError ''RuntimeError'' ''Max input depth exceeded''), es, c)
      else
        (case EncodeRequest (prWire p) req [] of
           Inl e \<Rightarrow>
             (if e = NilPointer then Some (Inl (newError Panicked), es, c)
              else
                Some (Inl (runtimeError (if asConversion e then ''TypeError'' else ''RuntimeError'')
                  (wireError_Error (prIsPrint p) (prParseText p) e)), es, c))
         | Inr msg \<Rightarrow>
             if MaxFrameLen < length msg then
               Some (Inl (runtimeError ''RuntimeError''
                 (''request frame of '' @ dec (length msg) @ '' bytes exceeds the maximum of ''
                  @ dec MaxFrameLen @ '' bytes'')), es, c)
             else
               let dl = deadline (coBudget c) (prRequestTimeout p) (prDurationLimitGrace p)
                          (prGraceDisabled p) control
               in (case send req msg es (c\<lparr>coInFlight := True, coSent := False\<rparr>) of
                     None \<Rightarrow> None
                   | Some (Some f, es, c) \<Rightarrow>
                       map_option (\<lambda>(e, es, c). (Inl e, es, c)) (ioFailure p f ''sending a request'' dl es c)
                   | Some (None, es, c) \<Rightarrow> turnLoop p req dl printing es (c\<lparr>coSent := True\<rparr>))))"

definition turn ::
    "params \<Rightarrow> request \<Rightarrow> bool \<Rightarrow> bool \<Rightarrow> io list \<Rightarrow> 'r checkout \<Rightarrow> ('r, perror + event) ran" where
  "turn p req control printing es c =
     (case ensureReady c of
        (Some e, c) \<Rightarrow> Some (Inl e, es, c)
      | (None, c) \<Rightarrow>
          (case interrupted es c of (es, c) \<Rightarrow>
             (case obs_acquire c of
                (False, c) \<Rightarrow> Some (Inl (newError KindFinished), es, c)
              | (True, c) \<Rightarrow>
                  map_option (\<lambda>(r, es, c). (r, es, obs_release c))
                    (turnBody p req control printing es c))))"

section \<open>Operations\<close>

text \<open>
  \<^verbatim>\<open>strings.TrimSpace\<close>: UTF-8 is self-synchronising, so the white space at the end is where the
  loop over the runes from the front finds it.
\<close>

definition TrimSpace :: "string \<Rightarrow> string" where
  "TrimSpace s =
     (let t = trimLeftSpace s;
          n = (case dropWhile (\<lambda>(i, r). IsSpace r) (rev (go_range 0 (bytes_of_string t))) of
                 [] \<Rightarrow> 0
               | (i, r) # _ \<Rightarrow> i + snd (decodeRune (drop i (bytes_of_string t))))
      in take n t)"

text \<open>An operation that starts with \<^verbatim>\<open>ensureReady\<close>.\<close>

definition ready ::
    "('r checkout \<Rightarrow> ('r, perror + 'a) ran) \<Rightarrow> io list \<Rightarrow> 'r checkout \<Rightarrow> ('r, perror + 'a) ran" where
  "ready body es c =
     (case ensureReady c of
        (Some e, c) \<Rightarrow> Some (Inl e, es, c)
      | (None, c) \<Rightarrow> body c)"

definition feedDir :: "params \<Rightarrow> string option \<Rightarrow> string \<Rightarrow> bool \<Rightarrow> perror + string" where
  "feedDir p cwd firstMount cwdSet =
     (case cwd of
        Some dir \<Rightarrow>
          (case ValidateCwd dir of
             Inl e \<Rightarrow> Inl (runtimeError ''ValueError'' (cwd_error_text (prIsPrint p) e))
           | Inr valid \<Rightarrow> Inr valid)
      | None \<Rightarrow>
          Inr (if \<not> cwdSet then (if firstMount \<noteq> [] then firstMount else ''/'') else []))"

definition isTyping :: "perror + 'a \<Rightarrow> bool" where
  "isTyping r = (case r of Inl e \<Rightarrow> eKind e = KindTyping | Inr _ \<Rightarrow> False)"

definition Checkout_Feed ::
    "params \<Rightarrow> string \<Rightarrow> namedValue list \<Rightarrow> 'r table option \<Rightarrow> string \<Rightarrow> string option \<Rightarrow> bool \<Rightarrow> bool
       \<Rightarrow> io list \<Rightarrow> 'r checkout \<Rightarrow> ('r, perror + event) ran" where
  "Checkout_Feed p code inputs mounts firstMount cwd skipTypeCheck printing es c =
     ready (\<lambda>c.
       if pdKind (coPending c) \<noteq> PendingNone then
         Some (Inl (protocolError ''feed called while a suspension is awaiting an answer''), es, c)
       else
         (case feedDir p cwd firstMount (coCwdSet c) of
            Inl e \<Rightarrow> Some (Inl e, es, c)
          | Inr dir \<Rightarrow>
              map_option (\<lambda>(r, es, c).
                  (r, es, if coSent c \<and> \<not> isTyping r then c\<lparr>coCwdSet := True\<rparr> else c))
                (turn p (Feed \<lparr>fdCode = code, fdInputs = inputs, fdSkipTypeCheck = skipTypeCheck,
                   fdCwd = dir\<rparr>) False printing es (c\<lparr>coMounts := mounts\<rparr>)))) es c"

definition Resume ::
    "params \<Rightarrow> extResult \<Rightarrow> bool \<Rightarrow> io list \<Rightarrow> 'r checkout \<Rightarrow> ('r, perror + event) ran" where
  "Resume p result printing es c =
     ready (\<lambda>c.
       let pd = coPending c
       in if pdKind pd \<noteq> PendingCall then
            Some (Inl (protocolError ''no suspended call to resume''), es, c)
          else if erKind result = ExtNotHandled \<and> pdOs pd = None then
            Some (Inl (protocolError ''NotHandled is only valid answering an OS call''), es, c)
          else
            let result =
                  (if erKind result = ExtFuture then result\<lparr>erFutureCallID := pdCallID pd\<rparr>
                   else if erKind result = ExtNotFound then result\<lparr>erNotFoundName := pdName pd\<rparr>
                   else result)
            in turn p (ResumeCall (pdCallID pd) result) False printing es c) es c"

definition Checkout_ResumeNameLookup ::
    "params \<Rightarrow> lookupKind \<Rightarrow> pyval \<Rightarrow> wireException option \<Rightarrow> bool \<Rightarrow> io list \<Rightarrow> 'r checkout
       \<Rightarrow> ('r, perror + event) ran" where
  "Checkout_ResumeNameLookup p k v e printing es c =
     ready (\<lambda>c.
       if pdKind (coPending c) \<noteq> PendingLookup then
         Some (Inl (protocolError ''no suspended name lookup to resume''), es, c)
       else turn p (ResumeNameLookup k v e) False printing es c) es c"

definition futuresRefused :: "pending \<Rightarrow> futureResult list \<Rightarrow> string option" where
  "futuresRefused pd results =
     (let unresolved = filter (\<lambda>r. erKind (frResult r) \<noteq> ExtReturn \<and> erKind (frResult r) \<noteq> ExtError) results;
          kinds = (case unresolved of
                     [] \<Rightarrow> None
                   | r # _ \<Rightarrow> Some (''future '' @ dec (unat (frCallID r)) @ '' must resolve to Return or Error''))
      in if pdKind pd = PendingFutures then kinds
         else if pdKind pd = PendingCall \<and> pdAllowEager pd then
           (if length results \<noteq> 1 \<or> frCallID (hd results) \<noteq> pdCallID pd
            then Some ''eager result must match the suspended call id'' else kinds)
         else Some ''no suspended futures to resume'')"

definition Checkout_ResumeFutures ::
    "params \<Rightarrow> futureResult list \<Rightarrow> bool \<Rightarrow> io list \<Rightarrow> 'r checkout \<Rightarrow> ('r, perror + event) ran" where
  "Checkout_ResumeFutures p results printing es c =
     ready (\<lambda>c.
       case futuresRefused (coPending c) results of
         Some m \<Rightarrow> Some (Inl (protocolError m), es, c)
       | None \<Rightarrow> turn p (ResumeFutures results) False printing es c) es c"

definition Checkout_Dump :: "params \<Rightarrow> io list \<Rightarrow> 'r checkout \<Rightarrow> ('r, perror + bytes) ran" where
  "Checkout_Dump p es c =
     map_option (\<lambda>(r, es, c).
       case r of
         Inl e \<Rightarrow> (Inl e, es, c)
       | Inr ev \<Rightarrow>
           if evKind ev \<noteq> EventDumpResult then
             (Inl (protocolError (''unexpected reply to Dump: '' @ EventKind_String (evKind ev))), es,
              discard ''discarded'' c)
           else (Inr (evState ev), es, c))
     (turn p Dump True False es c)"

definition restored :: "sessionBudget \<Rightarrow> perror \<Rightarrow> 'r checkout \<Rightarrow> 'r checkout" where
  "restored saved e c =
     (if eWorkerLost e then c
      else c\<lparr>coBudget := saved\<lparr>bLimit := min (bLimit (coBudget c)) (bLimit saved)\<rparr>\<rparr>)"

definition Restore ::
    "params \<Rightarrow> bytes \<Rightarrow> 'r table option \<Rightarrow> bool \<Rightarrow> io list \<Rightarrow> 'r checkout
       \<Rightarrow> ('r, perror + event option \<times> string option) ran" where
  "Restore p state mounts printing es c =
     ready (\<lambda>c.
       let saved = coBudget c
       in map_option (\<lambda>(r, es, c).
            case r of
              Inl e \<Rightarrow> (Inl e, es, restored saved e c)
            | Inr ev \<Rightarrow>
                let c = c\<lparr>coCwdSet := True\<rparr>
                in if evKind ev = EventOk then (Inr (None, evRestoredScriptName ev), es, c)
                   else if IsSuspension ev then (Inr (Some ev, evRestoredScriptName ev), es, c)
                   else (Inl (protocolError (''unexpected reply to Load: '' @ EventKind_String (evKind ev))),
                         es, discard ''discarded'' c))
          (turn p (Load state) True printing es
             (c\<lparr>coPending := noPending,
                coBudget := saved\<lparr>bDuration := None, bReported := 0, bSeen := 0\<rparr>,
                coMounts := mounts\<rparr>))) es c"

definition refusedRequirement :: "(nat \<Rightarrow> bool) \<Rightarrow> string \<Rightarrow> string option" where
  "refusedRequirement isPrint r =
     (let trimmed = TrimSpace r
      in if trimmed = [] then
           Some (''invalid requirement '' @ RustDebugString isPrint r @ '': must not be empty'')
         else if prefix ''-'' trimmed then
           Some (''invalid requirement '' @ RustDebugString isPrint r
             @ '': must not start with '' @ [CHR 0x27] @ ''-'' @ [CHR 0x27]
             @ '' (it would be parsed as a uv option)'')
         else None)"

definition Checkout_InstallDependencies ::
    "params \<Rightarrow> string list \<Rightarrow> io list \<Rightarrow> 'r checkout \<Rightarrow> ('r, perror + unit) ran" where
  "Checkout_InstallDependencies p requirements es c =
     ready (\<lambda>c.
       if pdKind (coPending c) \<noteq> PendingNone then
         Some (Inl (protocolError
           ''install_dependencies called while a suspension is awaiting an answer''), es, c)
       else if requirements = [] then Some (Inr (), es, c)
       else
         (case List.map_filter (refusedRequirement (prIsPrint p)) requirements of
            m # _ \<Rightarrow> Some (Inl (runtimeError ''ValueError'' m), es, c)
          | [] \<Rightarrow>
              map_option (\<lambda>(r, es, c).
                case r of
                  Inl e \<Rightarrow> (Inl e, es, c)
                | Inr ev \<Rightarrow>
                    if evKind ev \<noteq> EventOk then
                      (Inl (protocolError (''unexpected reply to InstallDependencies: ''
                         @ EventKind_String (evKind ev))), es, discard ''discarded'' c)
                    else (Inr (), es, c))
              (turn p (InstallDependencies requirements) True False es c))) es c"

text \<open>
  \<^verbatim>\<open>pool.release\<close> as the session sees it: the pool decides whether the worker is recycled, and
  closes the observer unless a local worker, which is still to be shut down, takes it along.
\<close>

definition release_slot :: "slot \<Rightarrow> io list \<Rightarrow> 'r checkout \<Rightarrow> ('r, unit) ran" where
  "release_slot s es c =
     (case await es c of
        Some (Recycled recycle, es, c) \<Rightarrow>
          let c = logged (ARelease (sWorker s) (sServed s) recycle) c
          in Some ((), es, if \<not> recycle \<or> coKind c = KindWebSocket then obs_close c else c)
      | _ \<Rightarrow> None)"

definition finishLease :: "int \<Rightarrow> io list \<Rightarrow> 'r checkout \<Rightarrow> ('r, perror + unit) ran" where
  "finishLease extra es c =
     (case interrupted es c of (es, c) \<Rightarrow>
        (case lease_finish c of
           (None, c) \<Rightarrow> Some (Inr (), es, c)
         | (Some s, c) \<Rightarrow>
             map_option (\<lambda>(u, es, c). (Inr (), es, finishMetrics ''ok'' c))
               (release_slot (s\<lparr>sServed := sServed s + extra\<rparr>) es c)))"

definition Finish :: "params \<Rightarrow> io list \<Rightarrow> 'r checkout \<Rightarrow> ('r, perror + unit) ran" where
  "Finish p es c =
     (if \<not> lease_active c then Some (Inr (), es, finishMetrics ''error'' (c\<lparr>coCancelled := False\<rparr>))
      else if coInFlight c then Some (Inr (), es, discard ''abandoned'' c)
      else if coKind c = KindWebSocket then finishLease 0 es c
      else
        (case turn p Reset True False es c of
           None \<Rightarrow> None
         | Some (Inl e, es, c) \<Rightarrow> Some (Inl e, es, finishMetrics ''error'' (discard ''discarded'' c))
         | Some (Inr ev, es, c) \<Rightarrow>
             if evKind ev \<noteq> EventOk then
               Some (Inl (protocolError (''unexpected reply to Reset: '' @ EventKind_String (evKind ev))),
                     es, finishMetrics ''error'' (discard ''discarded'' c))
             else finishLease 1 es (c\<lparr>coPending := noPending, coMounts := None\<rparr>)))"

definition Abort ::
    "params \<Rightarrow> wireException option \<Rightarrow> bool \<Rightarrow> io list \<Rightarrow> 'r checkout \<Rightarrow> ('r, perror + unit) ran" where
  "Abort p exc printing es c =
     ready (\<lambda>c.
       if pdKind (coPending c) = PendingNone then
         Some (Inl (protocolError ''abort without a pending suspension''), es, c)
       else
         map_option (\<lambda>(r, es, c).
           case r of
             Inl e \<Rightarrow> (Inl e, es, c)
           | Inr ev \<Rightarrow>
               (Inl (protocolError (''unexpected reply to AbortFeed: '' @ EventKind_String (evKind ev))),
                es, discard ''discarded'' c))
         (turn p (AbortFeed exc) False printing es
            (c\<lparr>coPending := noPending, coAbortFlight := True\<rparr>))) es c"

section \<open>Mounts\<close>

text \<open>
  \<^verbatim>\<open>HandlePendingMount\<close> with the table of \<^verbatim>\<open>internal/mountfs\<close>; \<open>fuel\<close>, \<open>H\<close> and \<open>w\<close>
  are the arguments of \<open>HandleOsCall\<close>, whose outer \<open>None\<close> is exhausted fuel.
\<close>

definition zeroResult :: extResult where
  "zeroResult = \<lparr>erKind = 0, erValue = VNone, erError = None, erFutureCallID = 0, erNotFoundName = []\<rparr>"

definition mountResult :: "outcome \<Rightarrow> extResult" where
  "mountResult out =
     (case outException out of
        None \<Rightarrow> zeroResult\<lparr>erKind := ExtReturn, erValue := outValue out\<rparr>
      | Some exc \<Rightarrow> zeroResult\<lparr>erKind := ExtError, erError := Some exc\<rparr>)"

definition HandlePendingMount ::
    "params \<Rightarrow> nat \<Rightarrow> ('w, 'r, 'f) hostfs \<Rightarrow> 'w \<Rightarrow> 'r checkout
       \<Rightarrow> ((perror + extResult option) \<times> 'w \<times> 'r checkout) option" where
  "HandlePendingMount p fuel H w c =
     (case ensureReady c of
        (Some e, c) \<Rightarrow> Some (Inl e, w, c)
      | (None, c) \<Rightarrow>
          if pdKind (coPending c) \<noteq> PendingCall then
            Some (Inl (protocolError ''no suspended call to resume''), w, c)
          else
            (case pdOs (coPending c) of
               None \<Rightarrow>
                 Some (Inl (protocolError ''resume_from_mounts is only valid answering an OS call''), w, c)
             | Some call \<Rightarrow>
                 (case coMounts c of
                    None \<Rightarrow> Some (Inr None, w, c)
                  | Some t \<Rightarrow>
                      map_option (\<lambda>(w, t, out).
                        (Inr (if outHandled out then Some (mountResult out) else None), w,
                         c\<lparr>coMounts := Some t, coInFlight := False\<rparr>))
                      (HandleOsCall (prIsPrint p) fuel H w t call))))"

text \<open>
  \<^verbatim>\<open>ResumeFromMounts\<close>: the result is \<open>None\<close> when the mounts do not handle the call. An answer that
  is rejected before anything was sent is replaced by its error.
\<close>

definition ResumeFromMounts ::
    "params \<Rightarrow> nat \<Rightarrow> ('w, 'r, 'f) hostfs \<Rightarrow> bool \<Rightarrow> 'w \<Rightarrow> io list \<Rightarrow> 'r checkout
       \<Rightarrow> ((perror + event) option \<times> 'w \<times> io list \<times> 'r checkout) option" where
  "ResumeFromMounts p fuel H printing w es c =
     (case HandlePendingMount p fuel H w c of
        None \<Rightarrow> None
      | Some (Inl e, w, c) \<Rightarrow> Some (Some (Inl e), w, es, c)
      | Some (Inr None, w, c) \<Rightarrow> Some (None, w, es, c)
      | Some (Inr (Some res), w, c) \<Rightarrow>
          (case Resume p res printing es c of
             None \<Rightarrow> None
           | Some (r, es, c) \<Rightarrow>
               (case r of
                  Inl e \<Rightarrow>
                    if eKind e = KindRuntime \<and> ePreSend e then
                      map_option (\<lambda>(r, es, c). (Some r, w, es, c))
                        (Resume p (zeroResult\<lparr>erKind := ExtError, erError := eException e\<rparr>) printing es c)
                    else Some (Some r, w, es, c)
                | Inr ev \<Rightarrow> Some (Some r, w, es, c))))"

section \<open>Starting a session\<close>

definition applyLimits :: "configure \<Rightarrow> 'r checkout \<Rightarrow> 'r checkout" where
  "applyLimits cfg c =
     (let b = (coBudget c)\<lparr>bLimit := DefaultMaxSuspensions\<rparr>
      in case cfgLimits cfg of
           None \<Rightarrow> c\<lparr>coBudget := b\<rparr>
         | Some l \<Rightarrow>
             let b = (case lMaxDurationMicros l of
                        Some m \<Rightarrow> b\<lparr>bDuration := Some (microseconds m)\<rparr>
                      | None \<Rightarrow> b);
                 b = (case lMaxSuspensions l of Some m \<Rightarrow> b\<lparr>bLimit := m\<rparr> | None \<Rightarrow> b)
             in c\<lparr>coBudget := b\<rparr>)"

definition newCheckout :: "slot \<Rightarrow> workerKind \<Rightarrow> bool \<Rightarrow> 'r checkout" where
  "newCheckout s kind observed =
     \<lparr>coLease = \<lparr>lsSlot = Some s, lsCause = None\<rparr>, coKind = kind, coPending = noPending, coMounts = None,
      coBudget = \<lparr>bDuration = None, bReported = 0, bLimit = 0, bSeen = 0\<rparr>, coInFlight = False,
      coCancelled = False, coCwdSet = False, coAbortFlight = False, coSent = False,
      coObs = (if observed then Some \<lparr>olUsers = 0, olClosing = False, olClosed = False\<rparr> else None),
      coMetricsDone = False, coLog = []\<rparr>"

definition versioned :: "params \<Rightarrow> configure \<Rightarrow> configure" where
  "versioned p cfg =
     cfg\<lparr>cfgMontyVersion := prMontyVersion p, cfgProtocolVersion := prProtocolVersion p\<rparr>"

text \<open>
  \<^verbatim>\<open>Pool.Checkout\<close> after \<^verbatim>\<open>acquire\<close>: the caller gets the session only with \<open>Inr\<close>; the
  state is there in both cases.
\<close>

definition Checkout_open ::
    "params \<Rightarrow> configure \<Rightarrow> io list \<Rightarrow> 'r checkout \<Rightarrow> ('r, perror + unit) ran" where
  "Checkout_open p cfg es c =
     (let cfg = versioned p cfg
      in case turn p (Configure cfg) True False es (applyLimits cfg c) of
           None \<Rightarrow> None
         | Some (Inl e, es, c) \<Rightarrow> Some (Inl e, es, discard ''discarded'' c)
         | Some (Inr ev, es, c) \<Rightarrow>
             if evKind ev \<noteq> EventOk then
               Some (Inl (protocolError (''unexpected reply to Configure: '' @ EventKind_String (evKind ev))),
                     es, discard ''discarded'' c)
             else Some (Inr (), es, c))"

record carried =
  crBudget :: sessionBudget
  crCwdSet :: bool

definition restoreCarried ::
    "params \<Rightarrow> bytes \<Rightarrow> carried \<Rightarrow> io list \<Rightarrow> 'r checkout \<Rightarrow> ('r, perror + unit) ran" where
  "restoreCarried p state r es c =
     (let limit = bLimit (coBudget c);
          b = crBudget r;
          b = (if limit < bLimit b then b\<lparr>bLimit := limit\<rparr> else b)
      in map_option (\<lambda>(res, es, c).
           case res of
             Inl e \<Rightarrow> (Inl e, es, c)
           | Inr ev \<Rightarrow>
               if evKind ev \<noteq> EventOk then
                 (Inl (protocolError (''unexpected reply to Load: '' @ EventKind_String (evKind ev))), es,
                  discard ''discarded'' c)
               else (Inr (), es, c\<lparr>coCwdSet := crCwdSet r\<rparr>))
         (turn p (Load state) True False es (c\<lparr>coBudget := b\<rparr>)))"

text \<open>\<^verbatim>\<open>Bind\<close> once its worker owns the capacity.\<close>

definition Bind_open ::
    "params \<Rightarrow> configure \<Rightarrow> bytes option \<Rightarrow> carried \<Rightarrow> io list \<Rightarrow> 'r checkout \<Rightarrow> ('r, perror + unit) ran" where
  "Bind_open p cfg state r es c =
     (let cfg = versioned p cfg
      in case turn p (Configure cfg) True False es (applyLimits cfg c) of
           None \<Rightarrow> None
         | Some (Inl e, es, c) \<Rightarrow> Some (Inl e, es, discard ''discarded'' c)
         | Some (Inr ev, es, c) \<Rightarrow>
             if evKind ev \<noteq> EventOk then
               Some (Inl (protocolError (''unexpected reply to Configure: '' @ EventKind_String (evKind ev))),
                     es, discard ''discarded'' c)
             else
               (case state of
                  None \<Rightarrow> Some (Inr (), es, c)
                | Some st \<Rightarrow>
                    (case restoreCarried p st r es c of
                       None \<Rightarrow> None
                     | Some (Inl e, es, c) \<Rightarrow> Some (Inl e, es, discard ''discarded'' c)
                     | Some (Inr u, es, c) \<Rightarrow> Some (Inr (), es, c))))"

definition Handoff_session :: "io list \<Rightarrow> 'r checkout \<Rightarrow> ('r, perror + carried) ran" where
  "Handoff_session es c =
     ready (\<lambda>c.
       if pdKind (coPending c) \<noteq> PendingNone then
         Some (Inl (protocolError ''handoff with a pending suspension''), es, c)
       else if coKind c \<noteq> KindWebSocket then
         Some (Inl (protocolError ''handoff requires a remote worker''), es, c)
       else
         (case interrupted es c of (es, c) \<Rightarrow>
            (case lease_finish c of
               (None, c) \<Rightarrow> Some (Inl (newError KindFinished), es, c)
             | (Some s, c) \<Rightarrow>
                 let r = \<lparr>crBudget = coBudget c, crCwdSet = coCwdSet c\<rparr>;
                     c = c\<lparr>coPending := noPending, coMounts := None\<rparr>;
                     c = logged (AHandoff (sWorker s)) c
                 in Some (Inr r, es, finishMetrics ''ok'' (obs_close c))))) es c"

section \<open>Queries and the observer's holders\<close>

definition Finished :: "'r checkout \<Rightarrow> bool" where
  "Finished c = (\<not> lease_active c)"

definition Pending :: "'r checkout \<Rightarrow> bool" where
  "Pending c = (pdKind (coPending c) \<noteq> PendingNone)"

definition PendingOsCall :: "'r checkout \<Rightarrow> osCall option" where
  "PendingOsCall c = (if pdKind (coPending c) = PendingCall then pdOs (coPending c) else None)"

definition HasMounts :: "'r checkout \<Rightarrow> bool" where
  "HasMounts c = (coMounts c \<noteq> None)"

text \<open>\<open>True\<close>: the caller got a release function that calls \<open>obs_release\<close>; \<open>False\<close>: one that does nothing.\<close>

definition HoldObserver :: "'r checkout \<Rightarrow> bool \<times> 'r checkout" where
  "HoldObserver c = obs_acquire c"

end
