(* ===== verification/CheckoutInv.thy ===== *)
theory CheckoutInv
  imports Checkout
begin

text \<open>
  The ownership of a session's worker: the invariant of the lease, the metrics and the observer, and
  its preservation by every operation, whatever the worker answers and whenever another goroutine
  terminates the session.
\<close>

section \<open>The invariant\<close>

text \<open>
  The worker leaves the session with one of three actions. Once it was released or handed off it may
  serve somebody else, and the session must not touch it any more.
\<close>

fun handover :: "action \<Rightarrow> bool" where
  "handover (ARetire w r k) = True"
| "handover (ARelease w n r) = True"
| "handover (AHandoff w) = True"
| "handover a = False"

fun gone :: "action \<Rightarrow> bool" where
  "gone (ARelease w n r) = True"
| "gone (AHandoff w) = True"
| "gone a = False"

fun is_metrics :: "action \<Rightarrow> bool" where
  "is_metrics (AMetrics m) = True"
| "is_metrics a = False"

definition harmless :: "action \<Rightarrow> bool" where
  "harmless a \<longleftrightarrow> is_metrics a \<or> a = AObsClosed"

fun quiet :: "action list \<Rightarrow> bool" where
  "quiet [] = True"
| "quiet (a # as) \<longleftrightarrow> (gone a \<longrightarrow> list_all harmless as) \<and> quiet as"

definition occurs :: "(action \<Rightarrow> bool) \<Rightarrow> 'r checkout \<Rightarrow> nat" where
  "occurs P c = length (filter P (coLog c))"

definition observer_ok :: "'r checkout \<Rightarrow> bool" where
  "observer_ok c =
     (case coObs c of
        None \<Rightarrow> occurs (\<lambda>a. a = AObsClosed) c = 0
      | Some o' \<Rightarrow>
          0 \<le> olUsers o' \<and> occurs (\<lambda>a. a = AObsClosed) c = of_bool (olClosed o')
          \<and> (olClosed o' \<longleftrightarrow> olClosing o' \<and> olUsers o' = 0)
          \<and> (lease_active c \<longrightarrow> \<not> olClosing o')
          \<and> (lease_active c
             \<or> olClosing o' \<or> coKind c \<noteq> KindWebSocket \<and> (\<exists>w n. ARelease w n True \<in> set (coLog c))))"

definition session_inv :: "'r checkout \<Rightarrow> bool" where
  "session_inv c \<longleftrightarrow>
     occurs handover c = (if lease_active c then 0 else 1)
     \<and> quiet (coLog c)
     \<and> occurs is_metrics c = of_bool (coMetricsDone c) \<and> (lease_active c \<or> coMetricsDone c)
     \<and> observer_ok c"

definition owned :: "'r checkout \<Rightarrow> bool" where
  "owned c \<longleftrightarrow> session_inv c \<and> occurs gone c = 0"

text \<open>What happens inside a turn.\<close>

definition users :: "'r checkout \<Rightarrow> int option" where
  "users c = map_option olUsers (coObs c)"

definition internal :: "'r checkout \<Rightarrow> 'r checkout \<Rightarrow> bool" where
  "internal c d \<longleftrightarrow> (owned c \<longrightarrow> owned d \<and> users d = users c \<and> coKind d = coKind c)"

lemma quiet_snoc: "quiet (as @ [a]) \<longleftrightarrow> quiet as \<and> (harmless a \<or> list_all (\<lambda>b. \<not> gone b) as)"
  by (induction as) auto

lemma occurs_logged [simp]:
  "occurs P (logged a c) = occurs P c + (if P a then 1 else 0)"
  by (simp add: occurs_def logged_def)

lemma occurs_0_iff: "occurs P c = 0 \<longleftrightarrow> list_all (\<lambda>a. \<not> P a) (coLog c)"
  by (simp add: occurs_def filter_empty_conv list_all_iff)

lemma quiet_snoc_log: "quiet (coLog c @ [a]) \<longleftrightarrow> quiet (coLog c) \<and> (harmless a \<or> occurs gone c = 0)"
  by (simp add: quiet_snoc occurs_0_iff)

lemma occurs_updates [simp]:
  "occurs P (c\<lparr>coLease := l\<rparr>) = occurs P c" "occurs P (c\<lparr>coObs := x\<rparr>) = occurs P c"
  "occurs P (c\<lparr>coMetricsDone := y\<rparr>) = occurs P c"
  by (simp_all add: occurs_def)

lemma logged_simps [simp]:
  "coLease (logged a c) = coLease c" "coKind (logged a c) = coKind c" "coObs (logged a c) = coObs c"
  "coMetricsDone (logged a c) = coMetricsDone c" "lease_active (logged a c) = lease_active c"
  "coLog (logged a c) = coLog c @ [a]" "coPending (logged a c) = coPending c"
  "coInFlight (logged a c) = coInFlight c" "coBudget (logged a c) = coBudget c"
  "coMounts (logged a c) = coMounts c" "coCancelled (logged a c) = coCancelled c"
  "coCwdSet (logged a c) = coCwdSet c" "coAbortFlight (logged a c) = coAbortFlight c"
  "coSent (logged a c) = coSent c"
  by (simp_all add: logged_def lease_active_def)

text \<open>The fields that ownership does not depend on.\<close>

lemma session_inv_cong:
  assumes "coLease d = coLease c" "coKind d = coKind c" "coObs d = coObs c"
    "coMetricsDone d = coMetricsDone c" "coLog d = coLog c"
  shows "session_inv d = session_inv c \<and> owned d = owned c"
  unfolding owned_def session_inv_def observer_ok_def occurs_def lease_active_def assms by simp

lemma session_inv_updates [simp]:
  "session_inv (c\<lparr>coPending := pd\<rparr>) = session_inv c" "session_inv (c\<lparr>coMounts := t\<rparr>) = session_inv c"
  "session_inv (c\<lparr>coBudget := b\<rparr>) = session_inv c" "session_inv (c\<lparr>coInFlight := x\<rparr>) = session_inv c"
  "session_inv (c\<lparr>coCancelled := x\<rparr>) = session_inv c" "session_inv (c\<lparr>coCwdSet := x\<rparr>) = session_inv c"
  "session_inv (c\<lparr>coAbortFlight := x\<rparr>) = session_inv c" "session_inv (c\<lparr>coSent := x\<rparr>) = session_inv c"
  by (rule session_inv_cong [THEN conjunct1]; simp)+

lemma owned_updates [simp]:
  "owned (c\<lparr>coPending := pd\<rparr>) = owned c" "owned (c\<lparr>coMounts := t\<rparr>) = owned c"
  "owned (c\<lparr>coBudget := b\<rparr>) = owned c" "owned (c\<lparr>coInFlight := x\<rparr>) = owned c"
  "owned (c\<lparr>coCancelled := x\<rparr>) = owned c" "owned (c\<lparr>coCwdSet := x\<rparr>) = owned c"
  "owned (c\<lparr>coAbortFlight := x\<rparr>) = owned c" "owned (c\<lparr>coSent := x\<rparr>) = owned c"
  by (rule session_inv_cong [THEN conjunct2]; simp)+

lemma internal_updates [simp]:
  "internal c (d\<lparr>coPending := pd\<rparr>) = internal c d" "internal c (d\<lparr>coMounts := t\<rparr>) = internal c d"
  "internal c (d\<lparr>coBudget := b\<rparr>) = internal c d" "internal c (d\<lparr>coInFlight := x\<rparr>) = internal c d"
  "internal c (d\<lparr>coCancelled := x\<rparr>) = internal c d" "internal c (d\<lparr>coCwdSet := x\<rparr>) = internal c d"
  "internal c (d\<lparr>coAbortFlight := x\<rparr>) = internal c d" "internal c (d\<lparr>coSent := x\<rparr>) = internal c d"
  by (simp_all add: internal_def users_def)

lemma internal_from [simp]:
  "internal (c\<lparr>coPending := pd\<rparr>) d = internal c d" "internal (c\<lparr>coMounts := t\<rparr>) d = internal c d"
  "internal (c\<lparr>coBudget := b\<rparr>) d = internal c d" "internal (c\<lparr>coInFlight := x\<rparr>) d = internal c d"
  "internal (c\<lparr>coAbortFlight := x\<rparr>) d = internal c d" "internal (c\<lparr>coSent := x\<rparr>) d = internal c d"
  by (simp_all add: internal_def users_def)

lemma internal_refl [simp]: "internal c c"
  by (simp add: internal_def)

lemma internal_trans: "internal c d \<Longrightarrow> internal d e \<Longrightarrow> internal c e"
  by (simp add: internal_def)

section \<open>Inside a turn\<close>

lemma internal_logged:
  "\<not> handover a \<Longrightarrow> \<not> gone a \<Longrightarrow> \<not> harmless a \<Longrightarrow> internal c (logged a c)"
  by (auto simp: internal_def owned_def session_inv_def observer_ok_def users_def quiet_snoc
      occurs_0_iff harmless_def split: option.splits)

lemma users_simps [simp]:
  "users (logged a c) = users c" "users (finishMetrics m c) = users c" "users (c\<lparr>coLease := l\<rparr>) = users c"
  by (simp_all add: users_def finishMetrics_def)

lemma internal_note: "\<not> handover a \<Longrightarrow> \<not> gone a \<Longrightarrow> \<not> harmless a \<Longrightarrow> internal c (obs_note a c)"
  by (simp add: obs_note_def internal_logged)

lemma finishMetrics_simps [simp]:
  "coLease (finishMetrics m c) = coLease c" "coKind (finishMetrics m c) = coKind c"
  "coObs (finishMetrics m c) = coObs c" "coMetricsDone (finishMetrics m c)"
  "lease_active (finishMetrics m c) = lease_active c"
  by (simp_all add: finishMetrics_def lease_active_def)

lemma finishMetrics_occurs:
  "(\<And>m. \<not> P (AMetrics m)) \<Longrightarrow> occurs P (finishMetrics m c) = occurs P c"
  "occurs is_metrics c = of_bool (coMetricsDone c) \<Longrightarrow> occurs is_metrics (finishMetrics m c) = 1"
  "quiet (coLog (finishMetrics m c)) = quiet (coLog c)"
  "ARelease w n True \<in> set (coLog (finishMetrics m c)) \<longleftrightarrow> ARelease w n True \<in> set (coLog c)"
  by (auto simp: finishMetrics_def occurs_def quiet_snoc harmless_def)

lemma obs_close_simps [simp]:
  "coLease (obs_close c) = coLease c" "coKind (obs_close c) = coKind c"
  "coMetricsDone (obs_close c) = coMetricsDone c" "lease_active (obs_close c) = lease_active c"
  "users (obs_close c) = users c"
  by (auto simp: obs_close_def Let_def lease_active_def users_def split: option.splits)

lemma obs_close_occurs:
  "\<not> P AObsClosed \<Longrightarrow> occurs P (obs_close c) = occurs P c"
  "quiet (coLog (obs_close c)) = quiet (coLog c)"
  by (auto simp: obs_close_def Let_def occurs_def quiet_snoc harmless_def split: option.splits)

text \<open>Closing the observer, whether or not the lease is still there.\<close>

definition observer_open :: "'r checkout \<Rightarrow> bool" where
  "observer_open c =
     (case coObs c of
        None \<Rightarrow> occurs (\<lambda>a. a = AObsClosed) c = 0
      | Some o' \<Rightarrow>
          0 \<le> olUsers o' \<and> occurs (\<lambda>a. a = AObsClosed) c = of_bool (olClosed o')
          \<and> (olClosed o' \<longleftrightarrow> olClosing o' \<and> olUsers o' = 0))"

lemma observer_ok_open: "observer_ok c \<Longrightarrow> observer_open c"
  by (auto simp: observer_ok_def observer_open_def split: option.splits)

lemma obs_close_ok: "observer_open c \<Longrightarrow> \<not> lease_active c \<Longrightarrow> observer_ok (obs_close c)"
  by (auto simp: observer_open_def observer_ok_def obs_close_def Let_def lease_active_def
      split: option.splits)

lemma observer_open_logged [simp]: "a \<noteq> AObsClosed \<Longrightarrow> observer_open (logged a c) = observer_open c"
  by (cases "coObs c") (simp_all add: observer_open_def)

lemma observer_open_metrics [simp]: "observer_open (finishMetrics m c) = observer_open c"
  by (cases "coObs c") (simp_all add: observer_open_def finishMetrics_occurs)

lemma observer_open_lease [simp]: "observer_open (c\<lparr>coLease := l\<rparr>) = observer_open c"
  by (cases "coObs c") (simp_all add: observer_open_def)

lemma gone_handover: "occurs handover c = 0 \<Longrightarrow> occurs gone c = 0"
proof -
  have "gone a \<Longrightarrow> handover a" for a by (cases a) simp_all
  then show "occurs handover c = 0 \<Longrightarrow> occurs gone c = 0"
    by (auto simp: occurs_0_iff list_all_iff)
qed

lemma active_owned: "session_inv c \<Longrightarrow> lease_active c \<Longrightarrow> owned c"
  by (simp add: owned_def session_inv_def gone_handover)

text \<open>The end of a session: the lease is taken, the worker handed over, the observer closed.\<close>

lemma terminate_cases:
  obtains "\<not> lease_active c" "terminate cause reason force c = (False, c)"
  | s d k where "lsSlot (coLease c) = Some s" "lease_active c"
      "d = (if k then logged AKill else id) (c\<lparr>coLease := \<lparr>lsSlot = None, lsCause = cause\<rparr>\<rparr>)"
      "terminate cause reason force c
        = (True, obs_close (finishMetrics reason (logged (ARetire (sWorker s) reason k) d)))"
proof (cases "lsSlot (coLease c)")
  case None
  then show ?thesis using that(1) by (simp add: terminate_def lease_terminate_def lease_active_def)
next
  case (Some s)
  show ?thesis
    by (rule that(2) [of s _ "force \<or> coKind c \<noteq> KindWebSocket", OF Some _ refl])
      (simp_all add: Some terminate_def lease_terminate_def lease_active_def Let_def)
qed

lemma terminate_inv:
  assumes "session_inv c"
  shows "session_inv (snd (terminate cause reason force c))"
    and "users (snd (terminate cause reason force c)) = users c"
    and "coKind (snd (terminate cause reason force c)) = coKind c"
    and "occurs gone (snd (terminate cause reason force c)) = occurs gone c"
    and "\<not> lease_active (snd (terminate cause reason force c))"
proof -
  note obs_close_occurs [simp] finishMetrics_occurs [simp]
  have "session_inv (snd (terminate cause reason force c))
    \<and> users (snd (terminate cause reason force c)) = users c
    \<and> coKind (snd (terminate cause reason force c)) = coKind c
    \<and> occurs gone (snd (terminate cause reason force c)) = occurs gone c
    \<and> \<not> lease_active (snd (terminate cause reason force c))"
  proof (cases rule: terminate_cases [of c cause reason force])
    case 1
    with assms show ?thesis by simp
  next
    case (2 s d k)
    have "occurs gone c = 0" "quiet (coLog c)" "observer_open c"
      "occurs is_metrics c = of_bool (coMetricsDone c)" "occurs handover c = 0"
      using assms 2(2) active_owned [of c] by (auto simp: owned_def session_inv_def observer_ok_open)
    moreover from this have "observer_open d" "quiet (coLog d)" "occurs gone d = 0"
      "occurs is_metrics d = of_bool (coMetricsDone d)" "occurs handover d = 0"
      "\<not> lease_active d" "coKind d = coKind c" "users d = users c"
      using 2(3) by (cases k; simp add: quiet_snoc_log lease_active_def)+
    ultimately show ?thesis
      unfolding 2(4) by (simp add: session_inv_def obs_close_ok quiet_snoc_log)
  qed
  then show "session_inv (snd (terminate cause reason force c))"
    and "users (snd (terminate cause reason force c)) = users c"
    and "coKind (snd (terminate cause reason force c)) = coKind c"
    and "occurs gone (snd (terminate cause reason force c)) = occurs gone c"
    and "\<not> lease_active (snd (terminate cause reason force c))"
    by simp_all
qed

lemma internal_terminate: "internal c (snd (terminate cause reason force c))"
  by (simp add: internal_def owned_def terminate_inv)

lemma internal_discard: "internal c (discard reason c)"
  using internal_terminate [of "c\<lparr>coPending := noPending, coMounts := None, coInFlight := False\<rparr>" None reason False]
  by (simp add: discard_def)

lemma discard_inactive: "session_inv c \<Longrightarrow> \<not> lease_active (discard reason c)"
  by (simp add: discard_def terminate_inv(5))

lemma internal_discard_cleared:
  "internal c (discard reason (c\<lparr>coPending := noPending, coMounts := None\<rparr>))"
  using internal_discard [of "c\<lparr>coPending := noPending, coMounts := None\<rparr>" reason] by simp

lemma internal_logged_trans:
  "internal (logged a c) d \<Longrightarrow> \<not> handover a \<Longrightarrow> \<not> gone a \<Longrightarrow> \<not> harmless a \<Longrightarrow> internal c d"
  by (rule internal_trans [OF internal_logged])

lemmas internal_then_discard = internal_trans [OF _ internal_discard]

lemma internal_await: "await es c = Some (e, es', d) \<Longrightarrow> internal c d"
proof (induction es arbitrary: c)
  case (Cons x es)
  show ?case
  proof (cases x)
    case (Terminated cause reason)
    with Cons show ?thesis
      using internal_trans [OF internal_terminate [of c cause reason True]] by (auto simp: Terminate_def)
  qed (use Cons.prems in auto)
qed simp

lemma internal_send: "send req msg es c = Some (x, es', d) \<Longrightarrow> internal c d"
proof -
  assume "send req msg es c = Some (x, es', d)"
  then obtain e d' where "await es (logged (ASend msg) c) = Some (e, es', d')"
    and d: "d = d' \<or> d = obs_note (AObsSent req (length msg)) d'"
    by (auto simp: send_def split: option.splits io.splits)
  then have "internal c d'"
    by (intro internal_logged_trans [OF internal_await]) (auto simp: harmless_def)
  moreover have "internal d' d" using d by (auto intro: internal_note simp: harmless_def)
  ultimately show ?thesis by (rule internal_trans)
qed

lemma internal_wait: "wait_worker es c = Some (x, es', d) \<Longrightarrow> internal c d"
  by (auto simp: wait_worker_def internal_await split: option.splits io.splits)

lemma internal_kill_wait: "wait_worker es (logged AKill c) = Some (x, es', d) \<Longrightarrow> internal c d"
  by (erule internal_logged_trans [OF internal_wait]) (simp_all add: harmless_def)

lemma internal_reap: "reap es c = Some (st, es', d) \<Longrightarrow> internal c d"
  by (auto simp: reap_def internal_wait split: if_splits option.splits dest!: internal_kill_wait,
      (erule internal_trans [OF internal_wait], assumption)+)

lemma internal_poison: "poison doing closedErr es c = Some (e, es', d) \<Longrightarrow> internal c d"
  by (auto simp: poison_def Let_def internal_discard split: if_splits bind_splits
      intro: internal_then_discard [OF internal_reap])

lemma internal_ioFailure: "ioFailure p f doing dl es c = Some (e, es', d) \<Longrightarrow> internal c d"
  by (auto simp: ioFailure_def poisonTimeout_def internal_discard internal_poison
      split: if_splits wire_error.splits prod.splits)

lemma internal_dispatch: "dispatch p ev req es c = Some (r, es', d) \<Longrightarrow> internal c d"
  by (auto simp: dispatch_def Let_def internal_discard internal_discard_cleared
      split: eventKind.splits if_splits option.splits intro: internal_then_discard [OF internal_reap])

lemma internal_printed: "internal c (printed printing segs c)"
proof (cases printing)
  case True
  have "internal c (foldl (\<lambda>c seg. logged (APrint (psStream seg) (psText seg)) c) c segs)"
  proof (induction segs arbitrary: c)
    case (Cons seg segs)
    show ?case by (simp, rule internal_logged_trans [OF Cons]) (simp_all add: harmless_def)
  qed simp
  with True show ?thesis by (simp add: printed_def)
qed (simp add: printed_def)

fun looped_state :: "'r looped \<Rightarrow> 'r checkout" where
  "looped_state (Return r es c) = c"
| "looped_state (Again es c) = c"

lemma internal_overLimit: "overLimit p req dl ev es c = Some l \<Longrightarrow> internal c (looped_state l)"
  by (auto simp: overLimit_def Let_def returned_def failed_def split: if_splits option.splits
      dest!: internal_dispatch internal_send internal_ioFailure, (erule (1) internal_trans)+)

lemma internal_reply:
  assumes "reply p req dl printing raw es c = Some l"
  shows "internal c (looped_state l)"
proof (cases "DecodeEvent (prWire p) raw")
  case (Inl e)
  with assms show ?thesis by (auto simp: reply_def internal_discard)
next
  case (Inr x)
  obtain ev ds where x: "x = (ev, ds)" by (cases x)
  define d where "d = obs_note (AObsReceived ev (length raw)) c"
  have d: "internal c d" unfolding d_def by (rule internal_note) (simp_all add: harmless_def)
  have dis: "internal d (discard reason (d\<lparr>coBudget := b, coAbortFlight := a\<rparr>))" for b a reason
    using internal_discard [of "d\<lparr>coBudget := b, coAbortFlight := a\<rparr>" reason] by simp
  from assms have "internal d (looped_state l)"
    unfolding reply_def Inr x Let_def sum.case prod.case d_def [symmetric]
    by (auto simp: returned_def internal_printed dis split: if_splits
        dest!: internal_dispatch internal_overLimit)
  with d show ?thesis by (rule internal_trans)
qed

lemma internal_turnLoop: "turnLoop p req dl printing es c = Some (r, es', d) \<Longrightarrow> internal c d"
proof (induction "length es" arbitrary: es c rule: less_induct)
  case less
  obtain e es1 c1 where await: "await es c = Some (e, es1, c1)"
    using less.prems by (auto simp: turnLoop.simps [of p req dl printing es c] split: option.splits)
  note c1 = internal_await [OF this]
  have "internal c1 d"
  proof (cases e)
    case (RecvOk raw)
    obtain l where l: "reply p req dl printing raw es1 c1 = Some l"
      using less.prems await RecvOk
      by (auto simp: turnLoop.simps [of p req dl printing es c] split: option.splits)
    note c2 = internal_reply [OF this]
    show ?thesis
    proof (cases l)
      case (Return r2 es2 c2)
      with less.prems await RecvOk l c2 show ?thesis
        using internal_reply [OF l] by (auto simp: turnLoop.simps [of p req dl printing es c])
    next
      case (Again es2 c2)
      with less.prems await RecvOk l have "turnLoop p req dl printing es2 c2 = Some (r, es', d)"
        by (auto simp: turnLoop.simps [of p req dl printing es c])
      moreover have "length es2 < length es"
        using reply_Again [of p req dl printing raw es1 c1] l Again await_shorter [OF await] by auto
      ultimately have "internal c2 d" using less.hyps by blast
      with internal_reply [OF l] Again show ?thesis by (auto intro: internal_trans)
    qed
  qed (use less.prems await in \<open>auto simp: turnLoop.simps [of p req dl printing es c] internal_ioFailure\<close>)
  with c1 show ?case by (rule internal_trans)
qed

lemma internal_turnBody: "turnBody p req control printing es c = Some (r, es', d) \<Longrightarrow> internal c d"
  by (auto simp: turnBody_def Let_def split: if_splits sum.splits option.splits
      dest!: internal_send internal_ioFailure internal_turnLoop, (erule (1) internal_trans)+)

section \<open>The operations\<close>

definition preserves :: "'r checkout \<Rightarrow> 'r checkout \<Rightarrow> bool" where
  "preserves c d \<longleftrightarrow> (session_inv c \<longrightarrow> session_inv d \<and> users d = users c \<and> coKind d = coKind c)"

lemma preserves_refl [simp]: "preserves c c"
  by (simp add: preserves_def)

lemma preserves_trans: "preserves c d \<Longrightarrow> preserves d e \<Longrightarrow> preserves c e"
  by (simp add: preserves_def)

lemma users_updates [simp]:
  "users (c\<lparr>coPending := pd\<rparr>) = users c" "users (c\<lparr>coMounts := t\<rparr>) = users c"
  "users (c\<lparr>coBudget := b\<rparr>) = users c" "users (c\<lparr>coInFlight := x\<rparr>) = users c"
  "users (c\<lparr>coCancelled := x\<rparr>) = users c" "users (c\<lparr>coCwdSet := x\<rparr>) = users c"
  "users (c\<lparr>coAbortFlight := x\<rparr>) = users c" "users (c\<lparr>coSent := x\<rparr>) = users c"
  by (simp_all add: users_def)

lemma preserves_updates [simp]:
  "preserves c (d\<lparr>coPending := pd\<rparr>) = preserves c d" "preserves c (d\<lparr>coMounts := t\<rparr>) = preserves c d"
  "preserves c (d\<lparr>coBudget := b\<rparr>) = preserves c d" "preserves c (d\<lparr>coInFlight := x\<rparr>) = preserves c d"
  "preserves c (d\<lparr>coCancelled := x\<rparr>) = preserves c d" "preserves c (d\<lparr>coCwdSet := x\<rparr>) = preserves c d"
  by (simp_all add: preserves_def)

lemma preserves_from [simp]:
  "preserves (c\<lparr>coPending := pd\<rparr>) d = preserves c d" "preserves (c\<lparr>coMounts := t\<rparr>) d = preserves c d"
  "preserves (c\<lparr>coBudget := b\<rparr>) d = preserves c d" "preserves (c\<lparr>coAbortFlight := x\<rparr>) d = preserves c d"
  by (simp_all add: preserves_def)

lemma preserves_terminate: "preserves c (snd (terminate cause reason force c))"
  by (simp add: preserves_def terminate_inv)

lemma preserves_discard: "preserves c (discard reason c)"
  by (simp add: preserves_def discard_def terminate_inv)

lemmas preserves_then_discard = preserves_trans [OF _ preserves_discard]

lemma preserves_interrupted: "interrupted es c = (es', d) \<Longrightarrow> preserves c d"
proof (induction es c rule: interrupted.induct)
  case (1 cause reason es c)
  then have "preserves (snd (Terminate cause reason c)) d" by simp
  moreover have "preserves c (snd (Terminate cause reason c))"
    by (simp add: Terminate_def preserves_terminate)
  ultimately show ?case using preserves_trans by blast
qed simp_all

lemma internal_interrupted: "interrupted es c = (es', d) \<Longrightarrow> internal c d"
proof (induction es c rule: interrupted.induct)
  case (1 cause reason es c)
  then have "internal (snd (Terminate cause reason c)) d" by simp
  moreover have "internal c (snd (Terminate cause reason c))"
    by (simp add: Terminate_def internal_terminate)
  ultimately show ?case using internal_trans by blast
qed simp_all

lemma ensureReady_cases:
  obtains "ensureReady c = (None, c)" "lease_active c" "\<not> coInFlight c" "\<not> coCancelled c"
  | e d where "ensureReady c = (Some e, d)" "preserves c d" "eKind e \<in> {KindCancelled, KindFinished}"
      "\<not> ePreSend e"
  by (cases "coCancelled c"; cases "lease_active c"; cases "coInFlight c")
    (auto simp: ensureReady_def preserves_discard newError_def)

lemma obs_turn:
  assumes "owned c" "obs_acquire c = (True, d)" "internal d e"
  shows "owned (obs_release e) \<and> users (obs_release e) = users c \<and> coKind (obs_release e) = coKind c"
proof (cases "coObs c")
  case None
  with assms show ?thesis
    by (auto simp: obs_acquire_def internal_def obs_release_def users_def split: option.splits)
next
  case (Some o1)
  then have d: "d = c\<lparr>coObs := Some (o1\<lparr>olUsers := olUsers o1 + 1\<rparr>)\<rparr>" and "\<not> olClosing o1"
    using assms(2) by (auto simp: obs_acquire_def split: if_splits)
  then have "owned d"
    using assms(1) Some by (auto simp: owned_def session_inv_def observer_ok_def lease_active_def)
  with assms(3) have e: "owned e" "users e = users d" "coKind e = coKind d" by (auto simp: internal_def)
  then obtain o2 where o2: "coObs e = Some o2" "olUsers o2 = olUsers o1 + 1"
    by (auto simp: users_def d)
  have "0 \<le> olUsers o1"
    using assms(1) Some by (simp add: owned_def session_inv_def observer_ok_def)
  with e o2 show ?thesis
    by (auto simp: owned_def session_inv_def observer_ok_def obs_release_def Let_def users_def d Some
        lease_active_def quiet_snoc_log harmless_def)
qed

lemma obs_acquire_cases:
  obtains "obs_acquire c = (False, c)" "\<exists>o'. coObs c = Some o' \<and> olClosing o'"
  | d where "obs_acquire c = (True, d)"
  by (cases "obs_acquire c") (auto simp: obs_acquire_def split: option.splits if_splits)

text \<open>A turn is refused, or its body runs between \<open>obs_acquire\<close> and \<open>obs_release\<close>.\<close>

lemma turn_cases:
  assumes "turn p req control printing es c = Some (r, es', d)"
  obtains e where "ensureReady c = (Some e, d)" "r = Inl e" "es' = es"
  | c1 where "ensureReady c = (None, c)" "interrupted es c = (es', c1)" "r = Inl (newError KindFinished)"
      "d = c1" "\<exists>o'. coObs c1 = Some o' \<and> olClosing o'"
  | es1 c1 c2 d1 where "ensureReady c = (None, c)" "interrupted es c = (es1, c1)"
      "obs_acquire c1 = (True, c2)" "turnBody p req control printing es1 c2 = Some (r, es', d1)"
      "d = obs_release d1"
proof (cases rule: ensureReady_cases [of c])
  case 1
  obtain es1 c1 where int: "interrupted es c = (es1, c1)" by (cases "interrupted es c")
  show ?thesis
  proof (cases rule: obs_acquire_cases [of c1])
    case 1
    with assms \<open>ensureReady c = (None, c)\<close> int show ?thesis by (intro that(2) [of c1]) (simp_all add: turn_def)
  next
    case (2 c2)
    with assms 1 int obtain d1 where "turnBody p req control printing es1 c2 = Some (r, es', d1)"
      and "d = obs_release d1" by (auto simp: turn_def)
    with 1 int 2 show ?thesis by (intro that(3) [of es1 c1 c2 d1]) simp_all
  qed
next
  case (2 e d2)
  then show ?thesis using assms by (intro that(1) [of e]) (simp_all add: turn_def)
qed

lemma preserves_turn:
  assumes "turn p req control printing es c = Some (r, es', d)"
  shows "preserves c d"
proof (cases rule: turn_cases [OF assms])
  case (1 e)
  then show ?thesis by (cases rule: ensureReady_cases [of c]) auto
next
  case (2 c1)
  then show ?thesis using preserves_interrupted by blast
next
  case (3 es1 c1 c2 d1)
  have "lease_active c" using 3(1) by (cases rule: ensureReady_cases [of c]) auto
  then have "internal c c1 \<and> (session_inv c \<longrightarrow> owned c1)"
    using internal_interrupted [OF 3(2)] active_owned [of c] by (simp add: internal_def)
  with obs_turn [OF _ 3(3) internal_turnBody [OF 3(4)]] 3(5) active_owned [of c] \<open>lease_active c\<close>
  show ?thesis by (auto simp: preserves_def owned_def internal_def)
qed

lemma preserves_ready:
  assumes "ready body es c = Some (r, es', d)" and "\<And>r es' d. body c = Some (r, es', d) \<Longrightarrow> preserves c d"
  shows "preserves c d"
  using assms by (cases rule: ensureReady_cases [of c]) (auto simp: ready_def)

lemma preserves_map:
  assumes "map_option k (turn p req control printing es c) = Some x"
    and "\<And>r es' d. preserves c d \<Longrightarrow> k (r, es', d) = x \<Longrightarrow> P"
  shows P
  using assms preserves_turn by fastforce

lemma preserves_Feed:
  "Checkout_Feed p code inputs mounts firstMount cwd skip printing es c = Some (r, es', d) \<Longrightarrow> preserves c d"
  unfolding Checkout_Feed_def
  by (erule preserves_ready) (auto split: if_splits sum.splits dest!: preserves_turn)

lemma preserves_Resume: "Resume p result printing es c = Some (r, es', d) \<Longrightarrow> preserves c d"
  unfolding Resume_def Let_def
  by (erule preserves_ready) (auto split: if_splits dest!: preserves_turn)

lemma preserves_ResumeNameLookup:
  "Checkout_ResumeNameLookup p k v e printing es c = Some (r, es', d) \<Longrightarrow> preserves c d"
  unfolding Checkout_ResumeNameLookup_def
  by (erule preserves_ready) (auto split: if_splits dest!: preserves_turn)

lemma preserves_ResumeFutures:
  "Checkout_ResumeFutures p results printing es c = Some (r, es', d) \<Longrightarrow> preserves c d"
  unfolding Checkout_ResumeFutures_def
  by (erule preserves_ready) (auto split: option.splits dest!: preserves_turn)

lemma preserves_Dump: "Checkout_Dump p es c = Some (r, es', d) \<Longrightarrow> preserves c d"
  unfolding Checkout_Dump_def
  by (erule preserves_map) (auto split: sum.splits if_splits elim: preserves_then_discard)

lemma preserves_cwd_discard: "preserves c d \<Longrightarrow> preserves c (discard reason (d\<lparr>coCwdSet := x\<rparr>))"
  using preserves_then_discard [of c "d\<lparr>coCwdSet := x\<rparr>" reason] by simp

lemma preserves_Restore: "Restore p state mounts printing es c = Some (r, es', d) \<Longrightarrow> preserves c d"
  unfolding Restore_def Let_def
  by (erule preserves_ready)
    (auto simp: restored_def simp del: map_option_eq_Some split: sum.splits if_splits elim!: preserves_map
     elim: preserves_cwd_discard)

lemma preserves_InstallDependencies:
  "Checkout_InstallDependencies p rs es c = Some (r, es', d) \<Longrightarrow> preserves c d"
  unfolding Checkout_InstallDependencies_def
  by (erule preserves_ready)
    (auto simp del: map_option_eq_Some split: sum.splits if_splits list.splits
      elim!: preserves_map elim: preserves_then_discard)

lemma preserves_Abort: "Abort p exc printing es c = Some (r, es', d) \<Longrightarrow> preserves c d"
  unfolding Abort_def
  by (erule preserves_ready)
    (auto simp del: map_option_eq_Some split: sum.splits if_splits elim!: preserves_map elim: preserves_then_discard)

lemma preserves_HandlePendingMount:
  "HandlePendingMount p fuel H w c = Some (r, w', d) \<Longrightarrow> preserves c d"
  by (cases rule: ensureReady_cases [of c])
    (auto simp: HandlePendingMount_def split: if_splits option.splits)

lemma preserves_open: "Checkout_open p cfg es c = Some (r, es', d) \<Longrightarrow> preserves (applyLimits (versioned p cfg) c) d"
  by (auto simp: Checkout_open_def Let_def split: option.splits sum.splits if_splits dest!: preserves_turn
      elim: preserves_then_discard)

lemma preserves_restoreCarried: "restoreCarried p st cr es c = Some (r, es', d) \<Longrightarrow> preserves c d"
  unfolding restoreCarried_def Let_def
  by (erule preserves_map) (auto split: sum.splits if_splits elim: preserves_then_discard)

section \<open>Giving the worker back\<close>

lemma terminate_inactive: "\<not> lease_active c \<Longrightarrow> terminate cause reason force c = (False, c)"
  by (cases rule: terminate_cases [of c cause reason force]) auto

lemma await_inactive: "\<not> lease_active c \<Longrightarrow> await es c = Some (e, es', d) \<Longrightarrow> d = c"
  by (induction es c rule: await.induct) (auto simp: Terminate_def terminate_inactive)

lemma lease_finish_cases:
  obtains "\<not> lease_active c" "lease_finish c = (None, c)"
  | s where "lease_active c" "lease_finish c = (Some s, c\<lparr>coLease := (coLease c)\<lparr>lsSlot := None\<rparr>\<rparr>)"
proof (cases "lsSlot (coLease c)")
  case None
  then have "(coLease c)\<lparr>lsSlot := None\<rparr> = coLease c" by (cases "coLease c") simp
  with None show ?thesis using that(1) by (simp add: lease_finish_def lease_active_def)
next
  case (Some s)
  then show ?thesis using that(2) by (simp add: lease_finish_def lease_active_def)
qed

text \<open>
  A handover of an owned worker: the lease is empty, the action is logged, and the observer is closed,
  or goes with a local worker that the pool recycles.
\<close>

lemma handed_over:
  assumes "session_inv c" "lease_active c" "handover a"
    and "d = logged a (c\<lparr>coLease := (coLease c)\<lparr>lsSlot := None\<rparr>\<rparr>)"
    and "d2 = obs_close d \<or> d2 = d \<and> coKind c \<noteq> KindWebSocket \<and> (\<exists>w n. a = ARelease w n True)"
  shows "session_inv (finishMetrics m d2) \<and> users (finishMetrics m d2) = users c
    \<and> coKind (finishMetrics m d2) = coKind c"
proof -
  note obs_close_occurs [simp] finishMetrics_occurs [simp]
  have a: "\<not> is_metrics a" "a \<noteq> AObsClosed" using assms(3) by (cases a; simp)+
  have c: "occurs gone c = 0" "quiet (coLog c)" "observer_open c"
    "occurs is_metrics c = of_bool (coMetricsDone c)" "occurs handover c = 0"
    using assms(1,2) active_owned [of c] by (auto simp: owned_def session_inv_def observer_ok_open)
  have d: "quiet (coLog d)" "observer_open d" "occurs is_metrics d = of_bool (coMetricsDone d)"
    "occurs handover d = 1" "\<not> lease_active d" "users d = users c" "coKind d = coKind c"
    using a c assms(3) unfolding assms(4) by (simp_all add: quiet_snoc_log lease_active_def)
  from assms(5) show ?thesis
  proof
    assume d2: "d2 = obs_close d"
    have "observer_ok (obs_close d)" using d by (simp add: obs_close_ok)
    then have "observer_ok (finishMetrics m (obs_close d))"
      by (cases "coObs (obs_close d)") (auto simp: observer_ok_def)
    with d show ?thesis unfolding d2 by (simp add: session_inv_def)
  next
    assume d2: "d2 = d \<and> coKind c \<noteq> KindWebSocket \<and> (\<exists>w n. a = ARelease w n True)"
    then have "observer_ok (finishMetrics m d)"
      using d assms(4) by (cases "coObs d") (auto simp: observer_ok_def observer_open_def)
    with d d2 show ?thesis by (simp add: session_inv_def)
  qed
qed

lemma preserves_finishLease: "finishLease extra es c = Some (r, es', d) \<Longrightarrow> preserves c d"
proof -
  assume fin: "finishLease extra es c = Some (r, es', d)"
  obtain es1 c1 where int: "interrupted es c = (es1, c1)" by (cases "interrupted es c")
  have "preserves c1 d"
  proof (cases rule: lease_finish_cases [of c1])
    case 1
    with fin int show ?thesis by (simp add: finishLease_def)
  next
    case (2 s)
    let ?c2 = "c1\<lparr>coLease := (coLease c1)\<lparr>lsSlot := None\<rparr>\<rparr>"
    let ?s = "s\<lparr>sServed := sServed s + extra\<rparr>"
    have "\<not> lease_active ?c2" by (simp add: lease_active_def)
    with fin int 2(2) obtain rec es2 where "await es1 ?c2 = Some (Recycled rec, es2, ?c2)"
      and d: "d = finishMetrics ''ok'' (let c3 = logged (ARelease (sWorker ?s) (sServed ?s) rec) ?c2
        in if \<not> rec \<or> coKind c3 = KindWebSocket then obs_close c3 else c3)"
      by (auto simp: finishLease_def release_slot_def Let_def dest: await_inactive
          split: option.splits io.splits)
    show ?thesis
      unfolding preserves_def d Let_def
      by (intro impI handed_over [OF _ 2(1) _ refl]) auto
  qed
  with preserves_interrupted [OF int] show ?thesis by (rule preserves_trans)
qed

lemma preserves_metrics: "preserves c (finishMetrics m c)"
proof -
  have "observer_ok (finishMetrics m c) = observer_ok c"
    by (cases "coObs c") (simp_all add: observer_ok_def finishMetrics_occurs)
  then show ?thesis by (simp add: preserves_def session_inv_def finishMetrics_occurs)
qed

lemma preserves_Finish:
  assumes "Finish p es c = Some (r, es', d)"
  shows "preserves c d"
proof -
  consider "d = finishMetrics ''error'' (c\<lparr>coCancelled := False\<rparr>)" | "d = discard ''abandoned'' c"
    | extra where "finishLease extra es c = Some (r, es', d)"
    | x es1 c1 where "turn p Reset True False es c = Some (x, es1, c1)"
        "d = finishMetrics ''error'' (discard ''discarded'' c1)
         \<or> finishLease 1 es1 (c1\<lparr>coPending := noPending, coMounts := None\<rparr>) = Some (r, es', d)"
    using assms unfolding Finish_def
    by (auto split: if_splits option.splits sum.splits)
  then show ?thesis
  proof cases
    case 1
    then show ?thesis using preserves_metrics [of "c\<lparr>coCancelled := False\<rparr>" "''error''"]
      by (simp add: preserves_def)
  next
    case (4 x es1 c1)
    have "preserves c1 d"
      using 4(2) preserves_finishLease [of 1 es1 "c1\<lparr>coPending := noPending, coMounts := None\<rparr>" r es' d]
        preserves_trans [OF preserves_discard preserves_metrics] by auto
    with preserves_turn [OF 4(1)] show ?thesis by (rule preserves_trans)
  qed (simp_all add: preserves_discard preserves_finishLease)
qed

lemma preserves_Handoff: "Handoff_session es c = Some (r, es', d) \<Longrightarrow> preserves c d"
  unfolding Handoff_session_def
proof (erule preserves_ready)
  fix r es' d
  assume body: "(if pdKind (coPending c) \<noteq> PendingNone then
        Some (Inl (protocolError ''handoff with a pending suspension''), es, c)
      else if coKind c \<noteq> KindWebSocket then
        Some (Inl (protocolError ''handoff requires a remote worker''), es, c)
      else case interrupted es c of (es, c) \<Rightarrow>
        (case lease_finish c of
           (None, c) \<Rightarrow> Some (Inl (newError KindFinished), es, c)
         | (Some s, c) \<Rightarrow>
             let r = \<lparr>crBudget = coBudget c, crCwdSet = coCwdSet c\<rparr>;
                 c = c\<lparr>coPending := noPending, coMounts := None\<rparr>;
                 c = logged (AHandoff (sWorker s)) c
             in Some (Inr r, es, finishMetrics ''ok'' (obs_close c)))) = Some (r, es', d)"
  obtain es1 c1 where int: "interrupted es c = (es1, c1)" by (cases "interrupted es c")
  have "preserves c1 d \<or> d = c"
  proof (cases rule: lease_finish_cases [of c1])
    case 1
    with body int show ?thesis by (auto split: if_splits)
  next
    case (2 s)
    let ?c2 = "c1\<lparr>coPending := noPending, coMounts := None\<rparr>"
    have eq: "c1\<lparr>coLease := l, coPending := noPending, coMounts := None\<rparr> = ?c2\<lparr>coLease := l\<rparr>" for l by simp
    have "session_inv c1 \<Longrightarrow> session_inv (finishMetrics ''ok'' (obs_close (logged (AHandoff (sWorker s))
        (?c2\<lparr>coLease := (coLease ?c2)\<lparr>lsSlot := None\<rparr>\<rparr>))))
      \<and> users (finishMetrics ''ok'' (obs_close (logged (AHandoff (sWorker s))
        (?c2\<lparr>coLease := (coLease ?c2)\<lparr>lsSlot := None\<rparr>\<rparr>)))) = users ?c2
      \<and> coKind (finishMetrics ''ok'' (obs_close (logged (AHandoff (sWorker s))
        (?c2\<lparr>coLease := (coLease ?c2)\<lparr>lsSlot := None\<rparr>\<rparr>)))) = coKind ?c2"
      using 2(1) by (intro handed_over [OF _ _ _ refl disjI1 [OF refl]]) (simp_all add: lease_active_def)
    with body int 2(2) show ?thesis by (auto simp: Let_def preserves_def eq split: if_splits)
  qed
  then show "preserves c d" using preserves_interrupted [OF int] preserves_trans by auto
qed

lemma preserves_bind:
  assumes "Bind_open p cfg state cr es c = Some (r, es', d)"
  shows "preserves (applyLimits (versioned p cfg) c) d"
proof -
  obtain x es1 c1 where turn: "turn p (Configure (versioned p cfg)) True False es
      (applyLimits (versioned p cfg) c) = Some (x, es1, c1)"
    using assms by (auto simp: Bind_open_def Let_def split: option.splits)
  have "preserves c1 d"
    using assms turn
    by (auto simp: Bind_open_def Let_def preserves_discard split: sum.splits if_splits option.splits
        dest!: preserves_restoreCarried elim: preserves_then_discard)
  with preserves_turn [OF turn] show ?thesis by (rule preserves_trans)
qed

end
