(* ===== verification/CheckoutProps.thy ===== *)
theory CheckoutProps
  imports CheckoutInv
begin

text \<open>
  What a session guarantees to the pool and to its caller: who owns the worker, when the observer is
  closed, what a turn returns and what it leaves behind.
\<close>

section \<open>Sessions as sequences of operations\<close>

text \<open>
  The operations a caller can issue, each with the outside it meets. \<open>OpUnhold\<close> is the call of a
  release function that \<^verbatim>\<open>HoldObserver\<close> returned; it is called once, so there is a holder.
\<close>

datatype 'r op =
    OpFeed string "namedValue list" "'r table option" string "string option" bool bool
  | OpResume extResult bool
  | OpResumeNameLookup lookupKind pyval "wireException option" bool
  | OpResumeFutures "futureResult list" bool
  | OpHandlePendingMount
  | OpResumeFromMounts bool
  | OpDump
  | OpRestore bytes "'r table option" bool
  | OpInstallDependencies "string list"
  | OpFinish
  | OpAbort "wireException option" bool
  | OpHandoff
  | OpTerminate "string option" string
  | OpAbandon
  | OpHold
  | OpUnhold

definition ended :: "'w \<Rightarrow> ('r, 'a) ran \<Rightarrow> ('w \<times> 'r checkout) option" where
  "ended w res = map_option (\<lambda>(r, es, c). (w, c)) res"

fun perform ::
    "params \<Rightarrow> nat \<Rightarrow> ('w, 'r, 'f) hostfs \<Rightarrow> 'r op \<Rightarrow> io list \<Rightarrow> 'w \<times> 'r checkout \<Rightarrow> ('w \<times> 'r checkout) option" where
  "perform p fuel H (OpFeed code inputs mounts firstMount cwd skip printing) es (w, c) =
     ended w (Checkout_Feed p code inputs mounts firstMount cwd skip printing es c)"
| "perform p fuel H (OpResume result printing) es (w, c) = ended w (Resume p result printing es c)"
| "perform p fuel H (OpResumeNameLookup k v e printing) es (w, c) =
     ended w (Checkout_ResumeNameLookup p k v e printing es c)"
| "perform p fuel H (OpResumeFutures results printing) es (w, c) =
     ended w (Checkout_ResumeFutures p results printing es c)"
| "perform p fuel H OpHandlePendingMount es (w, c) =
     map_option (\<lambda>(r, w, c). (w, c)) (HandlePendingMount p fuel H w c)"
| "perform p fuel H (OpResumeFromMounts printing) es (w, c) =
     map_option (\<lambda>(r, w, es, c). (w, c)) (ResumeFromMounts p fuel H printing w es c)"
| "perform p fuel H OpDump es (w, c) = ended w (Checkout_Dump p es c)"
| "perform p fuel H (OpRestore state mounts printing) es (w, c) =
     ended w (Restore p state mounts printing es c)"
| "perform p fuel H (OpInstallDependencies rs) es (w, c) = ended w (Checkout_InstallDependencies p rs es c)"
| "perform p fuel H OpFinish es (w, c) = ended w (Finish p es c)"
| "perform p fuel H (OpAbort exc printing) es (w, c) = ended w (Abort p exc printing es c)"
| "perform p fuel H OpHandoff es (w, c) = ended w (Handoff_session es c)"
| "perform p fuel H (OpTerminate cause reason) es (w, c) = Some (w, snd (Terminate cause reason c))"
| "perform p fuel H OpAbandon es (w, c) = Some (w, Abandon c)"
| "perform p fuel H OpHold es (w, c) = Some (w, snd (HoldObserver c))"
| "perform p fuel H OpUnhold es (w, c) =
     (if users c = None \<or> the (users c) = 0 then None else Some (w, obs_release c))"

fun performs ::
    "params \<Rightarrow> nat \<Rightarrow> ('w, 'r, 'f) hostfs \<Rightarrow> ('r op \<times> io list) list \<Rightarrow> 'w \<times> 'r checkout
       \<Rightarrow> ('w \<times> 'r checkout) option" where
  "performs p fuel H [] st = Some st"
| "performs p fuel H ((oper, es) # rest) st =
     (case perform p fuel H oper es st of None \<Rightarrow> None | Some st \<Rightarrow> performs p fuel H rest st)"

text \<open>A session of the pool: the worker is configured, then the caller's operations follow.\<close>

definition session ::
    "params \<Rightarrow> nat \<Rightarrow> ('w, 'r, 'f) hostfs \<Rightarrow> configure \<Rightarrow> slot \<Rightarrow> workerKind \<Rightarrow> bool \<Rightarrow> io list
       \<Rightarrow> ('r op \<times> io list) list \<Rightarrow> 'w \<Rightarrow> ('w \<times> 'r checkout) option" where
  "session p fuel H cfg s kind observed es ops w =
     (case Checkout_open p cfg es (newCheckout s kind observed) of
        None \<Rightarrow> None
      | Some (r, es', c) \<Rightarrow> performs p fuel H ops (w, c))"

section \<open>The invariant holds throughout\<close>

lemma preserves_ResumeFromMounts:
  assumes "ResumeFromMounts p fuel H printing w es c = Some (r, w', es', d)"
  shows "preserves c d"
proof -
  obtain x w1 c1 where hpm: "HandlePendingMount p fuel H w c = Some (x, w1, c1)"
    using assms by (auto simp: ResumeFromMounts_def split: option.splits)
  have "preserves c1 d"
    using assms hpm
    by (auto simp: ResumeFromMounts_def split: sum.splits option.splits if_splits
        dest!: preserves_Resume elim: preserves_trans)
  with preserves_HandlePendingMount [OF hpm] show ?thesis by (rule preserves_trans)
qed

lemma session_inv_hold: "session_inv c \<Longrightarrow> session_inv (snd (HoldObserver c))"
  by (auto simp: HoldObserver_def obs_acquire_def session_inv_def observer_ok_def lease_active_def
      split: option.splits)

lemma session_inv_unhold:
  assumes "session_inv c" "users c = Some u" "u \<noteq> 0"
  shows "session_inv (obs_release c)"
proof -
  obtain o1 where "coObs c = Some o1" "olUsers o1 \<noteq> 0" using assms(2,3) by (auto simp: users_def)
  with assms(1) show ?thesis
    by (auto simp: session_inv_def observer_ok_def obs_release_def Let_def lease_active_def
        quiet_snoc_log harmless_def)
qed

lemma session_inv_perform:
  assumes "perform p fuel H oper es (w, c) = Some (w', d)" "session_inv c"
  shows "session_inv d"
proof -
  have "preserves c d \<or> (\<exists>printing. oper = OpHold \<or> oper = OpUnhold)"
    using assms(1)
    by (cases oper) (auto simp: ended_def Terminate_def Abandon_def preserves_terminate
        dest: preserves_Feed preserves_Resume preserves_ResumeNameLookup preserves_ResumeFutures
          preserves_HandlePendingMount preserves_ResumeFromMounts preserves_Dump preserves_Restore
          preserves_InstallDependencies preserves_Finish preserves_Abort preserves_Handoff)
  then show ?thesis
    using assms session_inv_hold session_inv_unhold [of c]
    by (auto simp: preserves_def split: if_splits)
qed

lemma session_inv_performs:
  "performs p fuel H ops (w, c) = Some (w', d) \<Longrightarrow> session_inv c \<Longrightarrow> session_inv d"
proof (induction ops arbitrary: w c)
  case (Cons x ops)
  then show ?case by (cases x) (auto split: option.splits dest: session_inv_perform)
qed simp

lemma session_inv_new: "session_inv (newCheckout s kind observed)"
  by (simp add: session_inv_def newCheckout_def lease_active_def occurs_def observer_ok_def)

lemma session_inv_limits [simp]: "session_inv (applyLimits cfg c) = session_inv c"
  by (simp add: applyLimits_def Let_def split: option.splits)

lemma session_inv_session:
  assumes "session p fuel H cfg s kind observed es ops w = Some (w', c)"
  shows "session_inv c"
proof -
  obtain r es' c0 where op: "Checkout_open p cfg es (newCheckout s kind observed) = Some (r, es', c0)"
    and run: "performs p fuel H ops (w, c0) = Some (w', c)"
    using assms by (auto simp: session_def split: option.splits)
  have "session_inv c0"
    using preserves_open [OF op] by (simp add: preserves_def session_inv_new)
  with run show ?thesis by (rule session_inv_performs)
qed

lemma quiet_after: "quiet (pre @ a # post) \<Longrightarrow> gone a \<Longrightarrow> list_all harmless post"
  by (induction pre) auto

section \<open>A sample session\<close>

text \<open>
  A remote worker is configured, answers with \<^verbatim>\<open>Ok\<close>, and is given back. The replies are encoded
  with the concrete wire format.
\<close>

definition sample_params :: params where
  "sample_params =
     \<lparr>prWire = wire_format, prIsPrint = (\<lambda>r. False), prParseText = (\<lambda>n. []), prRequestTimeout = 0,
      prDurationLimitGrace = 0, prGraceDisabled = True, prMontyVersion = [], prProtocolVersion = 0\<rparr>"

definition sample_config :: configure where
  "sample_config =
     \<lparr>cfgScriptName = [], cfgLimits = None, cfgTypeCheck = False, cfgTypeCheckStubs = None,
      cfgMontyVersion = [], cfgAssertMessageAnnotations = None, cfgTypeCheckFormat = 0,
      cfgTypeCheckColor = False, cfgProtocolVersion = 0, cfgPrintFlushIntervalMs = None\<rparr>"

definition ok_frame :: bytes where
  "ok_frame = msgF wire_format 10 []"

definition ok_event :: event where
  "ok_event = zeroEvent\<lparr>evKind := EventOk\<rparr>"

lemma ok_decodes: "\<exists>ds. DecodeEvent wire_format ok_frame = Inr (ok_event, ds)"
  unfolding ok_frame_def ok_event_def DecodeEvent_def DecodeEventWithBudget_def
  by (simp add: readFields_def eventField_def fmt.fields)

lemma sample_versioned [simp]: "versioned sample_params sample_config = sample_config"
  by (simp add: versioned_def sample_params_def sample_config_def)

lemma configure_encodes: "EncodeRequest wire_format (Configure sample_config) [] = Inr [10, 0]"
  by (simp add: EncodeRequest_def appendConfigure_def sample_config_def Let_def wire_codes
      appendBoolField_def appendOptString_def appendOptionalU64_def appendUintField_def)

lemma ok_event_simps [simp]:
  "evKind ok_event = EventOk" "evTotalExecutionMicros ok_event = 0" "evMaxDurationMicros ok_event = None"
  "evMaxSuspensions ok_event = None" "\<not> IsSuspension ok_event"
  by (simp_all add: ok_event_def zeroEvent_def IsSuspension_def)

lemma sample_params_simps [simp]: "prWire sample_params = wire_format"
  by (simp add: sample_params_def)

text \<open>A request that the worker answers with \<^verbatim>\<open>Ok\<close>.\<close>

definition answered :: "request \<Rightarrow> bytes \<Rightarrow> 'r checkout \<Rightarrow> 'r checkout" where
  "answered req msg d =
     (let c = obs_note (AObsSent req (length msg)) (logged (ASend msg) (d\<lparr>coInFlight := True, coSent := False\<rparr>));
          c = obs_note (AObsReceived ok_event (length ok_frame)) (c\<lparr>coSent := True\<rparr>)
      in obs_release (c\<lparr>coInFlight := False\<rparr>))"

lemma obs_note_simps [simp]:
  "coAbortFlight (obs_note a c) = coAbortFlight c" "coBudget (obs_note a c) = coBudget c"
  "coInFlight (obs_note a c) = coInFlight c" "coSent (obs_note a c) = coSent c"
  "coPending (obs_note a c) = coPending c" "coKind (obs_note a c) = coKind c"
  "coLease (obs_note a c) = coLease c" "coMounts (obs_note a c) = coMounts c"
  "lease_active (obs_note a c) = lease_active c" "coObs (obs_note a c) = coObs c"
  "coCancelled (obs_note a c) = coCancelled c" "coMetricsDone (obs_note a c) = coMetricsDone c"
  by (simp_all add: obs_note_def logged_def lease_active_def)

lemma observe_ok [simp]: "observe b ok_event = b"
  by (simp add: observe_def Let_def split: option.splits)

lemma loop_ok:
  assumes "\<not> coAbortFlight c"
  shows "turnLoop sample_params req dl printing (RecvOk ok_frame # es) c
    = Some (Inr ok_event, es, (obs_note (AObsReceived ok_event (length ok_frame)) c)\<lparr>coInFlight := False\<rparr>)"
proof -
  obtain ds where "DecodeEvent wire_format ok_frame = Inr (ok_event, ds)" using ok_decodes by blast
  moreover have "c\<lparr>coBudget := coBudget c\<rparr> = c" for c :: "'a checkout" by simp
  ultimately show ?thesis
    using assms by (subst turnLoop.simps) (simp add: reply_def Let_def returned_def dispatch_def)
qed

lemma turn_ok:
  assumes "ensureReady c = (None, c)" "obs_acquire c = (True, d)" "\<not> coAbortFlight d"
    and "list_ex ExceedsMaxDepth (RequestValues req) = False"
    and "EncodeRequest wire_format req [] = Inr msg" "length msg < 100"
  shows "turn sample_params req control printing (SendOk # RecvOk ok_frame # es) c
    = Some (Inr ok_event, es, answered req msg d)"
proof -
  have "\<not> MaxFrameLen < length msg" using assms(6) by (simp add: MaxFrameLen_def)
  with assms show ?thesis
    by (simp add: turn_def turnBody_def send_def loop_ok answered_def Let_def)
qed

definition sample_new :: "'r checkout" where
  "sample_new = applyLimits sample_config (newCheckout \<lparr>sWorker = 0, sServed = 0\<rparr> KindWebSocket True)"

text \<open>The session after \<^verbatim>\<open>Checkout\<close>.\<close>

definition sample_open :: "'r checkout" where
  "sample_open = answered (Configure sample_config) [10, 0]
     (sample_new\<lparr>coObs := Some \<lparr>olUsers = 1, olClosing = False, olClosed = False\<rparr>\<rparr>)"

lemma sample_new_simps:
  "ensureReady sample_new = (None, sample_new)"
  "obs_acquire sample_new
    = (True, sample_new\<lparr>coObs := Some \<lparr>olUsers = 1, olClosing = False, olClosed = False\<rparr>\<rparr>)"
  "\<not> coAbortFlight sample_new" "coKind sample_new = KindWebSocket" "lease_active sample_new"
  "\<not> coCancelled sample_new" "\<not> coCwdSet sample_new" "coPending sample_new = noPending"
  by (simp_all add: sample_new_def applyLimits_def newCheckout_def ensureReady_def lease_active_def
      obs_acquire_def sample_config_def)

lemma sample_opened:
  "Checkout_open sample_params sample_config [SendOk, RecvOk ok_frame]
      (newCheckout \<lparr>sWorker = 0, sServed = 0\<rparr> KindWebSocket True) = Some (Inr (), [], sample_open :: 'r checkout)"
proof -
  have "turn sample_params (Configure sample_config) True False [SendOk, RecvOk ok_frame] (sample_new :: 'r checkout)
    = Some (Inr ok_event, [], sample_open)"
    unfolding sample_open_def
    by (rule turn_ok [OF sample_new_simps(1,2)]) (simp_all add: configure_encodes sample_new_simps)
  then show ?thesis by (simp add: Checkout_open_def sample_new_def)
qed

lemma sample_open_simps:
  "lease_active sample_open" "\<not> coInFlight sample_open" "coKind sample_open = KindWebSocket"
  "coObs sample_open = Some \<lparr>olUsers = 0, olClosing = False, olClosed = False\<rparr>"
  "coSent sample_open" "\<not> coCwdSet sample_open" "coPending sample_open = noPending"
  "\<not> coCancelled sample_open" "\<not> coAbortFlight sample_open" "coBudget (sample_open :: 'r checkout) = coBudget (sample_new :: 'r checkout)"
  by (simp_all add: sample_new_simps [unfolded lease_active_def] sample_open_def answered_def Let_def obs_release_def lease_active_def obs_note_def logged_def)

lemma sample_session:
  fixes H :: "('w, 'r, 'f) hostfs"
  shows "\<exists>c. session sample_params 0 H sample_config \<lparr>sWorker = 0, sServed = 0\<rparr> KindWebSocket True
     [SendOk, RecvOk ok_frame] [(OpFinish, [Recycled False])] w = Some (w, c) \<and> Finished c
     \<and> coObs c = Some \<lparr>olUsers = 0, olClosing = True, olClosed = True\<rparr>"
proof -
  obtain sl where sl: "lsSlot (coLease (sample_open :: 'r checkout)) = Some sl"
    using sample_open_simps(1) by (auto simp: lease_active_def)
  define f :: "'r checkout" where
    "f = finishMetrics ''ok'' (obs_close (logged (ARelease (sWorker sl) (sServed sl) False)
      (sample_open\<lparr>coLease := (coLease (sample_open :: 'r checkout))\<lparr>lsSlot := None\<rparr>\<rparr>)))"
  have "Finish sample_params [Recycled False] (sample_open :: 'r checkout) = Some (Inr (), [], f)"
    using sl by (simp add: sample_open_simps Finish_def finishLease_def lease_finish_def release_slot_def f_def)
  moreover have "Finished f" "coObs f = Some \<lparr>olUsers = 0, olClosing = True, olClosed = True\<rparr>"
    by (simp_all add: sample_open_simps f_def Finished_def lease_active_def obs_close_def)
  ultimately show ?thesis by (simp add: session_def sample_opened ended_def)
qed

section \<open>Ownership\<close>

text \<open>
  C7. The worker of a session has one owner. Whatever the worker answers, whatever the caller does and
  whenever another goroutine terminates the session, the session hands its worker back to the pool
  exactly once, by retiring, releasing or handing it off, and it does so if and only if its lease is
  gone. After the worker was released or handed off, when it may already serve another session, nothing
  is sent to it, it is neither killed nor retired, and nothing more is shown of it to the caller.
  The duration of the session is recorded once it has ended, and only once.
\<close>

theorem session_ownership:
  assumes "session p fuel H cfg s kind observed es ops w = Some (w', c)"
  shows "length (filter handover (coLog c)) = (if Finished c then 1 else 0)
    \<and> (\<forall>pre a post. coLog c = pre @ a # post \<longrightarrow> gone a \<longrightarrow> list_all harmless post)
    \<and> length (filter is_metrics (coLog c)) \<le> 1
    \<and> (Finished c \<longrightarrow> length (filter is_metrics (coLog c)) = 1)"
proof -
  have inv: "occurs handover c = (if lease_active c then 0 else 1)" "quiet (coLog c)"
    "occurs is_metrics c = of_bool (coMetricsDone c)" "lease_active c \<or> coMetricsDone c"
    using session_inv_session [OF assms] unfolding session_inv_def by blast+
  have "length (filter handover (coLog c)) = (if Finished c then 1 else 0)"
    using inv(1) by (simp add: occurs_def Finished_def)
  moreover have "\<forall>pre a post. coLog c = pre @ a # post \<longrightarrow> gone a \<longrightarrow> list_all harmless post"
  proof (intro allI impI)
    fix pre a post
    assume "coLog c = pre @ a # post" "gone a"
    then show "list_all harmless post" using inv(2) quiet_after by simp
  qed
  moreover have "length (filter is_metrics (coLog c)) \<le> 1"
    using inv(3) by (simp add: occurs_def)
  moreover have "Finished c \<longrightarrow> length (filter is_metrics (coLog c)) = 1"
    using inv(3,4) by (auto simp: occurs_def Finished_def)
  ultimately show ?thesis by (intro conjI)
qed

theorem session_ownership_witness:
  "\<exists>c. session sample_params 0 (undefined :: (unit, unit, unit) hostfs) sample_config
       \<lparr>sWorker = 0, sServed = 0\<rparr> KindWebSocket True
       [SendOk, RecvOk ok_frame] [(OpFinish, [Recycled False])] () = Some ((), c)
     \<and> length (filter handover (coLog c)) = 1"
proof -
  from sample_session [of "undefined :: (unit, unit, unit) hostfs" "()"]
  obtain c where c: "session sample_params 0 (undefined :: (unit, unit, unit) hostfs) sample_config
      \<lparr>sWorker = 0, sServed = 0\<rparr> KindWebSocket True
      [SendOk, RecvOk ok_frame] [(OpFinish, [Recycled False])] () = Some ((), c)" "Finished c"
    by (elim exE conjE)
  have "length (filter handover (coLog c)) = 1"
    using session_ownership [OF c(1), THEN conjunct1] c(2) by simp
  with c(1) show ?thesis by (intro exI [of _ c] conjI)
qed

text \<open>
  C37. The observer of a session is told once that the session is over: \<^verbatim>\<open>Closed\<close> is called if and
  only if closing has begun and nobody holds the observer any more, and never twice. Closing has begun
  as soon as the session gave its worker up, unless the pool recycles a local worker, which is still to
  be shut down under observation; and it does not begin before.
\<close>

theorem observer_closed_once:
  assumes "session p fuel H cfg s kind observed es ops w = Some (w', c)" "coObs c = Some o'"
  shows "length (filter (\<lambda>a. a = AObsClosed) (coLog c)) = (if olClosing o' \<and> olUsers o' = 0 then 1 else 0)
    \<and> 0 \<le> olUsers o' \<and> (olClosing o' \<longrightarrow> Finished c)
    \<and> (Finished c \<longrightarrow> olClosing o' \<or> coKind c \<noteq> KindWebSocket \<and> (\<exists>wk n. ARelease wk n True \<in> set (coLog c)))"
proof -
  have "observer_ok c" using session_inv_session [OF assms(1)] by (simp add: session_inv_def)
  then have obs: "0 \<le> olUsers o' \<and> occurs (\<lambda>a. a = AObsClosed) c = of_bool (olClosed o')
      \<and> (olClosed o' \<longleftrightarrow> olClosing o' \<and> olUsers o' = 0) \<and> (lease_active c \<longrightarrow> \<not> olClosing o')
      \<and> (lease_active c
         \<or> olClosing o' \<or> coKind c \<noteq> KindWebSocket \<and> (\<exists>wk n. ARelease wk n True \<in> set (coLog c)))"
    unfolding observer_ok_def assms(2) option.case .
  then have "length (filter (\<lambda>a. a = AObsClosed) (coLog c)) = (if olClosing o' \<and> olUsers o' = 0 then 1 else 0)"
    by (simp add: occurs_def)
  moreover have "olClosing o' \<longrightarrow> Finished c" using obs by (auto simp: Finished_def)
  moreover have "Finished c \<longrightarrow>
      olClosing o' \<or> coKind c \<noteq> KindWebSocket \<and> (\<exists>wk n. ARelease wk n True \<in> set (coLog c))"
    using obs unfolding Finished_def by argo
  ultimately show ?thesis using obs by argo
qed

theorem observer_closed_once_witness:
  "\<exists>c. session sample_params 0 (undefined :: (unit, unit, unit) hostfs) sample_config
       \<lparr>sWorker = 0, sServed = 0\<rparr> KindWebSocket True
       [SendOk, RecvOk ok_frame] [(OpFinish, [Recycled False])] () = Some ((), c)
     \<and> length (filter (\<lambda>a. a = AObsClosed) (coLog c)) = 1"
proof -
  from sample_session [of "undefined :: (unit, unit, unit) hostfs" "()"]
  obtain c where c: "session sample_params 0 (undefined :: (unit, unit, unit) hostfs) sample_config
      \<lparr>sWorker = 0, sServed = 0\<rparr> KindWebSocket True
      [SendOk, RecvOk ok_frame] [(OpFinish, [Recycled False])] () = Some ((), c)"
    "coObs c = Some \<lparr>olUsers = 0, olClosing = True, olClosed = True\<rparr>"
    by (elim exE conjE)
  have "length (filter (\<lambda>a. a = AObsClosed) (coLog c)) = 1"
    using observer_closed_once [OF c, THEN conjunct1] by simp
  with c(1) show ?thesis by (intro exI [of _ c] conjI)
qed

end
