(* ===== verification/CheckoutTurn.thy ===== *)
theory CheckoutTurn
  imports CheckoutProps
begin

text \<open>
  What a turn returns: the session budget, the suspension that awaits an answer, and what an error says
  about the worker and the session.
\<close>

section \<open>Ending the session\<close>

lemma terminate_done: "\<not> lease_active (snd (terminate cause reason force c))"
  by (cases rule: terminate_cases [of c cause reason force]) (auto simp: lease_active_def)

lemma discard_done [simp]: "\<not> lease_active (discard reason c)"
  by (simp add: discard_def terminate_done)

lemma lease_updates [simp]:
  "lease_active (c\<lparr>coPending := pd\<rparr>) = lease_active c" "lease_active (c\<lparr>coMounts := t\<rparr>) = lease_active c"
  "lease_active (c\<lparr>coBudget := b\<rparr>) = lease_active c" "lease_active (c\<lparr>coInFlight := x\<rparr>) = lease_active c"
  "lease_active (c\<lparr>coCancelled := x\<rparr>) = lease_active c" "lease_active (c\<lparr>coCwdSet := x\<rparr>) = lease_active c"
  "lease_active (c\<lparr>coAbortFlight := x\<rparr>) = lease_active c" "lease_active (c\<lparr>coSent := x\<rparr>) = lease_active c"
  "lease_active (c\<lparr>coObs := ob\<rparr>) = lease_active c"
  by (simp_all add: lease_active_def)

lemma keeps_fields:
  "coInFlight (obs_close c) = coInFlight c" "coPending (obs_close c) = coPending c"
  "coBudget (obs_close c) = coBudget c" "coAbortFlight (obs_close c) = coAbortFlight c"
  "coInFlight (finishMetrics m c) = coInFlight c" "coPending (finishMetrics m c) = coPending c"
  "coBudget (finishMetrics m c) = coBudget c" "coAbortFlight (finishMetrics m c) = coAbortFlight c"
  "coInFlight (obs_release c) = coInFlight c" "coPending (obs_release c) = coPending c"
  "coBudget (obs_release c) = coBudget c" "coAbortFlight (obs_release c) = coAbortFlight c"
  "lease_active (obs_release c) = lease_active c" "coSent (obs_release c) = coSent c"
  "coMounts (obs_release c) = coMounts c" "coCwdSet (obs_release c) = coCwdSet c"
  by (auto simp: obs_close_def obs_release_def finishMetrics_def Let_def lease_active_def
      split: option.splits)

lemma terminate_fields [simp]:
  "coInFlight (snd (terminate cause reason force c)) = coInFlight c"
  "coPending (snd (terminate cause reason force c)) = coPending c"
  "coBudget (snd (terminate cause reason force c)) = coBudget c"
  "coAbortFlight (snd (terminate cause reason force c)) = coAbortFlight c"
  by (auto simp: terminate_def lease_terminate_def Let_def keeps_fields split: option.splits)

lemma await_fields:
  "await es c = Some (e, es', d) \<Longrightarrow> coInFlight d = coInFlight c \<and> coPending d = coPending c
     \<and> coBudget d = coBudget c \<and> coAbortFlight d = coAbortFlight c"
  by (induction es c rule: await.induct) (auto simp: Terminate_def)

section \<open>What a turn returns\<close>

text \<open>The suspension that is recorded for an event.\<close>

definition awaits :: "event \<Rightarrow> pending \<Rightarrow> bool" where
  "awaits ev pd \<longleftrightarrow>
     (evKind ev = EventFunctionCall \<longrightarrow>
        (\<exists>fc. evFunctionCall ev = Some fc
           \<and> pd = \<lparr>pdKind = PendingCall, pdCallID = fcCallID fc, pdName = fcFunctionName fc, pdOs = None,
                   pdAllowEager = fcAllowEagerAwait fc\<rparr>))
     \<and> (evKind ev = EventOsCall \<longrightarrow>
        (\<exists>call. evOsCall ev = Some call \<and> ocOp call \<noteq> OpUnset \<and> ocPayloadErr call = None
           \<and> pd = \<lparr>pdKind = PendingCall, pdCallID = ocCallID call, pdName = opName (ocOp call),
                   pdOs = Some call, pdAllowEager = False\<rparr>))
     \<and> (evKind ev = EventNameLookup \<longrightarrow>
        (\<exists>nl. evNameLookup ev = Some nl \<and> pd = noPending\<lparr>pdKind := PendingLookup, pdName := nlName nl\<rparr>))
     \<and> (evKind ev = EventResolveFutures \<longrightarrow> pd = noPending\<lparr>pdKind := PendingFutures\<rparr>)
     \<and> (evKind ev = EventComplete \<longrightarrow> pd = noPending)"

text \<open>
  An event is returned with its suspension recorded and within the limit. An error that leaves the
  session its worker is an exception of the program or of the type checker, nothing is pending then
  (unless the request was a dump), and the turn is over.
\<close>

definition concluded :: "request \<Rightarrow> perror + event \<Rightarrow> 'r checkout \<Rightarrow> bool" where
  "concluded req r d =
     (case r of
        Inr ev \<Rightarrow>
          evKind ev \<in> {EventFunctionCall, EventOsCall, EventNameLookup, EventResolveFutures,
                       EventComplete, EventOk, EventDumpResult}
          \<and> \<not> coInFlight d \<and> \<not> coAbortFlight d \<and> awaits ev (coPending d)
          \<and> (IsSuspension ev \<longrightarrow> bSeen (coBudget d) \<le> bLimit (coBudget d))
      | Inl e \<Rightarrow>
          \<not> ePreSend e \<and> eKind e \<noteq> Panicked
          \<and> (lease_active d \<longrightarrow>
               eKind e \<in> {KindRuntime, KindTyping} \<and> \<not> eWorkerLost e \<and> \<not> coInFlight d
               \<and> \<not> coAbortFlight d \<and> (req \<noteq> Dump \<longrightarrow> coPending d = noPending)))"

lemma lost_concluded:
  "\<not> lease_active d \<Longrightarrow> \<not> ePreSend e \<Longrightarrow> eKind e \<noteq> Panicked \<Longrightarrow> concluded req (Inl e) d"
  by (simp add: concluded_def)

lemmas error_defs = newError_def protocolError_def

lemma poison_concluded: "poison doing closedErr es c = Some (e, es', d) \<Longrightarrow> concluded req (Inl e) d"
  by (auto simp: poison_def Let_def error_defs split: if_splits bind_splits option.splits
      intro!: lost_concluded)

lemma ioFailure_concluded: "ioFailure p f doing dl es c = Some (e, es', d) \<Longrightarrow> concluded req (Inl e) d"
  by (auto simp: ioFailure_def poisonTimeout_def error_defs poison_concluded
      split: if_splits wire_error.splits prod.splits intro!: lost_concluded)

definition bad_os :: "event \<Rightarrow> bool" where
  "bad_os ev \<longleftrightarrow> evKind ev = EventOsCall
     \<and> (case evOsCall ev of None \<Rightarrow> True | Some call \<Rightarrow> ocOp call = OpUnset \<or> ocPayloadErr call \<noteq> None)"

lemma dispatch_concluded:
  assumes run: "dispatch p ev req es c = Some (r, es', d)" and ok: "event_ok ev"
    and flight: "\<not> coAbortFlight c"
    and bound: "bad_os ev \<or> \<not> coInFlight c \<and> (IsSuspension ev \<longrightarrow> bSeen (coBudget c) \<le> bLimit (coBudget c))"
  shows "concluded req r d"
proof (cases "evKind ev")
  case EventFunctionCall
  then obtain fc where "evFunctionCall ev = Some fc" using ok by (auto simp: event_ok_def)
  with EventFunctionCall run flight bound show ?thesis
    by (auto simp: dispatch_def concluded_def awaits_def bad_os_def)
next
  case EventOsCall
  then obtain call where "evOsCall ev = Some call" using ok by (auto simp: event_ok_def)
  with EventOsCall run flight bound show ?thesis
    by (auto simp: dispatch_def concluded_def awaits_def bad_os_def error_defs split: if_splits option.splits)
next
  case EventNameLookup
  then obtain nl where "evNameLookup ev = Some nl" using ok by (auto simp: event_ok_def)
  with EventNameLookup run flight bound show ?thesis
    by (auto simp: dispatch_def concluded_def awaits_def bad_os_def)
next
  case EventError
  with run flight bound show ?thesis
    by (auto simp: dispatch_def concluded_def bad_os_def error_defs Let_def split: if_splits option.splits)
next
  case EventFatalError
  with run show ?thesis
    by (auto simp: dispatch_def error_defs split: option.splits intro!: lost_concluded)
qed (use run flight bound in \<open>auto simp: dispatch_def concluded_def awaits_def bad_os_def error_defs
  IsSuspension_def Let_def split: if_splits\<close>)

section \<open>The loop\<close>

lemma decoded_ok: "protowire_format pw \<Longrightarrow> DecodeEvent pw raw = Inr (ev, ds) \<Longrightarrow> event_ok ev"
  unfolding DecodeEvent_def by (drule (1) soundD [OF protowire_format.event_sound]) simp

fun looped_concluded :: "request \<Rightarrow> 'r looped \<Rightarrow> bool" where
  "looped_concluded req (Return r es c) = concluded req r c"
| "looped_concluded req (Again es c) = True"

lemma returned_concluded:
  assumes "returned (dispatch p ev req es c) = Some l" "event_ok ev" "\<not> coAbortFlight c"
    and "bad_os ev \<or> \<not> coInFlight c \<and> (IsSuspension ev \<longrightarrow> bSeen (coBudget c) \<le> bLimit (coBudget c))"
  shows "looped_concluded req l"
  using assms by (auto simp: returned_def dispatch_concluded)

lemma overLimit_concluded:
  assumes "overLimit p req dl ev es c = Some l" "event_ok ev" "\<not> coAbortFlight c"
  shows "looped_concluded req l"
proof (cases "bad_os ev")
  case True
  then show ?thesis
    using assms returned_concluded [of p ev req es c l] by (simp add: overLimit_def bad_os_def)
next
  case False
  then show ?thesis
    using assms by (auto simp: overLimit_def bad_os_def failed_def Let_def ioFailure_concluded
        split: option.splits if_splits)
qed

lemma reply_concluded:
  assumes "protowire_format (prWire p)" "reply p req dl printing raw es c = Some l"
  shows "looped_concluded req l"
proof (cases "DecodeEvent (prWire p) raw")
  case (Inl e)
  with assms(2) show ?thesis by (auto simp: reply_def error_defs intro!: lost_concluded)
next
  case (Inr x)
  obtain ev ds where x: "x = (ev, ds)" by (cases x)
  have ok: "event_ok ev" using decoded_ok [OF assms(1)] Inr x by simp
  define d where "d = (obs_note (AObsReceived ev (length raw)) c)
    \<lparr>coBudget := observe (coBudget (obs_note (AObsReceived ev (length raw)) c)) ev\<rparr>"
  note reply = assms(2) [unfolded reply_def Inr x sum.case prod.case Let_def d_def [symmetric]]
  show ?thesis
  proof (cases "evKind ev = EventPrint")
    case True
    with reply have "\<exists>es c. l = Again es c" by auto
    then show ?thesis by auto
  next
    case False
    note reply = reply [unfolded if_not_P [OF False]]
    show ?thesis
    proof (cases "coAbortFlight d")
      case True
      note reply = reply [unfolded if_P [OF True]]
      show ?thesis
      proof (cases "evKind ev \<in> {EventError, EventFatalError, EventShutdown}")
        case True
        with reply have "returned (dispatch p ev req es (d\<lparr>coAbortFlight := False, coInFlight := False\<rparr>)) = Some l"
          by (simp split: if_splits)
        then show ?thesis using True by (intro returned_concluded [OF _ ok]) (auto simp: IsSuspension_def)
      next
        case False
        with reply show ?thesis by (auto simp: lost_concluded error_defs)
      qed
    next
      case False
      note reply = reply [unfolded if_not_P [OF False]]
      show ?thesis
      proof (cases "IsSuspension ev \<and> bLimit (coBudget d) < bSeen (coBudget d)")
        case True
        with reply overLimit_concluded [OF _ ok False] show ?thesis by simp
      next
        case over: False
        with reply have "returned (dispatch p ev req es (d\<lparr>coInFlight := False\<rparr>)) = Some l" by argo
        from returned_concluded [OF this ok] False over show ?thesis by (simp add: not_less)
      qed
    qed
  qed
qed

lemma turnLoop_concluded:
  assumes "protowire_format (prWire p)"
  shows "turnLoop p req dl printing es c = Some (r, es', d) \<Longrightarrow> concluded req r d"
proof (induction "length es" arbitrary: es c rule: less_induct)
  case less
  note unfold = turnLoop.simps [of p req dl printing es c]
  obtain e es1 c1 where await: "await es c = Some (e, es1, c1)"
    using less.prems by (auto simp: unfold split: option.splits)
  show ?case
  proof (cases e)
    case (RecvOk raw)
    obtain l where l: "reply p req dl printing raw es1 c1 = Some l"
      using less.prems await RecvOk by (auto simp: unfold split: option.splits)
    show ?thesis
    proof (cases l)
      case (Return r2 es2 c2)
      with less.prems await RecvOk l show ?thesis
        using reply_concluded [OF assms l] by (auto simp: unfold)
    next
      case (Again es2 c2)
      with less.prems await RecvOk l have "turnLoop p req dl printing es2 c2 = Some (r, es', d)"
        by (auto simp: unfold)
      moreover have "length es2 < length es"
        using reply_Again [of p req dl printing raw es1 c1] l Again await_shorter [OF await] by auto
      ultimately show ?thesis using less.hyps by blast
    qed
  next
    case (RecvErr f)
    with less.prems await obtain e2 where "r = Inl e2"
      "ioFailure p f ''waiting for a reply'' dl es1 c1 = Some (e2, es', d)" by (auto simp: unfold)
    then show ?thesis by (simp add: ioFailure_concluded)
  qed (use less.prems await in \<open>simp_all add: unfold\<close>)
qed

text \<open>
  What a turn leaves behind. Either it was refused before anything was sent, with the session as it
  was; or it failed on a nil exception of the caller; or it was concluded.
\<close>

definition untouched :: "'r checkout \<Rightarrow> 'r checkout \<Rightarrow> bool" where
  "untouched c d \<longleftrightarrow>
     coLog d = coLog c \<and> coPending d = coPending c \<and> coMounts d = coMounts c
     \<and> coBudget d = coBudget c \<and> coInFlight d = coInFlight c \<and> coAbortFlight d = coAbortFlight c
     \<and> coLease d = coLease c"

definition refused :: "perror + event \<Rightarrow> bool" where
  "refused r = (case r of Inl e \<Rightarrow> ePreSend e \<or> eKind e = Panicked | Inr ev \<Rightarrow> False)"

lemma refused_runtime: "refused (Inl (runtimeError ty m))" "refused (Inl (newError Panicked))"
  by (simp_all add: refused_def runtimeError_def newError_def)

lemma turnBody_outcome:
  assumes "protowire_format (prWire p)" "turnBody p req control printing es c = Some (r, es', d)"
  shows "concluded req r d \<or> d = c \<and> es' = es \<and> refused r"
proof (cases "list_ex ExceedsMaxDepth (RequestValues req)")
  case True
  with assms(2) show ?thesis by (auto simp: turnBody_def refused_runtime)
next
  case depth: False
  show ?thesis
  proof (cases "EncodeRequest (prWire p) req []")
    case (Inl e)
    with assms(2) depth show ?thesis
      by (cases "e = NilPointer") (auto simp: turnBody_def refused_runtime)
  next
    case (Inr msg)
    define dl where "dl = deadline (coBudget c) (prRequestTimeout p) (prDurationLimitGrace p)
      (prGraceDisabled p) control"
    note body = assms(2) [unfolded turnBody_def if_not_P [OF depth] Inr sum.case Let_def dl_def [symmetric]]
    show ?thesis
    proof (cases "MaxFrameLen < length msg")
      case True
      with body show ?thesis by (auto simp: refused_runtime)
    next
      case False
      note body = body [unfolded if_not_P [OF False]]
      obtain f es1 c1 where send: "send req msg es (c\<lparr>coInFlight := True, coSent := False\<rparr>) = Some (f, es1, c1)"
        using body by (cases "send req msg es (c\<lparr>coInFlight := True, coSent := False\<rparr>)") auto
      show ?thesis
      proof (cases f)
        case None
        with body send have "turnLoop p req dl printing es1 (c1\<lparr>coSent := True\<rparr>) = Some (r, es', d)" by simp
        then show ?thesis using turnLoop_concluded [OF assms(1)] by blast
      next
        case (Some x)
        with body send obtain e where "r = Inl e"
          "ioFailure p x ''sending a request'' dl es1 c1 = Some (e, es', d)" by auto
        then show ?thesis by (simp add: ioFailure_concluded)
      qed
    qed
  qed
qed

section \<open>Turns of a session\<close>

lemma interrupted_active: "interrupted es c = (es', d) \<Longrightarrow> lease_active d \<Longrightarrow> d = c \<and> es' = es"
proof (induction es c rule: interrupted.induct)
  case (1 cause reason es c)
  then have "lease_active (snd (Terminate cause reason c))" by auto
  then show ?case by (simp add: Terminate_def terminate_done)
qed simp_all

lemma acquire_release:
  assumes "obs_acquire c = (True, d)" shows "obs_release d = c"
proof (cases "coObs c")
  case None
  with assms show ?thesis by (auto simp: obs_acquire_def obs_release_def)
next
  case (Some o1)
  with assms have d: "d = c\<lparr>coObs := Some (o1\<lparr>olUsers := olUsers o1 + 1\<rparr>)\<rparr>" "\<not> olClosing o1"
    by (auto simp: obs_acquire_def split: if_splits)
  have "c\<lparr>coObs := Some o1\<rparr> = c" using Some by (cases c) simp
  with d Some show ?thesis by (simp add: obs_release_def)
qed

lemma obs_acquire_lease: "obs_acquire c = (True, d) \<Longrightarrow> lease_active d = lease_active c"
  by (auto simp: obs_acquire_def split: option.splits if_splits)

lemma turn_outcome:
  assumes "protowire_format (prWire p)" "session_inv c" "\<not> coCancelled c"
    and "turn p req control printing es c = Some (r, es', d)"
  shows "concluded req r d \<or> \<not> lease_active d \<and> (\<exists>e. r = Inl e) \<or> d = c \<and> es' = es \<and> refused r"
proof (cases rule: turn_cases [OF assms(4)])
  case (1 e)
  then have "\<not> lease_active d"
    using assms(3) by (auto simp: ensureReady_def split: if_splits)
  with 1 show ?thesis by blast
next
  case (2 c1)
  have "session_inv c1" using preserves_interrupted [OF 2(2)] assms(2) by (simp add: preserves_def)
  then have "\<not> lease_active c1" using 2(5) by (auto simp: session_inv_def observer_ok_def)
  with 2 show ?thesis by blast
next
  case (3 es1 c1 c2 d1)
  from turnBody_outcome [OF assms(1) 3(4)] show ?thesis
  proof
    assume "concluded req r d1"
    then have "concluded req r d" unfolding 3(5) by (simp add: concluded_def keeps_fields split: sum.splits)
    then show ?thesis by blast
  next
    assume ref: "d1 = c2 \<and> es' = es1 \<and> refused r"
    then have d: "d = c1" using acquire_release [OF 3(3)] 3(5) by simp
    show ?thesis
    proof (cases "lease_active c1")
      case True
      with interrupted_active [OF 3(2)] d ref show ?thesis by simp
    next
      case False
      with d ref show ?thesis by (auto simp: refused_def split: sum.splits)
    qed
  qed
qed

section \<open>The worker cannot extend its budget\<close>

definition tighter :: "sessionBudget \<Rightarrow> sessionBudget \<Rightarrow> bool" where
  "tighter b b' \<longleftrightarrow>
     bLimit b' \<le> bLimit b \<and> bReported b \<le> bReported b'
     \<and> (bDuration b \<noteq> None \<longrightarrow> bDuration b' = bDuration b)"

lemma tighter_refl [simp]: "tighter b b"
  by (simp add: tighter_def)

lemma tighter_trans: "tighter a b \<Longrightarrow> tighter b c \<Longrightarrow> tighter a c"
  by (auto simp: tighter_def)

lemma tighter_observe: "tighter b (observe b ev)"
  by (auto simp: tighter_def observe_def Let_def not_less split: option.splits)

lemma discard_budget [simp]: "coBudget (discard reason c) = coBudget c"
  by (simp add: discard_def)

lemma send_budget: "send req msg es c = Some (x, es', d) \<Longrightarrow> coBudget d = coBudget c"
  by (auto simp: send_def split: option.splits io.splits dest!: await_fields)

lemma wait_budget: "wait_worker es c = Some (x, es', d) \<Longrightarrow> coBudget d = coBudget c"
  by (auto simp: wait_worker_def split: option.splits io.splits dest!: await_fields)

lemma reap_budget: "reap es c = Some (st, es', d) \<Longrightarrow> coBudget d = coBudget c"
  by (auto simp: reap_def split: if_splits option.splits dest!: wait_budget)

lemma ioFailure_budget: "ioFailure p f doing dl es c = Some (e, es', d) \<Longrightarrow> coBudget d = coBudget c"
  by (auto simp: ioFailure_def poisonTimeout_def poison_def Let_def
      split: if_splits wire_error.splits prod.splits bind_splits dest!: reap_budget)

lemma dispatch_budget: "dispatch p ev req es c = Some (r, es', d) \<Longrightarrow> coBudget d = coBudget c"
  by (auto simp: dispatch_def Let_def split: eventKind.splits if_splits option.splits dest!: reap_budget)

lemma overLimit_budget: "overLimit p req dl ev es c = Some l \<Longrightarrow> coBudget (looped_state l) = coBudget c"
  by (auto simp: overLimit_def Let_def returned_def failed_def split: if_splits option.splits
      dest!: dispatch_budget send_budget ioFailure_budget)

lemma printed_budget: "coBudget (printed printing segs c) = coBudget c"
proof -
  have "coBudget (foldl (\<lambda>c seg. logged (APrint (psStream seg) (psText seg)) c) c segs) = coBudget c"
    by (induction segs arbitrary: c) simp_all
  then show ?thesis by (simp add: printed_def)
qed

lemma reply_tighter:
  assumes "reply p req dl printing raw es c = Some l"
  shows "tighter (coBudget c) (coBudget (looped_state l))"
proof (cases "DecodeEvent (prWire p) raw")
  case (Inl e)
  with assms show ?thesis by (auto simp: reply_def)
next
  case (Inr x)
  obtain ev ds where x: "x = (ev, ds)" by (cases x)
  have "coBudget (looped_state l) = coBudget c \<or> coBudget (looped_state l) = observe (coBudget c) ev"
    using assms unfolding reply_def Inr x sum.case prod.case Let_def
    by (auto simp: returned_def printed_budget split: if_splits dest!: dispatch_budget overLimit_budget)
  then show ?thesis using tighter_observe by auto
qed

lemma turnLoop_tighter:
  "turnLoop p req dl printing es c = Some (r, es', d) \<Longrightarrow> tighter (coBudget c) (coBudget d)"
proof (induction "length es" arbitrary: es c rule: less_induct)
  case less
  note unfold = turnLoop.simps [of p req dl printing es c]
  obtain e es1 c1 where await: "await es c = Some (e, es1, c1)"
    using less.prems by (auto simp: unfold split: option.splits)
  then have c1: "coBudget c1 = coBudget c" using await_fields by blast
  show ?case
  proof (cases e)
    case (RecvOk raw)
    obtain l where l: "reply p req dl printing raw es1 c1 = Some l"
      using less.prems await RecvOk by (auto simp: unfold split: option.splits)
    note step = reply_tighter [OF l, unfolded c1]
    show ?thesis
    proof (cases l)
      case (Return r2 es2 c2)
      with less.prems await RecvOk l step show ?thesis by (simp add: unfold)
    next
      case (Again es2 c2)
      with less.prems await RecvOk l have "turnLoop p req dl printing es2 c2 = Some (r, es', d)"
        by (simp add: unfold)
      moreover have "length es2 < length es"
        using reply_Again [of p req dl printing raw es1 c1] l Again await_shorter [OF await] by auto
      ultimately have "tighter (coBudget c2) (coBudget d)" using less.hyps by blast
      with step Again show ?thesis by (auto intro: tighter_trans)
    qed
  next
    case (RecvErr f)
    with less.prems await obtain e2 where
      "ioFailure p f ''waiting for a reply'' dl es1 c1 = Some (e2, es', d)" by (auto simp: unfold)
    then show ?thesis using ioFailure_budget c1 by fastforce
  qed (use less.prems await in \<open>simp_all add: unfold\<close>)
qed

lemma interrupted_budget: "interrupted es c = (es', d) \<Longrightarrow> coBudget d = coBudget c"
  by (induction es c rule: interrupted.induct) (auto simp: Terminate_def)

lemma turnBody_tighter:
  "turnBody p req control printing es c = Some (r, es', d) \<Longrightarrow> tighter (coBudget c) (coBudget d)"
  by (auto simp: turnBody_def Let_def split: if_splits sum.splits option.splits
      dest!: send_budget ioFailure_budget turnLoop_tighter)

lemma turn_tighter:
  assumes "turn p req control printing es c = Some (r, es', d)"
  shows "tighter (coBudget c) (coBudget d)"
proof (cases rule: turn_cases [OF assms])
  case (1 e)
  then have "coBudget d = coBudget c" by (auto simp: ensureReady_def split: if_splits)
  then show ?thesis by simp
next
  case (2 c1)
  then show ?thesis using interrupted_budget by fastforce
next
  case (3 es1 c1 c2 d1)
  have "coBudget c2 = coBudget c"
    using 3(3) interrupted_budget [OF 3(2)] by (auto simp: obs_acquire_def split: option.splits if_splits)
  moreover have "tighter (coBudget c2) (coBudget d1)"
    using turnBody_tighter [OF 3(4)] .
  ultimately show ?thesis using 3(5) by (simp add: keeps_fields)
qed


text \<open>A name lookup, within a limit of two suspensions.\<close>

definition lookup_frame :: bytes where
  "lookup_frame = msgF wire_format 4 (strF wire_format 1 ''x'')"

definition lookup_event :: event where
  "lookup_event = zeroEvent\<lparr>evKind := EventNameLookup, evNameLookup := Some \<lparr>nlName = ''x'', nlObjectID = []\<rparr>\<rparr>"

lemma lookup_decodes: "\<exists>ds. DecodeEvent wire_format lookup_frame = Inr (lookup_event, ds)"
proof -
  have "length (strF wire_format 1 ''x'') < 2 ^ 63" "length ''x'' < 2 ^ 63"
    by (simp_all add: strF_def msgF_def wire_codes)
  then show ?thesis
    unfolding lookup_frame_def lookup_event_def DecodeEvent_def DecodeEventWithBudget_def
    by (simp add: readFields_def eventField_def decodeNameLookup_def nameLookupField_def partField_def
        fmt.fields)
qed

lemma lookup_turn:
  "\<exists>d. turn sample_params Reset True False [SendOk, RecvOk lookup_frame] (sample_open :: 'r checkout)
     = Some (Inr lookup_event, [], d)"
proof -
  obtain ds where ds: "DecodeEvent wire_format lookup_frame = Inr (lookup_event, ds)"
    using lookup_decodes by blast
  have ready: "ensureReady sample_open = (None, sample_open :: 'r checkout)"
    by (simp add: ensureReady_def sample_open_simps)
  obtain c2 where acq: "obs_acquire sample_open = (True, c2 :: 'r checkout)"
    and c2: "\<not> coAbortFlight c2" "coBudget c2 = coBudget (sample_new :: 'r checkout)"
    by (simp add: obs_acquire_def sample_open_simps)
  have enc: "EncodeRequest wire_format Reset [] = Inr [74, 0]"
    by (simp add: EncodeRequest_def wire_codes)
  have ev: "evKind lookup_event = EventNameLookup" "IsSuspension lookup_event"
    "evNameLookup lookup_event = Some \<lparr>nlName = ''x'', nlObjectID = []\<rparr>"
    "evTotalExecutionMicros lookup_event = 0" "evMaxDurationMicros lookup_event = None"
    "evMaxSuspensions lookup_event = None"
    by (simp_all add: lookup_event_def zeroEvent_def IsSuspension_def)
  have budget: "\<not> bLimit (observe (coBudget (sample_new :: 'r checkout)) lookup_event)
      < bSeen (observe (coBudget (sample_new :: 'r checkout)) lookup_event)"
    by (simp add: observe_def ev sample_new_def applyLimits_def newCheckout_def sample_config_def
        DefaultMaxSuspensions_def)
  have "\<not> MaxFrameLen < 2" by (simp add: MaxFrameLen_def)
  then show ?thesis
    using c2 budget by (simp add: turn_def ready acq turnBody_def enc send_def Let_def
        turnLoop.simps [of sample_params Reset] reply_def ds ev returned_def dispatch_def)
qed


text \<open>
  C9. What an error of a turn says about the session, at any point of any session. If the session keeps
  its worker, then either the request was refused before a byte was written, and the session is exactly
  as it was, so the same suspension can be answered again; or the worker answered with an exception of
  the program or of the type checker, nothing is pending any more unless the request was a dump, no
  turn and no abort is in flight, and the error does not claim that the worker is lost. Every other
  error (crash, timeout, disconnect, shutdown, broken protocol) ends the session.
\<close>

theorem turn_fails:
  assumes "protowire_format (prWire p)"
    and "session p0 fuel H cfg s kind observed es0 ops w = Some (w', c)" "\<not> coCancelled c"
    and "turn p req control printing es c = Some (Inl e, es', d)" "lease_active d"
  shows "if ePreSend e \<or> eKind e = Panicked then d = c \<and> es' = es
    else eKind e \<in> {KindRuntime, KindTyping} \<and> \<not> eWorkerLost e \<and> \<not> coInFlight d
      \<and> \<not> coAbortFlight d \<and> (req \<noteq> Dump \<longrightarrow> coPending d = noPending)"
proof -
  have "concluded req (Inl e) d \<or> d = c \<and> es' = es \<and> refused (Inl e)"
    using turn_outcome [OF assms(1) session_inv_session [OF assms(2)] assms(3,4)] assms(5) by blast
  then show ?thesis
  proof
    assume "concluded req (Inl e) d"
    with assms(5) show ?thesis by (simp add: concluded_def)
  next
    assume "d = c \<and> es' = es \<and> refused (Inl e)"
    then show ?thesis by (simp add: refused_def)
  qed
qed

text \<open>A result without a kind cannot be encoded.\<close>

lemma refused_turn:
  "turn sample_params (ResumeCall 0 zeroResult) False False [] (sample_open :: 'r checkout)
     = Some (Inl (runtimeError ''TypeError'' ''external result has no kind''), [], sample_open)"
proof -
  have ready: "ensureReady sample_open = (None, sample_open :: 'r checkout)"
    by (simp add: ensureReady_def sample_open_simps)
  obtain c2 where acq: "obs_acquire sample_open = (True, c2 :: 'r checkout)"
    by (simp add: obs_acquire_def sample_open_simps)
  have "EncodeRequest wire_format (ResumeCall 0 zeroResult) [] = Inl (ConversionError ''external result has no kind'')"
    by (simp add: EncodeRequest_def appendCallResult_def appendExtResult_def zeroResult_def ext_kinds)
  moreover have "RequestValues (ResumeCall 0 zeroResult) = []" by (simp add: zeroResult_def ext_kinds)
  ultimately show ?thesis
    by (simp add: turn_def ready acq turnBody_def acquire_release [OF acq])
qed

theorem turn_fails_witness:
  "ePreSend (runtimeError ''TypeError'' ''external result has no kind'')
   \<and> session sample_params 0 (undefined :: (unit, unit, unit) hostfs) sample_config
       \<lparr>sWorker = 0, sServed = 0\<rparr> KindWebSocket True [SendOk, RecvOk ok_frame] [] ()
     = Some ((), sample_open)
   \<and> (\<exists>d. turn sample_params (ResumeCall 0 zeroResult) False False [] (sample_open :: unit checkout)
         = Some (Inl (runtimeError ''TypeError'' ''external result has no kind''), [], d)
       \<and> d = sample_open)"
proof -
  have pre: "ePreSend (runtimeError ''TypeError'' ''external result has no kind'')"
    by (simp add: runtimeError_def)
  have run: "session sample_params 0 (undefined :: (unit, unit, unit) hostfs) sample_config
      \<lparr>sWorker = 0, sServed = 0\<rparr> KindWebSocket True [SendOk, RecvOk ok_frame] [] ()
    = Some ((), sample_open)" by (simp add: session_def sample_opened)
  have wire: "protowire_format (prWire sample_params)" using fmt.protowire_format_axioms by simp
  from turn_fails [OF wire run sample_open_simps(8) refused_turn sample_open_simps(1)] pre run refused_turn
  show ?thesis by auto
qed

section \<open>The working directory of the first feed\<close>

text \<open>
  C40. A first feed that is refused before anything is sent still marks the working directory as set,
  because \<^verbatim>\<open>c.sent\<close> is left over from \<^verbatim>\<open>Configure\<close>: in a fresh session a feed with an input that
  cannot be converted fails with nothing written to the worker, and the next feed, which would have
  switched the session to its first mount, sends no directory any more.
\<close>

definition go_func :: namedValue where
  "go_func = \<lparr>nvName = ''f'', nvValue = VOther RFunc ''func()''\<rparr>"


section \<open>The backstop of the duration budget\<close>

lemma sint_of_range: "- (2 ^ 63) \<le> k \<Longrightarrow> k < 2 ^ 63 \<Longrightarrow> sint (of_int k :: duration) = k"
  by (simp add: signed_of_int signed_take_bit_int_eq_self)

lemma sint_diff_range:
  fixes a b :: duration
  assumes "- (2 ^ 63) \<le> sint a - sint b" "sint a - sint b < 2 ^ 63"
  shows "sint (a - b) = sint a - sint b"
  using sint_of_range [OF assms] by simp

lemma sint_add_range:
  fixes a b :: duration
  assumes "- (2 ^ 63) \<le> sint a + sint b" "sint a + sint b < 2 ^ 63"
  shows "sint (a + b) = sint a + sint b"
  using sint_of_range [OF assms] by simp

lemma sint_microseconds: "uint n * 1000 < 2 ^ 63 \<Longrightarrow> sint (microseconds n) = uint n * 1000"
proof -
  assume "uint n * 1000 < 2 ^ 63"
  moreover have "0 \<le> uint n" by simp
  ultimately have "sint (of_int (uint n * 1000) :: duration) = uint n * 1000"
    by (intro sint_of_range) linarith+
  then show ?thesis by (simp add: microseconds_def)
qed



text \<open>
  Without the bound on the reported time the conversion to a duration wraps around: a worker that
  reports 18446740473709551 microseconds, on a budget of one second, moves its own backstop to more
  than one hour.
\<close>

lemma deadline_forged:
  "deadline \<lparr>bDuration = Some 1000000000, bReported = 18446740473709551, bLimit = 10, bSeen = 0\<rparr>
     0 1000000000 False False = (3602000000616, True)"
  by (simp add: deadline_def microseconds_def)

end
