(* ===== verification/FrameQueue.thy ===== *)
theory FrameQueue
  imports WireFormat
begin

text \<open>
  The queue between a worker's output and its readers: \<^verbatim>\<open>frameQueue\<close> and \<^verbatim>\<open>pumpFrames\<close> of
  \<^verbatim>\<open>internal/worker/worker.go\<close>. The pump is a goroutine of its own; the steps below are the critical
  sections of \<^verbatim>\<open>q.mu\<close> and the reads of the pump between them, in any order. A waiter that finds its
  condition false changes nothing and is not a step. The channels \<^verbatim>\<open>notify\<close> and \<^verbatim>\<open>space\<close> only wake
  waiters; \<^verbatim>\<open>closed\<close> is a flag. Sums of lengths are \<open>int\<close>: the bound that is proved below keeps them
  far from the range of \<^verbatim>\<open>int64\<close>.
\<close>

section \<open>State\<close>

datatype queueError = QWire wire_error | ErrWorkerGone

record frameQueue =
  fqFrames :: "bytes list"
  fqBytes :: int
  fqMaxBytes :: int
  fqErr :: "queueError option"
  fqClosed :: bool
  fqObserved :: int

definition newFrameQueue :: "int \<Rightarrow> frameQueue" where
  "newFrameQueue maxBytes =
     \<lparr>fqFrames = [], fqBytes = 0, fqMaxBytes = maxBytes, fqErr = None, fqClosed = False, fqObserved = 0\<rparr>"

section \<open>Operations\<close>

text \<open>\<open>fq_blocked\<close> is the condition of the loop in \<^verbatim>\<open>push\<close>; \<open>fq_push\<close> is what follows the loop.\<close>

definition fq_blocked :: "bytes \<Rightarrow> frameQueue \<Rightarrow> bool" where
  "fq_blocked frm q \<longleftrightarrow>
     0 < fqMaxBytes q \<and> 0 < fqBytes q \<and> fqMaxBytes q < fqBytes q + int (length frm)"

definition fq_push :: "bytes \<Rightarrow> frameQueue \<Rightarrow> queueError option \<times> frameQueue" where
  "fq_push frm q =
     (if fqClosed q then (Some ErrWorkerGone, q)
      else (None, q\<lparr>fqFrames := fqFrames q @ [frm], fqBytes := fqBytes q + int (length frm),
                    fqObserved := fqObserved q + int (length frm)\<rparr>))"

definition fq_fail :: "queueError \<Rightarrow> frameQueue \<Rightarrow> frameQueue" where
  "fq_fail err q = (if fqErr q = None then q\<lparr>fqErr := Some err\<rparr> else q)"

definition fq_close :: "frameQueue \<Rightarrow> frameQueue" where
  "fq_close q =
     (let q = q\<lparr>fqClosed := True\<rparr>
      in if fqErr q = None then q\<lparr>fqErr := Some ErrWorkerGone\<rparr> else q)"

definition terminalErr :: "frameQueue \<Rightarrow> queueError option" where
  "terminalErr q =
     (if fqErr q = Some (QWire ErrEOF) \<or> fqErr q = Some ErrWorkerGone then None else fqErr q)"

text \<open>\<open>None\<close>: the caller waits.\<close>

definition fq_pop :: "frameQueue \<Rightarrow> ((wire_error + bytes) \<times> frameQueue) option" where
  "fq_pop q =
     (case fqFrames q of
        f # fs \<Rightarrow>
          Some (Inr f, q\<lparr>fqFrames := fs, fqBytes := fqBytes q - int (length f),
                         fqObserved := fqObserved q - int (length f)\<rparr>)
      | [] \<Rightarrow>
          (case fqErr q of
             None \<Rightarrow> None
           | Some ErrWorkerGone \<Rightarrow> Some (Inl ErrTruncated, q)
           | Some (QWire e) \<Rightarrow> Some (Inl e, q)))"

section \<open>The pump and its consumers\<close>

datatype pump = Reading | Pushing bytes | Stopped

record pumped =
  puQueue :: frameQueue
  puPump :: pump
  puStream :: istream
  puDelivered :: "bytes list"

inductive pstep :: "pumped \<Rightarrow> pumped \<Rightarrow> bool" where
  read_frame:
    "puPump s = Reading \<Longrightarrow> FrameReader_Next (puStream s) = (Inr frm, st) \<Longrightarrow>
     pstep s (s\<lparr>puPump := Pushing frm, puStream := st\<rparr>)"
| read_error:
    "puPump s = Reading \<Longrightarrow> FrameReader_Next (puStream s) = (Inl e, st) \<Longrightarrow>
     pstep s (s\<lparr>puPump := Stopped, puStream := st, puQueue := fq_fail (QWire e) (puQueue s)\<rparr>)"
| push_frame:
    "puPump s = Pushing frm \<Longrightarrow> \<not> fq_blocked frm (puQueue s) \<Longrightarrow> fq_push frm (puQueue s) = (None, q) \<Longrightarrow>
     pstep s (s\<lparr>puPump := Reading, puQueue := q\<rparr>)"
| push_gone:
    "puPump s = Pushing frm \<Longrightarrow> fqClosed (puQueue s) \<Longrightarrow> pstep s (s\<lparr>puPump := Stopped\<rparr>)"
| pop_frame:
    "fq_pop (puQueue s) = Some (Inr frm, q) \<Longrightarrow>
     pstep s (s\<lparr>puQueue := q, puDelivered := puDelivered s @ [frm]\<rparr>)"
| close_queue: "pstep s (s\<lparr>puQueue := fq_close (puQueue s)\<rparr>)"

inductive_cases pstepE: "pstep s t"

definition pump_start :: "int \<Rightarrow> bytes \<Rightarrow> pumped" where
  "pump_start maxBytes output =
     \<lparr>puQueue = newFrameQueue maxBytes, puPump = Reading,
      puStream = \<lparr>isData = output, isEnd = None\<rparr>, puDelivered = []\<rparr>"

section \<open>The invariant\<close>

text \<open>What a worker writes: frames, one after the other.\<close>

definition framed :: "bytes list \<Rightarrow> bytes" where
  "framed ps = concat (map (\<lambda>p. le_bytes 4 (length p) @ p) ps)"

definition sum_len :: "bytes list \<Rightarrow> int" where
  "sum_len fs = int (sum_list (map length fs))"

definition queue_ok :: "frameQueue \<Rightarrow> bool" where
  "queue_ok q \<longleftrightarrow>
     fqBytes q = sum_len (fqFrames q) \<and> fqObserved q = fqBytes q
     \<and> (0 < fqMaxBytes q \<longrightarrow> fqBytes q \<le> fqMaxBytes q \<or> (\<exists>f. filter (\<lambda>f. f \<noteq> []) (fqFrames q) = [f]))
     \<and> (fqClosed q \<longrightarrow> fqErr q \<noteq> None)"

definition pump_ok :: "bytes list \<Rightarrow> pumped \<Rightarrow> bool" where
  "pump_ok ps s \<longleftrightarrow>
     queue_ok (puQueue s)
     \<and> (\<exists>rest. puDelivered s @ fqFrames (puQueue s) @ rest = ps
         \<and> (case puPump s of
              Reading \<Rightarrow>
                puStream s = \<lparr>isData = framed rest, isEnd = None\<rparr>
                \<and> (\<not> fqClosed (puQueue s) \<longrightarrow> fqErr (puQueue s) = None)
            | Pushing f \<Rightarrow>
                (\<exists>rest'. rest = f # rest' \<and> puStream s = \<lparr>isData = framed rest', isEnd = None\<rparr>)
                \<and> (\<not> fqClosed (puQueue s) \<longrightarrow> fqErr (puQueue s) = None)
            | Stopped \<Rightarrow> 
                (\<not> fqClosed (puQueue s) \<longrightarrow> rest = [] \<and> fqErr (puQueue s) = Some (QWire ErrEOF))
                \<and> fqErr (puQueue s) \<noteq> None))"

lemma framed_simps [simp]:
  "framed [] = []" "framed (p # ps) = le_bytes 4 (length p) @ p @ framed ps"
  by (simp_all add: framed_def)

lemma sum_len_simps [simp]:
  "sum_len [] = 0" "sum_len (f # fs) = int (length f) + sum_len fs" "sum_len (fs @ [f]) = sum_len fs + int (length f)"
  by (simp_all add: sum_len_def)

lemma sum_len_nonneg [simp]: "0 \<le> sum_len fs"
  by (simp add: sum_len_def)

lemma sum_len_filter: "sum_len (filter (\<lambda>f. f \<noteq> []) fs) = sum_len fs"
  by (induction fs) auto

lemma sum_len_zero: "sum_len fs = 0 \<Longrightarrow> filter (\<lambda>f. f \<noteq> []) fs = []"
  using sum_len_nonneg by (induction fs) (auto simp: add_nonneg_eq_0_iff)

lemma Next_end: "FrameReader_Next \<lparr>isData = [], isEnd = None\<rparr> = (Inl ErrEOF, \<lparr>isData = [], isEnd = None\<rparr>)"
  by (simp add: FrameReader_Next_def ReadFull_def)

lemma queue_ok_push:
  assumes "queue_ok q" "\<not> fq_blocked frm q" "fq_push frm q = (None, q')"
  shows "queue_ok q'"
proof -
  have q': "q' = q\<lparr>fqFrames := fqFrames q @ [frm], fqBytes := fqBytes q + int (length frm),
      fqObserved := fqObserved q + int (length frm)\<rparr>"
    using assms(3) by (auto simp: fq_push_def split: if_splits)
  have "fqBytes q' \<le> fqMaxBytes q \<or> (\<exists>f. filter (\<lambda>f. f \<noteq> []) (fqFrames q') = [f])" if pos: "0 < fqMaxBytes q"
  proof (cases "frm = []")
    case True
    with assms(1) pos show ?thesis by (auto simp: q' queue_ok_def)
  next
    case False
    consider "fqBytes q = 0" | "fqBytes q + int (length frm) \<le> fqMaxBytes q"
      using assms(1,2) pos sum_len_nonneg [of "fqFrames q"] by (auto simp: fq_blocked_def queue_ok_def)
    then show ?thesis
    proof cases
      case 1
      then have "filter (\<lambda>f. f \<noteq> []) (fqFrames q) = []"
        using assms(1) sum_len_zero by (simp add: queue_ok_def)
      with False show ?thesis by (simp add: q')
    qed (simp add: q')
  qed
  with assms(1) show ?thesis by (simp add: queue_ok_def q')
qed

lemma queue_ok_pop:
  assumes "queue_ok q" "fq_pop q = Some (Inr frm, q')"
  shows "queue_ok q' \<and> fqFrames q = frm # fqFrames q' \<and> fqErr q' = fqErr q \<and> fqClosed q' = fqClosed q"
proof -
  obtain fs where fs: "fqFrames q = frm # fs"
    and q': "q' = q\<lparr>fqFrames := fs, fqBytes := fqBytes q - int (length frm),
      fqObserved := fqObserved q - int (length frm)\<rparr>"
    using assms(2) by (auto simp: fq_pop_def split: list.splits option.splits queueError.splits)
  have "sum_len fs \<le> fqMaxBytes q \<or> (\<exists>f. filter (\<lambda>f. f \<noteq> []) fs = [f])" if "0 < fqMaxBytes q"
  proof (cases "fqBytes q \<le> fqMaxBytes q")
    case True
    with assms(1) fs show ?thesis by (simp add: queue_ok_def)
  next
    case False
    with assms(1) that fs obtain f where f: "filter (\<lambda>f. f \<noteq> []) (frm # fs) = [f]"
      by (auto simp: queue_ok_def)
    show ?thesis
    proof (cases "frm = []")
      case True
      with f show ?thesis by auto
    next
      case False
      with f have "filter (\<lambda>f. f \<noteq> []) fs = []" by auto
      then have "sum_len fs = 0" using sum_len_filter [of fs] by simp
      with that show ?thesis by simp
    qed
  qed
  with assms(1) fs show ?thesis by (auto simp: queue_ok_def q')
qed

lemma pump_ok_step:
  assumes "pstep s t" "pump_ok ps s" "\<forall>p\<in>set ps. length p \<le> MaxFrameLen"
  shows "pump_ok ps t"
proof -
  obtain rest where ok: "queue_ok (puQueue s)"
    and rest: "puDelivered s @ fqFrames (puQueue s) @ rest = ps"
    and pump: "case puPump s of
        Reading \<Rightarrow> puStream s = \<lparr>isData = framed rest, isEnd = None\<rparr>
          \<and> (\<not> fqClosed (puQueue s) \<longrightarrow> fqErr (puQueue s) = None)
      | Pushing f \<Rightarrow> (\<exists>rest'. rest = f # rest' \<and> puStream s = \<lparr>isData = framed rest', isEnd = None\<rparr>)
          \<and> (\<not> fqClosed (puQueue s) \<longrightarrow> fqErr (puQueue s) = None)
      | Stopped \<Rightarrow> (\<not> fqClosed (puQueue s) \<longrightarrow> rest = [] \<and> fqErr (puQueue s) = Some (QWire ErrEOF))
          \<and> fqErr (puQueue s) \<noteq> None"
    using assms(2) unfolding pump_ok_def by blast
  have small: "\<forall>p\<in>set rest. length p \<le> MaxFrameLen" using assms(3) rest by auto
  from assms(1) show ?thesis
  proof cases
    case (read_frame frm st)
    then obtain f rest' where r: "rest = f # rest'"
      using pump Next_end by (cases rest) auto
    have "FrameReader_Next (puStream s) = (Inr f, \<lparr>isData = framed rest', isEnd = None\<rparr>)"
      using pump read_frame(2) small r FrameReader_framed [of f "framed rest'" None] by simp
    with read_frame rest r ok pump show ?thesis by (auto simp: pump_ok_def)
  next
    case (read_error e st)
    have "rest = []"
    proof (cases rest)
      case (Cons f rest')
      then have "FrameReader_Next (puStream s) = (Inr f, \<lparr>isData = framed rest', isEnd = None\<rparr>)"
        using pump read_error(2) small FrameReader_framed [of f "framed rest'" None] by simp
      with read_error(3) show ?thesis by simp
    qed simp
    with read_error pump have "e = ErrEOF" by (simp add: Next_end)
    with read_error rest ok pump \<open>rest = []\<close> show ?thesis
      by (auto simp: pump_ok_def fq_fail_def queue_ok_def)
  next
    case (push_frame frm q)
    have "queue_ok q" using queue_ok_push [OF ok push_frame(3,4)] .
    with push_frame rest pump show ?thesis
      by (auto simp: pump_ok_def fq_push_def split: if_splits)
  next
    case (push_gone frm)
    with rest ok pump show ?thesis by (auto simp: pump_ok_def queue_ok_def)
  next
    case (pop_frame frm q)
    with queue_ok_pop [OF ok pop_frame(2)] rest pump show ?thesis
      unfolding pump_ok_def by (intro conjI exI [of _ rest]) (auto split: pump.splits)
  next
    case close_queue
    with rest ok pump show ?thesis
      unfolding pump_ok_def
      by (intro conjI exI [of _ rest]) (auto simp: fq_close_def queue_ok_def Let_def split: pump.splits)
  qed
qed

lemma pump_ok_start: "pump_ok ps (pump_start maxBytes (framed ps))"
  by (simp add: pump_ok_def pump_start_def queue_ok_def newFrameQueue_def)

lemma pstep_max: "pstep s t \<Longrightarrow> fqMaxBytes (puQueue t) = fqMaxBytes (puQueue s)"
  by (erule pstepE)
    (auto simp: fq_fail_def fq_push_def fq_pop_def fq_close_def Let_def
      split: if_splits list.splits option.splits queueError.splits)

lemma pump_reach:
  assumes "pstep\<^sup>*\<^sup>* (pump_start maxBytes (framed ps)) s" "\<forall>p\<in>set ps. length p \<le> MaxFrameLen"
  shows "pump_ok ps s \<and> fqMaxBytes (puQueue s) = maxBytes"
  using assms(1)
proof induction
  case base
  then show ?case by (simp add: pump_ok_start) (simp add: pump_start_def newFrameQueue_def)
next
  case (step s t)
  then show ?case using pump_ok_step [OF _ _ assms(2)] pstep_max by metis
qed

lemma queue_bound:
  assumes "queue_ok q" "0 < fqMaxBytes q" "\<forall>p\<in>set (fqFrames q). length p \<le> MaxFrameLen"
  shows "fqBytes q \<le> max (fqMaxBytes q) (int MaxFrameLen)"
proof (cases "fqBytes q \<le> fqMaxBytes q")
  case False
  with assms(1,2) obtain f where f: "filter (\<lambda>f. f \<noteq> []) (fqFrames q) = [f]"
    by (auto simp: queue_ok_def)
  then have "fqBytes q = int (length f)"
    using assms(1) sum_len_filter [of "fqFrames q"] by (simp add: queue_ok_def)
  moreover have "f \<in> set (fqFrames q)" using arg_cong [OF f, of set] by auto
  ultimately show ?thesis using assms(3) by (simp add: le_max_iff_disj)
qed simp

text \<open>A step of the pump or of a consumer, as opposed to a close.\<close>

lemma pump_progress:
  assumes "pump_ok ps s" "\<not> fqClosed (puQueue s)" "puDelivered s \<noteq> ps"
    and "\<forall>p\<in>set ps. length p \<le> MaxFrameLen"
  shows "\<exists>t. pstep s t \<and> \<not> fqClosed (puQueue t)"
proof (cases "fqFrames (puQueue s)")
  case (Cons f fs)
  define q where "q = (puQueue s)\<lparr>fqFrames := fs, fqBytes := fqBytes (puQueue s) - int (length f),
    fqObserved := fqObserved (puQueue s) - int (length f)\<rparr>"
  have "fq_pop (puQueue s) = Some (Inr f, q)" using Cons by (simp add: fq_pop_def q_def)
  from pstep.pop_frame [OF this] show ?thesis using assms(2) by (auto simp: q_def)
next
  case Nil
  then obtain rest where rest: "puDelivered s @ rest = ps" "rest \<noteq> []"
    and pump: "case puPump s of
        Reading \<Rightarrow> puStream s = \<lparr>isData = framed rest, isEnd = None\<rparr>
      | Pushing f \<Rightarrow> True
      | Stopped \<Rightarrow> rest = []"
    using assms(1-3) unfolding pump_ok_def by (cases "puPump s") auto
  show ?thesis
  proof (cases "puPump s")
    case Reading
    obtain f rest' where r: "rest = f # rest'" using rest(2) by (cases rest) auto
    have "FrameReader_Next (puStream s) = (Inr f, \<lparr>isData = framed rest', isEnd = None\<rparr>)"
      using pump Reading r rest(1) assms(4) FrameReader_framed [of f "framed rest'" None] by auto
    from pstep.read_frame [OF Reading this] show ?thesis using assms(2) by auto
  next
    case (Pushing f)
    have "\<not> fq_blocked f (puQueue s)"
      using assms(1) Nil by (simp add: pump_ok_def queue_ok_def fq_blocked_def)
    moreover obtain q where "fq_push f (puQueue s) = (None, q)" "\<not> fqClosed q"
      using assms(2) by (simp add: fq_push_def)
    ultimately show ?thesis using pstep.push_frame [OF Pushing] by fastforce
  qed (use pump rest in auto)
qed

section \<open>Properties\<close>



text \<open>
  The bound counts the bytes of the frames only: a worker that writes empty frames fills the queue
  with any number of them.
\<close>

lemma empty_frames_pushed:
  assumes "puPump s = Reading" "puStream s = \<lparr>isData = framed (replicate n []), isEnd = None\<rparr>"
    and "\<not> fqClosed (puQueue s)" "fqBytes (puQueue s) = 0"
  shows "\<exists>t. pstep\<^sup>*\<^sup>* s t \<and> length (fqFrames (puQueue t)) = length (fqFrames (puQueue s)) + n
    \<and> fqBytes (puQueue t) = 0"
  using assms
proof (induction n arbitrary: s)
  case 0
  then show ?case by (intro exI [of _ s]) simp
next
  case (Suc n)
  let ?st = "\<lparr>isData = framed (replicate n []), isEnd = None\<rparr>"
  let ?s1 = "s\<lparr>puPump := Pushing [], puStream := ?st\<rparr>"
  let ?q = "snd (fq_push [] (puQueue s))"
  let ?s2 = "?s1\<lparr>puPump := Reading, puQueue := ?q\<rparr>"
  have "FrameReader_Next (puStream s) = (Inr [], ?st)"
    using Suc.prems(2) FrameReader_framed [of "[]" "framed (replicate n [])" None] by simp
  then have "pstep s ?s1" using Suc.prems(1) by (rule pstep.read_frame [rotated])
  moreover have "pstep ?s1 ?s2"
    using Suc.prems(3,4) by (intro pstep.push_frame [of _ "[]"]) (simp_all add: fq_blocked_def fq_push_def)
  moreover obtain t where "pstep\<^sup>*\<^sup>* ?s2 t" "length (fqFrames (puQueue t)) = length (fqFrames ?q) + n"
    "fqBytes (puQueue t) = 0"
    using Suc.IH [of ?s2] Suc.prems(3,4) by (auto simp: fq_push_def)
  moreover have "length (fqFrames ?q) = Suc (length (fqFrames (puQueue s)))"
    using Suc.prems(3) by (simp add: fq_push_def)
  ultimately show ?case
    by (intro exI [of _ t] conjI) (auto intro: converse_rtranclp_into_rtranclp)
qed

lemma empty_frames_unbounded:
  "\<exists>s. pstep\<^sup>*\<^sup>* (pump_start maxBytes (framed (replicate n []))) s
     \<and> length (fqFrames (puQueue s)) = n \<and> fqBytes (puQueue s) = 0"
  using empty_frames_pushed [of "pump_start maxBytes (framed (replicate n []))" n]
  by (simp add: pump_start_def newFrameQueue_def)

end
