(* ===== verification/Spec2Isabelle.thy ===== *)
theory Spec2Isabelle
  imports VPath Utf8 PyValue Repr WireException MountErrors PathPolicy OverlayState Host OsCall Overlay
    OverlayProps OverlayRename OverlayCorrect MountTable MountTableProps
    Protowire WireFormat ValueEncode ValueDecode ValueCorrect ValueRoundtrip ValueSound
    ExceptionCodec EventDecode EventSound RequestEncode
    PoolCore PoolInv PoolProps PoolErrors Checkout CheckoutInv CheckoutProps CheckoutTurn FrameQueue
begin

text \<open>
  Verification of montygo.
\<close>

end
